theory Spec2Isabelle
  imports Complex_Main "HOL-Library.Char_ord" "HOL-Library.List_Lexorder" "HOL-Library.Log_Nat"
begin

section \<open>Data model\<close>

text \<open>
  The store module (\<^verbatim>\<open>useSupabaseStore\<close>) keeps an in-memory snapshot of clients and
  invoices and talks to a hosted table set (\<^verbatim>\<open>clients\<close>, \<^verbatim>\<open>invoices\<close>, \<^verbatim>\<open>invoice_items\<close>,
  \<^verbatim>\<open>audit_logs\<close>, \<^verbatim>\<open>users\<close>).  Timestamps are the ISO strings the code handles.  A string
  is the list of the bytes of its UTF-8 encoding.
\<close>

datatype InvoiceStatus = Pending | Completed | Cancelled

subsection \<open>JavaScript numbers\<close>

text \<open>
  A JavaScript \<^verbatim>\<open>number\<close> is an IEEE 754 double.  A finite double is modelled by the
  rational number it denotes.  \<open>toDouble\<close> rounds a rational to the nearest double, ties
  to even: 53 significant bits, the exponent not below \<open>-1022\<close> (so the subnormal range
  is covered).  The sum and the product of two numbers are the exact results rounded.
  \<^verbatim>\<open>NaN\<close>, the infinities and the negative zero are not values of the type: the amounts
  and counters handled here are finite, and a result of magnitude \<open>2^1024\<close> or more
  (which overflows to \<^verbatim>\<open>Infinity\<close>) is outside the model.
\<close>

type_synonym number = rat

text \<open>The binary exponent of a non-zero rational \<open>x\<close>: the \<open>e\<close> with \<open>2^e \<le> |x| < 2^(e+1)\<close>.\<close>

definition binaryExponent :: "rat \<Rightarrow> int" where
  "binaryExponent x =
     (let (a, b) = quotient_of \<bar>x\<bar>;
          e = bitlen a - bitlen b
      in if 2 powi e \<le> \<bar>x\<bar> then e else e - 1)"

definition roundHalfEven :: "rat \<Rightarrow> int" where
  "roundHalfEven y =
     (let f = \<lfloor>y\<rfloor>; r = y - of_int f
      in if r < 1 / 2 then f
         else if 1 / 2 < r then f + 1
         else if even f then f else f + 1)"

definition toDouble :: "rat \<Rightarrow> number" where
  "toDouble x =
     (if x = 0 then 0
      else let e = max (binaryExponent x) (- 1022);
               q = 2 powi (e - 52)
           in of_int (roundHalfEven (x / q)) * q)"

definition jsAdd :: "number \<Rightarrow> number \<Rightarrow> number" where
  "jsAdd a b = toDouble (a + b)"

definition jsMul :: "number \<Rightarrow> number \<Rightarrow> number" where
  "jsMul a b = toDouble (a * b)"

subsection \<open>Table rows (\<^verbatim>\<open>Database['public']['Tables']\<close>)\<close>

text \<open>
  Each table has its \<^verbatim>\<open>Insert\<close> payload (the object literal the store sends) and its
  \<^verbatim>\<open>Row\<close> (the payload plus the columns the backend fills in).  A column that may hold
  \<^verbatim>\<open>null\<close> is an option.
\<close>

record clients_Insert =
  c_name :: string
  c_phone :: string
  c_address :: "string option"
  visit_count :: number
  reward_claimed :: bool
  last_visit :: "string option"

record clients_Row = clients_Insert +
  c_id :: string
  c_created_at :: string
  c_updated_at :: string

record invoices_Insert =
  i_id :: string
  client_id :: string
  i_total :: number
  payment_method :: string
  i_status :: InvoiceStatus
  pickup_date :: "string option"
  pickup_time :: "string option"
  i_notes :: "string option"
  created_by_name :: "string option"
  created_by_phone :: "string option"

record invoices_Row = invoices_Insert +
  i_created_at :: string
  i_updated_at :: string

record invoice_items_Insert =
  invoice_id :: string
  it_description :: string
  it_quantity :: number
  unit_price :: number
  total_price :: number

record invoice_items_Row = invoice_items_Insert +
  it_id :: string
  it_created_at :: string

datatype json = JNum number | JStr string

record audit_logs_Insert =
  action :: string
  entity_type :: string
  entity_id :: string
  actor_phone :: "string option"
  actor_name :: "string option"
  changes :: "(string \<times> json) list"

record users_Row =
  u_phone :: string
  u_name :: "string option"

subsection \<open>Domain objects (\<^verbatim>\<open>Client\<close>, \<^verbatim>\<open>InvoiceItem\<close>, \<^verbatim>\<open>Invoice\<close>)\<close>

text \<open>
  \<^verbatim>\<open>addClient\<close> takes \<^verbatim>\<open>Omit<Client, "id" | "createdAt" | "updatedAt">\<close>: the base
  record; \<^verbatim>\<open>Client\<close> extends it.  The store always fills \<^verbatim>\<open>address\<close> with a string.
\<close>

record ClientData =
  cName :: string
  cPhone :: string
  cAddress :: string
  visitCount :: number
  rewardClaimed :: bool
  lastVisit :: string

record Client = ClientData +
  cId :: string
  cCreatedAt :: string
  cUpdatedAt :: string

text \<open>
  The form's item (\<^verbatim>\<open>description\<close>, \<^verbatim>\<open>quantity\<close>, \<^verbatim>\<open>unitPrice\<close>) is the base of
  \<^verbatim>\<open>InvoiceItem\<close>, which the submit handler builds from it by spreading.
\<close>

record FormItem =
  description :: string
  quantity :: number
  unitPrice :: number

record InvoiceItem = FormItem +
  itemId :: string
  totalPrice :: number

text \<open>
  \<^verbatim>\<open>addInvoice\<close> takes \<^verbatim>\<open>Omit<Invoice, "createdAt" | "updatedAt">\<close>: the base record;
  \<^verbatim>\<open>Invoice\<close> extends it with the two timestamps.
\<close>

record InvoiceData =
  invoiceId :: string
  client :: Client
  items :: "InvoiceItem list"
  total :: number
  paymentMethod :: string
  status :: InvoiceStatus
  pickupDate :: "string option"
  pickupTime :: "string option"
  invNotes :: "string option"
  createdByName :: "string option"
  createdByPhone :: "string option"

record Invoice = InvoiceData +
  createdAt :: string
  updatedAt :: string

subsection \<open>JavaScript's \<^verbatim>\<open>||\<close> on the values the store uses\<close>

text \<open>
  \<^verbatim>\<open>a || b\<close> is \<^verbatim>\<open>b\<close> when \<^verbatim>\<open>a\<close> is falsy: \<^verbatim>\<open>null\<close>, \<^verbatim>\<open>undefined\<close>, the empty string, zero
  or \<^verbatim>\<open>false\<close>.  \<^verbatim>\<open>None\<close> stands for both \<^verbatim>\<open>null\<close> and \<^verbatim>\<open>undefined\<close>.
\<close>

definition js_or :: "string option \<Rightarrow> string option \<Rightarrow> string option" where
  "js_or a b = (case a of None \<Rightarrow> b | Some s \<Rightarrow> if s = [] then b else Some s)"

definition js_or_str :: "string option \<Rightarrow> string \<Rightarrow> string" where
  "js_or_str a d = (case a of None \<Rightarrow> d | Some s \<Rightarrow> if s = [] then d else s)"

definition js_or_num :: "number \<Rightarrow> number \<Rightarrow> number" where
  "js_or_num a d = (if a = 0 then d else a)"

definition js_or_bool :: "bool \<Rightarrow> bool \<Rightarrow> bool" where
  "js_or_bool a d = (if a then a else d)"

text \<open>
  The backend returns numeric columns as JSON numbers (\<^verbatim>\<open>Row\<close> types them \<^verbatim>\<open>number\<close>);
  \<^verbatim>\<open>parseFloat\<close> of a number is that number.
\<close>

definition parseFloat :: "number \<Rightarrow> number" where
  "parseFloat x = x"

section \<open>Aggregate loader: the in-memory join of \<^verbatim>\<open>loadInvoices\<close>\<close>

text \<open>
  The object literal that turns a \<^verbatim>\<open>clients\<close> row into a \<^verbatim>\<open>Client\<close> (the same literal in
  \<^verbatim>\<open>loadClients\<close>, \<^verbatim>\<open>addClient\<close> and \<^verbatim>\<open>loadInvoices\<close>).  \<open>now\<close> is
  \<^verbatim>\<open>new Date().toISOString()\<close> at the time of the call.
\<close>

definition clientOfRow :: "string \<Rightarrow> clients_Row \<Rightarrow> Client" where
  "clientOfRow now r =
     \<lparr> cName = c_name r,
       cPhone = c_phone r,
       cAddress = js_or_str (c_address r) [],
       visitCount = js_or_num (visit_count r) 0,
       rewardClaimed = js_or_bool (reward_claimed r) False,
       lastVisit = js_or_str (last_visit r) now,
       cId = c_id r,
       cCreatedAt = c_created_at r,
       cUpdatedAt = c_updated_at r \<rparr>"

definition itemOfRow :: "invoice_items_Row \<Rightarrow> InvoiceItem" where
  "itemOfRow r =
     \<lparr> description = it_description r,
       quantity = it_quantity r,
       unitPrice = parseFloat (unit_price r),
       itemId = it_id r,
       totalPrice = parseFloat (total_price r) \<rparr>"

text \<open>
  \<^verbatim>\<open>new Map(clientsData.map(client => [client.id, client]))\<close>: entries are set in order, so
  a later row with the same id replaces an earlier one.
\<close>

definition clientsMap :: "clients_Row list \<Rightarrow> (string \<rightharpoonup> clients_Row)" where
  "clientsMap clientsData = foldl (\<lambda>m r. m(c_id r \<mapsto> r)) Map.empty clientsData"

text \<open>The \<^verbatim>\<open>forEach\<close> that groups item rows by \<^verbatim>\<open>invoice_id\<close>, pushing in order.\<close>

definition itemsMap :: "invoice_items_Row list \<Rightarrow> (string \<rightharpoonup> invoice_items_Row list)" where
  "itemsMap itemsData =
     foldl (\<lambda>m r. m(invoice_id r \<mapsto> (case m (invoice_id r) of None \<Rightarrow> [] | Some rs \<Rightarrow> rs) @ [r]))
       Map.empty itemsData"

text \<open>One step of the \<^verbatim>\<open>.map\<close> callback: \<^verbatim>\<open>null\<close> when the client is not in the map.\<close>

definition invoiceOfRow ::
  "string \<Rightarrow> (string \<rightharpoonup> clients_Row) \<Rightarrow> (string \<rightharpoonup> invoice_items_Row list) \<Rightarrow> invoices_Row
    \<Rightarrow> Invoice option" where
  "invoiceOfRow now cm im invoice =
     (let items' = (case im (i_id invoice) of None \<Rightarrow> [] | Some rs \<Rightarrow> rs) in
      case cm (client_id invoice) of
        None \<Rightarrow> None
      | Some c \<Rightarrow>
          Some \<lparr> invoiceId = i_id invoice,
                 client = clientOfRow now c,
                 items = map itemOfRow items',
                 total = parseFloat (i_total invoice),
                 paymentMethod = payment_method invoice,
                 status = i_status invoice,
                 pickupDate = js_or (pickup_date invoice) None,
                 pickupTime = js_or (pickup_time invoice) None,
                 invNotes = js_or (i_notes invoice) None,
                 createdByName = js_or (created_by_name invoice) None,
                 createdByPhone = js_or (created_by_phone invoice) None,
                 createdAt = i_created_at invoice,
                 updatedAt = i_updated_at invoice \<rparr>)"

text \<open>\<^verbatim>\<open>invoicesData.map(...).filter(Boolean)\<close>: the headers whose client resolved, in order.\<close>

definition joinInvoices ::
  "string \<Rightarrow> invoices_Row list \<Rightarrow> clients_Row list \<Rightarrow> invoice_items_Row list \<Rightarrow> Invoice list" where
  "joinInvoices now invoicesData clientsData itemsData =
     List.map_filter (invoiceOfRow now (clientsMap clientsData) (itemsMap itemsData)) invoicesData"

text \<open>The warnings the callback logs: one per header whose client did not resolve.\<close>

definition joinWarnings :: "invoices_Row list \<Rightarrow> clients_Row list \<Rightarrow> string list" where
  "joinWarnings invoicesData clientsData =
     map (\<lambda>invoice. ''Client not found for invoice '' @ i_id invoice)
       (filter (\<lambda>invoice. clientsMap clientsData (client_id invoice) = None) invoicesData)"

section \<open>The world the store acts on\<close>

text \<open>
  The in-memory state of the store (the fields of \<^verbatim>\<open>SupabaseStore\<close> the operations below
  touch; \<^verbatim>\<open>isInitialized\<close>, \<^verbatim>\<open>databaseReady\<close> and \<^verbatim>\<open>realtimeChannel\<close> are left out).
\<close>

record SupabaseStore =
  invoices :: "Invoice list"
  clients :: "Client list"
  currentUserPhone :: "string option"
  currentUserName :: "string option"
  loading :: bool
  error :: "string option"

text \<open>
  The statements the store sends to the backend, each with the payload it carries.
  Every statement resolves to \<^verbatim>\<open>{ data, error }\<close>; none throws.
\<close>

datatype stmt =
    SelectInvoices
  | SelectClients
  | SelectClientsOrdered
  | SelectInvoiceItems
  | SelectUser string
  | InsertInvoice invoices_Insert
  | InsertInvoiceItems "invoice_items_Insert list"
  | InsertClient clients_Insert
  | InsertAuditLog audit_logs_Insert
  | UpdateClientVisit string number string
  | UpdateInvoiceStatus string InvoiceStatus string
  | DeleteInvoice string

datatype toast = Toast string "string option" bool

text \<open>
  The world: the store, the backend's tables, the list of statements sent so far, the
  browser's local storage, the toasts shown and the console's warnings and errors.
  The backend is outside the repository; what it may do is a parameter of the world:
  \<open>fault w n\<close> is the error message with which the \<open>n\<close>-th statement fails
  (\<open>None\<close>: it succeeds), and \<open>genId w\<close> supplies the ids it generates.  A failing
  statement changes no table.
\<close>

record world =
  store :: SupabaseStore
  clients_tbl :: "clients_Row list"
  invoices_tbl :: "invoices_Row list"
  invoice_items_tbl :: "invoice_items_Row list"
  audit_logs_tbl :: "audit_logs_Insert list"
  users_tbl :: "users_Row list"
  calls :: "stmt list"
  fault :: "nat \<Rightarrow> string option"
  genId :: "nat \<Rightarrow> string"
  localStorage :: "string \<rightharpoonup> string"
  toasts :: "toast list"
  console :: "string list"

definition issue :: "stmt \<Rightarrow> world \<Rightarrow> string option \<times> world" where
  "issue s w = (fault w (length (calls w)), w\<lparr>calls := calls w @ [s]\<rparr>)"

definition show_toast :: "toast \<Rightarrow> world \<Rightarrow> world" where
  "show_toast t w = w\<lparr>toasts := toasts w @ [t]\<rparr>"

definition console_msg :: "string \<Rightarrow> world \<Rightarrow> world" where
  "console_msg m w = w\<lparr>console := console w @ [m]\<rparr>"

text \<open>\<^verbatim>\<open>.order("created_at", { ascending: false })\<close> on ISO timestamps.\<close>

definition order_desc :: "('a \<Rightarrow> string) \<Rightarrow> 'a list \<Rightarrow> 'a list" where
  "order_desc key rows = rev (sort_key key rows)"

subsection \<open>What a successful statement does to the tables\<close>

definition invoiceRow :: "string \<Rightarrow> invoices_Insert \<Rightarrow> invoices_Row" where
  "invoiceRow now p =
     \<lparr> i_id = i_id p, client_id = client_id p, i_total = i_total p,
       payment_method = payment_method p, i_status = i_status p,
       pickup_date = pickup_date p, pickup_time = pickup_time p, i_notes = i_notes p,
       created_by_name = created_by_name p, created_by_phone = created_by_phone p,
       i_created_at = now, i_updated_at = now \<rparr>"

definition itemRow :: "string \<Rightarrow> string \<Rightarrow> invoice_items_Insert \<Rightarrow> invoice_items_Row" where
  "itemRow now new_id p =
     \<lparr> invoice_id = invoice_id p, it_description = it_description p,
       it_quantity = it_quantity p, unit_price = unit_price p, total_price = total_price p,
       it_id = new_id, it_created_at = now \<rparr>"

definition clientRow :: "string \<Rightarrow> string \<Rightarrow> clients_Insert \<Rightarrow> clients_Row" where
  "clientRow now new_id p =
     \<lparr> c_name = c_name p, c_phone = c_phone p, c_address = c_address p,
       visit_count = visit_count p, reward_claimed = reward_claimed p,
       last_visit = last_visit p,
       c_id = new_id, c_created_at = now, c_updated_at = now \<rparr>"

definition insert_invoice :: "string \<Rightarrow> invoices_Insert \<Rightarrow> world \<Rightarrow> string option \<times> world" where
  "insert_invoice now p w =
     (let (e, w1) = issue (InsertInvoice p) w in
      (e, if e = None then w1\<lparr>invoices_tbl := invoices_tbl w1 @ [invoiceRow now p]\<rparr> else w1))"

definition insert_invoice_items ::
  "string \<Rightarrow> invoice_items_Insert list \<Rightarrow> world \<Rightarrow> string option \<times> world" where
  "insert_invoice_items now ps w =
     (let (e, w1) = issue (InsertInvoiceItems ps) w in
      (e, if e = None
          then w1\<lparr>invoice_items_tbl := invoice_items_tbl w1 @
                 map (\<lambda>(k, p). itemRow now (genId w1 (length (invoice_items_tbl w1) + k)) p)
                   (List.enumerate 0 ps)\<rparr>
          else w1))"

text \<open>\<^verbatim>\<open>.insert(...).select().single()\<close>: the inserted row comes back as \<^verbatim>\<open>data\<close>.\<close>

definition insert_client ::
  "string \<Rightarrow> clients_Insert \<Rightarrow> world \<Rightarrow> (string + clients_Row) \<times> world" where
  "insert_client now p w =
     (let (e, w1) = issue (InsertClient p) w in
      case e of
        Some m \<Rightarrow> (Inl m, w1)
      | None \<Rightarrow>
          let r = clientRow now (genId w1 (length (clients_tbl w1))) p in
          (Inr r, w1\<lparr>clients_tbl := clients_tbl w1 @ [r]\<rparr>))"

definition insert_audit_log :: "audit_logs_Insert \<Rightarrow> world \<Rightarrow> string option \<times> world" where
  "insert_audit_log p w =
     (let (e, w1) = issue (InsertAuditLog p) w in
      (e, if e = None then w1\<lparr>audit_logs_tbl := audit_logs_tbl w1 @ [p]\<rparr> else w1))"

definition update_client_visit ::
  "string \<Rightarrow> number \<Rightarrow> string \<Rightarrow> world \<Rightarrow> string option \<times> world" where
  "update_client_visit cid n t w =
     (let (e, w1) = issue (UpdateClientVisit cid n t) w in
      (e, if e = None
          then w1\<lparr>clients_tbl :=
                 map (\<lambda>r. if c_id r = cid then r\<lparr>visit_count := n, last_visit := Some t\<rparr> else r)
                   (clients_tbl w1)\<rparr>
          else w1))"

definition update_invoice_status ::
  "string \<Rightarrow> InvoiceStatus \<Rightarrow> string \<Rightarrow> world \<Rightarrow> string option \<times> world" where
  "update_invoice_status iid s t w =
     (let (e, w1) = issue (UpdateInvoiceStatus iid s t) w in
      (e, if e = None
          then w1\<lparr>invoices_tbl :=
                 map (\<lambda>r. if i_id r = iid then r\<lparr>i_status := s, i_updated_at := t\<rparr> else r)
                   (invoices_tbl w1)\<rparr>
          else w1))"

text \<open>
  Modelled from the spec: the table definitions are not among the sources; the spec says
  deleting the header row removes its items (``items follow via cascade'').
\<close>

definition delete_invoice :: "string \<Rightarrow> world \<Rightarrow> string option \<times> world" where
  "delete_invoice iid w =
     (let (e, w1) = issue (DeleteInvoice iid) w in
      (e, if e = None
          then w1\<lparr>invoices_tbl := filter (\<lambda>r. i_id r \<noteq> iid) (invoices_tbl w1),
                 invoice_items_tbl := filter (\<lambda>r. invoice_id r \<noteq> iid) (invoice_items_tbl w1)\<rparr>
          else w1))"

text \<open>
  \<^verbatim>\<open>.select("name, phone").eq("phone", p).maybeSingle()\<close>: no row gives \<^verbatim>\<open>data = null\<close>
  without an error, one row gives that row, several rows give an error and no data.
\<close>

definition select_user :: "string \<Rightarrow> world \<Rightarrow> (string option \<times> users_Row option) \<times> world" where
  "select_user p w =
     (let (e, w1) = issue (SelectUser p) w in
      case e of
        Some m \<Rightarrow> ((Some m, None), w1)
      | None \<Rightarrow>
          (case filter (\<lambda>u. u_phone u = p) (users_tbl w1) of
             [] \<Rightarrow> ((None, None), w1)
           | [u] \<Rightarrow> ((None, Some u), w1)
           | _ \<Rightarrow> ((Some ''JSON object requested, multiple (or no) rows returned'', None), w1)))"

section \<open>Store operations\<close>

text \<open>
  An \<^verbatim>\<open>async\<close> operation is a function from the world to its outcome and the new world;
  \<open>Inl m\<close> is a thrown \<^verbatim>\<open>Error\<close> with message \<open>m\<close>.  \<open>now\<close> is the clock reading
  \<^verbatim>\<open>new Date().toISOString()\<close> of the run (one reading per operation), also used for the
  timestamps the backend fills in.  Of the console only warnings and errors are kept.
\<close>

subsection \<open>\<^verbatim>\<open>loadInvoices\<close> and \<^verbatim>\<open>loadClients\<close>\<close>

definition loadInvoices :: "string \<Rightarrow> world \<Rightarrow> (string + unit) \<times> world" where
  "loadInvoices now w =
     (let (invoicesError, w1) = issue SelectInvoices w in
      case invoicesError of
        Some m \<Rightarrow>
          (Inl (''Failed to load invoices: '' @ m),
           console_msg ''Error loading invoices:'' (console_msg ''Error loading invoices:'' w1))
      | None \<Rightarrow>
          let invoicesData = order_desc i_created_at (invoices_tbl w1) in
          if invoicesData = [] then (Inr (), w1\<lparr>store := (store w1)\<lparr>invoices := []\<rparr>\<rparr>)
          else
            let (clientsError, w2) = issue SelectClients w1 in
            case clientsError of
              Some m \<Rightarrow>
                (Inl (''Failed to load clients: '' @ m), console_msg ''Error loading invoices:'' w2)
            | None \<Rightarrow>
                let clientsData = clients_tbl w2;
                    (itemsError, w3) = issue SelectInvoiceItems w2 in
                case itemsError of
                  Some m \<Rightarrow>
                    (Inl (''Failed to load invoice items: '' @ m),
                     console_msg ''Error loading invoices:'' w3)
                | None \<Rightarrow>
                    let itemsData = invoice_items_tbl w3;
                        invoices' = joinInvoices now invoicesData clientsData itemsData
                    in (Inr (),
                        w3\<lparr>console := console w3 @ joinWarnings invoicesData clientsData,
                           store := (store w3)\<lparr>invoices := invoices'\<rparr>\<rparr>))"

definition loadClients :: "string \<Rightarrow> world \<Rightarrow> (string + unit) \<times> world" where
  "loadClients now w =
     (let (error', w1) = issue SelectClientsOrdered w in
      case error' of
        Some m \<Rightarrow>
          (Inl (''Failed to load clients: '' @ m),
           console_msg ''Error loading clients:'' (console_msg ''Error loading clients:'' w1))
      | None \<Rightarrow>
          let clients' = map (clientOfRow now) (order_desc c_created_at (clients_tbl w1))
          in (Inr (), w1\<lparr>store := (store w1)\<lparr>clients := clients'\<rparr>\<rparr>))"

subsection \<open>\<^verbatim>\<open>addClient\<close>\<close>

definition statusText :: "InvoiceStatus \<Rightarrow> string" where
  "statusText s = (case s of Pending \<Rightarrow> ''pending'' | Completed \<Rightarrow> ''completed''
                   | Cancelled \<Rightarrow> ''cancelled'')"

definition addClient :: "string \<Rightarrow> ClientData \<Rightarrow> world \<Rightarrow> Client option \<times> world" where
  "addClient now clientData w0 =
     (let w1 = w0\<lparr>store := (store w0)\<lparr>loading := True, error := None\<rparr>\<rparr>;
          (res, w2) = insert_client now
            \<lparr> c_name = cName clientData,
              c_phone = cPhone clientData,
              c_address = js_or (Some (cAddress clientData)) None,
              visit_count = js_or_num (visitCount clientData) 0,
              reward_claimed = js_or_bool (rewardClaimed clientData) False,
              last_visit = Some (js_or_str (Some (lastVisit clientData)) now) \<rparr> w1
      in case res of
        Inl m \<Rightarrow>
          let errorMessage = js_or_str (Some (''Failed to add client: '' @ m)) ''Failed to add client'';
              w3 = console_msg ''Error adding client:'' (console_msg ''Error adding client:'' w2);
              w4 = w3\<lparr>store := (store w3)\<lparr>error := Some errorMessage, loading := False\<rparr>\<rparr>
          in (None, show_toast (Toast ''Error adding client'' (Some errorMessage) True) w4)
      | Inr data \<Rightarrow>
          let newClient = clientOfRow now data;
              w3 = w2\<lparr>store := (store w2)\<lparr>clients := newClient # clients (store w2),
                                           loading := False\<rparr>\<rparr>;
              w4 = show_toast (Toast ''Client added successfully!''
                     (Some (cName newClient @ '' has been added to your client list.'')) False) w3;
              (_, w5) = insert_audit_log
                \<lparr> action = ''create'', entity_type = ''client'', entity_id = cId newClient,
                  actor_phone = currentUserPhone (store w4),
                  actor_name = currentUserName (store w4),
                  changes = [(''name'', JStr (cName newClient)),
                             (''phone'', JStr (cPhone newClient))] \<rparr> w4
          in (Some newClient, w5))"

subsection \<open>\<^verbatim>\<open>addInvoice\<close>\<close>

text \<open>The two payloads \<^verbatim>\<open>addInvoice\<close> builds from its argument.\<close>

definition invoiceInsert :: "'a InvoiceData_scheme \<Rightarrow> world \<Rightarrow> invoices_Insert" where
  "invoiceInsert invoiceData w =
     \<lparr> i_id = invoiceId invoiceData,
       client_id = cId (client invoiceData),
       i_total = total invoiceData,
       payment_method = paymentMethod invoiceData,
       i_status = status invoiceData,
       pickup_date = js_or (pickupDate invoiceData) None,
       pickup_time = js_or (pickupTime invoiceData) None,
       i_notes = js_or (invNotes invoiceData) None,
       created_by_name = js_or (currentUserName (store w)) None,
       created_by_phone = js_or (currentUserPhone (store w)) None \<rparr>"

definition itemsToInsert :: "'a InvoiceData_scheme \<Rightarrow> invoice_items_Insert list" where
  "itemsToInsert invoiceData =
     map (\<lambda>item. \<lparr> invoice_id = invoiceId invoiceData,
                   it_description = description item,
                   it_quantity = quantity item,
                   unit_price = unitPrice item,
                   total_price = totalPrice item \<rparr>) (items invoiceData)"

text \<open>
  The \<^verbatim>\<open>try\<close> block, its last part (from the reload on: the reload of both collections,
  the audit entry and the toast) first.  The argument is typed \<^verbatim>\<open>Omit<Invoice, ...>\<close>, so its client and
  item list are present: \<^verbatim>\<open>!invoiceData.client?.id\<close> is an empty client id and
  \<^verbatim>\<open>!invoiceData.items || invoiceData.items.length === 0\<close> is an empty list.
\<close>

definition addInvoice_reload :: "string \<Rightarrow> 'a InvoiceData_scheme \<Rightarrow> world \<Rightarrow> (string + unit) \<times> world" where
  "addInvoice_reload now invoiceData w5 =
     (let (r6, w6) = loadInvoices now w5 in
      case r6 of
        Inl e \<Rightarrow> (Inl e, w6)
      | Inr _ \<Rightarrow>
          let (r7, w7) = loadClients now w6 in
          case r7 of
            Inl e \<Rightarrow> (Inl e, w7)
          | Inr _ \<Rightarrow>
              let w8 = w7\<lparr>store := (store w7)\<lparr>loading := False\<rparr>\<rparr>;
                  (_, w9) = insert_audit_log
                    \<lparr> action = ''create'', entity_type = ''invoice'',
                      entity_id = invoiceId invoiceData,
                      actor_phone = currentUserPhone (store w8),
                      actor_name = currentUserName (store w8),
                      changes = [(''total'', JNum (total invoiceData)),
                                 (''status'', JStr (statusText (status invoiceData)))] \<rparr> w8
              in (Inr (),
                  show_toast (Toast ''Invoice created successfully!''
                    (Some (''Invoice '' @ invoiceId invoiceData @ '' has been created.''))
                    False) w9))"

definition addInvoice_try :: "string \<Rightarrow> 'a InvoiceData_scheme \<Rightarrow> world \<Rightarrow> (string + unit) \<times> world" where
  "addInvoice_try now invoiceData w0 =
     (let w1 = w0\<lparr>store := (store w0)\<lparr>loading := True, error := None\<rparr>\<rparr> in
      if invoiceId invoiceData = [] then (Inl ''Invoice ID is required'', w1)
      else if cId (client invoiceData) = [] then (Inl ''Client ID is required'', w1)
      else if items invoiceData = [] then (Inl ''Invoice items are required'', w1)
      else
        let (invoiceError, w2) = insert_invoice now (invoiceInsert invoiceData w1) w1 in
        case invoiceError of
          Some m \<Rightarrow>
            (Inl (''Failed to create invoice: '' @ m), console_msg ''Invoice insert error:'' w2)
        | None \<Rightarrow>
            let (itemsError, w3) =
                  (if length (items invoiceData) > 0
                   then insert_invoice_items now (itemsToInsert invoiceData) w2
                   else (None, w2))
            in case itemsError of
              Some m \<Rightarrow>
                let (_, w4) = delete_invoice (invoiceId invoiceData)
                                (console_msg ''Invoice items insert error:'' w3)
                in (Inl (''Failed to create invoice items: '' @ m), w4)
            | None \<Rightarrow>
                let (clientUpdateError, w4) =
                      update_client_visit (cId (client invoiceData))
                        (jsAdd (visitCount (client invoiceData)) 1) now w3;
                    w5 = (case clientUpdateError of
                            Some m \<Rightarrow> console_msg ''Failed to update client visit count:'' w4
                          | None \<Rightarrow> w4)
                in addInvoice_reload now invoiceData w5)"

text \<open>The \<^verbatim>\<open>catch\<close> block: flag the error, toast it and throw it again.\<close>

definition addInvoice :: "string \<Rightarrow> 'a InvoiceData_scheme \<Rightarrow> world \<Rightarrow> (string + unit) \<times> world" where
  "addInvoice now invoiceData w =
     (case addInvoice_try now invoiceData w of
        (Inr u, w') \<Rightarrow> (Inr u, w')
      | (Inl m, w') \<Rightarrow>
          let errorMessage = js_or_str (Some m) ''Failed to add invoice'';
              w1 = console_msg ''Error adding invoice:'' w';
              w2 = w1\<lparr>store := (store w1)\<lparr>error := Some errorMessage, loading := False\<rparr>\<rparr>
          in (Inl m, show_toast (Toast ''Error adding invoice'' (Some errorMessage) True) w2))"

subsection \<open>\<^verbatim>\<open>updateInvoiceStatus\<close>\<close>

definition updateInvoiceStatus :: "string \<Rightarrow> string \<Rightarrow> InvoiceStatus \<Rightarrow> world \<Rightarrow> world" where
  "updateInvoiceStatus now iid status' w0 =
     (let w1 = w0\<lparr>store := (store w0)\<lparr>loading := True, error := None\<rparr>\<rparr>;
          (error', w2) = update_invoice_status iid status' now w1
      in case error' of
        Some m \<Rightarrow>
          let errorMessage = js_or_str (Some (''Failed to update invoice status: '' @ m))
                               ''Failed to update status'';
              w3 = console_msg ''Error updating invoice status:'' w2;
              w4 = w3\<lparr>store := (store w3)\<lparr>error := Some errorMessage, loading := False\<rparr>\<rparr>
          in show_toast (Toast ''Error updating status'' (Some errorMessage) True) w4
      | None \<Rightarrow>
          let w3 = w2\<lparr>store := (store w2)
                     \<lparr>invoices := map (\<lambda>invoice. if invoiceId invoice = iid
                                        then invoice\<lparr>status := status', updatedAt := now\<rparr>
                                        else invoice) (invoices (store w2)),
                      loading := False\<rparr>\<rparr>;
              (_, w4) = insert_audit_log
                \<lparr> action = ''status_update'', entity_type = ''invoice'', entity_id = iid,
                  actor_phone = currentUserPhone (store w3),
                  actor_name = currentUserName (store w3),
                  changes = [(''status'', JStr (statusText status'))] \<rparr> w3
          in show_toast (Toast ''Status updated successfully!''
               (Some (''Invoice '' @ iid @ '' marked as '' @ statusText status')) False) w4)"

subsection \<open>\<^verbatim>\<open>setCurrentUser\<close>\<close>

text \<open>
  \<^verbatim>\<open>String.prototype.trim\<close> removes the leading and trailing white space and line
  terminators of ECMAScript: TAB, LF, VT, FF, CR, the space, U+00A0, U+1680, U+2000 to
  U+200A, U+2028, U+2029, U+202F, U+205F, U+3000 and U+FEFF, here each by its UTF-8
  encoding.
\<close>

definition whiteSpace :: "string list" where
  "whiteSpace =
     [[CHR 0x09], [CHR 0x0A], [CHR 0x0B], [CHR 0x0C], [CHR 0x0D], [CHR 0x20],
      [CHR 0xC2, CHR 0xA0],
      [CHR 0xE1, CHR 0x9A, CHR 0x80],
      [CHR 0xE2, CHR 0x80, CHR 0x80], [CHR 0xE2, CHR 0x80, CHR 0x81],
      [CHR 0xE2, CHR 0x80, CHR 0x82], [CHR 0xE2, CHR 0x80, CHR 0x83],
      [CHR 0xE2, CHR 0x80, CHR 0x84], [CHR 0xE2, CHR 0x80, CHR 0x85],
      [CHR 0xE2, CHR 0x80, CHR 0x86], [CHR 0xE2, CHR 0x80, CHR 0x87],
      [CHR 0xE2, CHR 0x80, CHR 0x88], [CHR 0xE2, CHR 0x80, CHR 0x89],
      [CHR 0xE2, CHR 0x80, CHR 0x8A],
      [CHR 0xE2, CHR 0x80, CHR 0xA8], [CHR 0xE2, CHR 0x80, CHR 0xA9],
      [CHR 0xE2, CHR 0x80, CHR 0xAF],
      [CHR 0xE2, CHR 0x81, CHR 0x9F],
      [CHR 0xE3, CHR 0x80, CHR 0x80],
      [CHR 0xEF, CHR 0xBB, CHR 0xBF]]"

text \<open>Dropping, from the front of \<open>s\<close>, every leading occurrence of one of the strings \<open>ps\<close>.\<close>

function stripLeading :: "string list \<Rightarrow> string \<Rightarrow> string" where
  "stripLeading ps s =
     (case find (\<lambda>p. p \<noteq> [] \<and> take (length p) s = p) ps of
        None \<Rightarrow> s
      | Some p \<Rightarrow> stripLeading ps (drop (length p) s))"
  by pat_completeness auto
termination
proof (relation "measure (\<lambda>(ps, s). length s)")
  show "wf (measure (\<lambda>(ps, s). length s))" by simp
next
  fix ps :: "string list" and s p :: string
  assume "find (\<lambda>p. p \<noteq> [] \<and> take (length p) s = p) ps = Some p"
  then have "p \<noteq> []" and "take (length p) s = p" by (auto simp: find_Some_iff)
  then have "s \<noteq> []" by auto
  with \<open>p \<noteq> []\<close> show "((ps, drop (length p) s), (ps, s)) \<in> measure (\<lambda>(ps, s). length s)"
    by simp
qed

declare stripLeading.simps [simp del]

definition trim :: "string \<Rightarrow> string" where
  "trim s = rev (stripLeading (map rev whiteSpace) (rev (stripLeading whiteSpace s)))"

text \<open>
  The store runs in the browser (\<^verbatim>\<open>"use client"\<close>), so \<^verbatim>\<open>typeof window !== "undefined"\<close>
  holds.  No statement throws, so the \<^verbatim>\<open>catch\<close> block is not reached.
\<close>

definition setCurrentUser :: "string \<Rightarrow> string option \<Rightarrow> world \<Rightarrow> world" where
  "setCurrentUser phone name w =
     (let normalized = trim phone;
          ((error', existing), w1) = select_user normalized w;
          w2 = (case error' of Some m \<Rightarrow> console_msg ''User lookup failed'' w1 | None \<Rightarrow> w1)
      in case existing of
        None \<Rightarrow>
          show_toast (Toast ''Account not found''
            (Some ''Ask admin to create your account first.'') True) w2
      | Some u \<Rightarrow>
          let resolvedName = js_or (js_or (u_name u) name) None;
              w3 = w2\<lparr>localStorage := (localStorage w2)(''ims_user_phone'' \<mapsto> normalized)\<rparr>;
              w4 = (case resolvedName of
                      Some n \<Rightarrow> w3\<lparr>localStorage := (localStorage w3)(''ims_user_name'' \<mapsto> n)\<rparr>
                    | None \<Rightarrow> w3)
          in w4\<lparr>store := (store w4)\<lparr>currentUserPhone := Some normalized,
                                      currentUserName := resolvedName\<rparr>\<rparr>)"

subsection \<open>\<^verbatim>\<open>getPickupNotifications\<close>\<close>

text \<open>
  A \<^verbatim>\<open>Date\<close> by what its methods return: the ISO string (the instant in UTC) and the
  fields of the local time.  \<^verbatim>\<open>getPickupNotifications\<close> reads the ISO string, the hours
  and the minutes; the local calendar date (\<^verbatim>\<open>getMonth\<close> counts from 0) is there to say
  what day it is for the user.
\<close>

record JsDate =
  toISOString :: string
  getFullYear :: nat
  getMonth :: nat
  getDate :: nat
  getHours :: nat
  getMinutes :: nat

definition digitChar :: "nat \<Rightarrow> char" where
  "digitChar n = ''0123456789'' ! n"

fun toString :: "nat \<Rightarrow> string" where
  "toString n = (if n < 10 then [digitChar n] else toString (n div 10) @ [digitChar (n mod 10)])"

declare toString.simps [simp del]

definition padStart :: "nat \<Rightarrow> char \<Rightarrow> string \<Rightarrow> string" where
  "padStart k c s = replicate (k - length s) c @ s"

text \<open>\<^verbatim>\<open>now.toISOString().split("T")[0]\<close>\<close>

definition currentDate :: "JsDate \<Rightarrow> string" where
  "currentDate d = takeWhile (\<lambda>c. c \<noteq> CHR ''T'') (toISOString d)"

definition currentTimeString :: "JsDate \<Rightarrow> string" where
  "currentTimeString d =
     padStart 2 CHR ''0'' (toString (getHours d)) @ '':'' @
     padStart 2 CHR ''0'' (toString (getMinutes d))"

text \<open>The filter's callback; an absent or empty string is falsy.\<close>

definition pickupDue :: "JsDate \<Rightarrow> Invoice \<Rightarrow> bool" where
  "pickupDue d invoice =
     (case (js_or (pickupDate invoice) None, js_or (pickupTime invoice) None) of
        (Some pd, Some pt) \<Rightarrow>
          if status invoice = Completed then False
          else
            let isToday = (pd = currentDate d);
                pickupTime' = take 5 pt;
                isTimeMatch = (pickupTime' = currentTimeString d)
            in isToday \<and> isTimeMatch
      | _ \<Rightarrow> False)"

definition getPickupNotifications :: "JsDate \<Rightarrow> world \<Rightarrow> Invoice list" where
  "getPickupNotifications d w = filter (pickupDue d) (invoices (store w))"

section \<open>The invoice form's submit handler\<close>

record InvoiceFormData =
  f_clientName :: string
  f_clientPhone :: string
  f_clientAddress :: "string option"
  f_items :: "FormItem list"
  f_paymentMethod :: string
  f_pickupDate :: "string option"
  f_pickupTime :: "string option"
  f_notes :: "string option"
  f_status :: InvoiceStatus

text \<open>\<^verbatim>\<open>calculateTotal\<close>: the \<^verbatim>\<open>reduce\<close> over \<^verbatim>\<open>form.watch('items')\<close>, given as the argument.\<close>

definition calculateTotal :: "FormItem list \<Rightarrow> number" where
  "calculateTotal watched =
     foldl (\<lambda>sum' item. jsAdd sum' (jsMul (quantity item) (unitPrice item))) 0 watched"

text \<open>The \<^verbatim>\<open>for\<close> loop over the items: the title of the first toast it raises, if any.\<close>

fun validateItems :: "nat \<Rightarrow> FormItem list \<Rightarrow> string option" where
  "validateItems i [] = None"
| "validateItems i (item # rest) =
     (if trim (description item) = []
      then Some (''Item '' @ toString (i + 1) @ '' description is required'')
      else if quantity item \<le> 0
      then Some (''Item '' @ toString (i + 1) @ '' quantity must be greater than 0'')
      else if unitPrice item < 0
      then Some (''Item '' @ toString (i + 1) @ '' unit price cannot be negative'')
      else validateItems (i + 1) rest)"

text \<open>The items of the invoice: the form's items with a fresh id and the line total.\<close>

definition invoiceItems :: "(nat \<Rightarrow> string) \<Rightarrow> FormItem list \<Rightarrow> InvoiceItem list" where
  "invoiceItems randomUUID its =
     map (\<lambda>(k, item). \<lparr> description = description item,
                        quantity = quantity item,
                        unitPrice = unitPrice item,
                        itemId = randomUUID k,
                        totalPrice = jsMul (quantity item) (unitPrice item) \<rparr>)
       (List.enumerate 0 its)"

text \<open>
  \<^verbatim>\<open>onSubmit\<close> of the form that creates an invoice (\<^verbatim>\<open>editingId\<close> absent, so the id is
  \<^verbatim>\<open>generateInvoiceId()\<close>, here \<open>newInvoiceId\<close>, and the save is \<^verbatim>\<open>addInvoice\<close>).
  \<open>data\<close> is the argument the form library calls the handler with: the submitted
  values, once its resolver has accepted them (\<^verbatim>\<open>form.handleSubmit\<close> and the resolver
  are library code; the handler is defined here for every \<open>data\<close> whose numbers are
  finite, and the schema's \<^verbatim>\<open>z.number()\<close> rejects \<^verbatim>\<open>NaN\<close>).  \<open>watched\<close> is what
  \<^verbatim>\<open>form.watch('items')\<close> returns when the total is calculated: the items the form holds
  at that time, after \<^verbatim>\<open>addClient\<close> has been awaited, which need not be those of
  \<open>data\<close>.  \<open>randomUUID k\<close> is the \<open>k\<close>-th result of \<^verbatim>\<open>crypto.randomUUID()\<close>.
\<close>

definition onSubmit ::
  "string \<Rightarrow> string \<Rightarrow> (nat \<Rightarrow> string) \<Rightarrow> FormItem list \<Rightarrow> InvoiceFormData \<Rightarrow> world \<Rightarrow> world" where
  "onSubmit now newInvoiceId randomUUID watched data w =
     (if trim (f_clientName data) = []
      then show_toast (Toast ''Client name is required'' None True) w
      else if trim (f_clientPhone data) = []
      then show_toast (Toast ''Client phone is required'' None True) w
      else if f_paymentMethod data = []
      then show_toast (Toast ''Payment method is required'' None True) w
      else if f_items data = []
      then show_toast (Toast ''At least one item is required'' None True) w
      else case validateItems 0 (f_items data) of
        Some t \<Rightarrow> show_toast (Toast t None True) w
      | None \<Rightarrow>
          let (found, w1) =
                (case find (\<lambda>c. cPhone c = f_clientPhone data) (clients (store w)) of
                   Some c \<Rightarrow> (Some c, w)
                 | None \<Rightarrow>
                     addClient now
                       \<lparr> cName = f_clientName data,
                         cPhone = f_clientPhone data,
                         cAddress = js_or_str (f_clientAddress data) [],
                         visitCount = 0,
                         rewardClaimed = False,
                         lastVisit = now \<rparr> w)
          in case found of
            None \<Rightarrow> show_toast (Toast ''Failed to create client'' None True) w1
          | Some client' \<Rightarrow>
              let total' = calculateTotal watched;
                  invoiceData =
                    \<lparr> invoiceId = newInvoiceId,
                      client = client',
                      items = invoiceItems randomUUID (f_items data),
                      total = total',
                      paymentMethod = f_paymentMethod data,
                      status = f_status data,
                      pickupDate = js_or (f_pickupDate data) None,
                      pickupTime = js_or (f_pickupTime data) None,
                      invNotes = js_or (f_notes data) None,
                      createdByName = None,
                      createdByPhone = None \<rparr>
              in case addInvoice now invoiceData w1 of
                (Inr _, w2) \<Rightarrow> show_toast (Toast ''Invoice created successfully!'' None False) w2
              | (Inl m, w2) \<Rightarrow>
                  show_toast (Toast ''Error saving invoice''
                    (Some (js_or_str (Some m) ''Please try again.'')) True)
                    (console_msg ''Error in form submission:'' w2))"

section \<open>Notions used in the statements\<close>

text \<open>
  The first part of the \<^verbatim>\<open>try\<close> block on its own, for the proofs: the world once the
  header and the items are written and the counter update has been sent.
\<close>

definition written :: "string \<Rightarrow> 'a InvoiceData_scheme \<Rightarrow> world \<Rightarrow> world" where
  "written now d w =
     (let w1 = w\<lparr>store := (store w)\<lparr>loading := True, error := None\<rparr>\<rparr>;
          w2 = snd (insert_invoice now (invoiceInsert d w1) w1);
          w3 = snd (insert_invoice_items now (itemsToInsert d) w2);
          (e, w4) = update_client_visit (cId (client d)) (jsAdd (visitCount (client d)) 1) now w3
      in case e of Some m \<Rightarrow> console_msg ''Failed to update client visit count:'' w4
                 | None \<Rightarrow> w4)"

text \<open>The message of the first check of \<^verbatim>\<open>addInvoice\<close> that its argument fails.\<close>

definition validationMessage :: "'a InvoiceData_scheme \<Rightarrow> string" where
  "validationMessage d =
     (if invoiceId d = [] then ''Invoice ID is required''
      else if cId (client d) = [] then ''Client ID is required''
      else ''Invoice items are required'')"

text \<open>A client row has a last visit when the column holds a non-empty string.\<close>

definition hasLastVisit :: "clients_Row \<Rightarrow> bool" where
  "hasLastVisit c = (case last_visit c of None \<Rightarrow> False | Some t \<Rightarrow> t \<noteq> [])"

text \<open>An invoice with the \<open>lastVisit\<close> of its embedded client blanked.\<close>

definition withoutLastVisit :: "Invoice \<Rightarrow> Invoice" where
  "withoutLastVisit iv = iv\<lparr>client := (client iv)\<lparr>lastVisit := []\<rparr>\<rparr>"

text \<open>The audit entry \<^verbatim>\<open>updateInvoiceStatus\<close> writes.\<close>

definition statusAudit :: "string \<Rightarrow> InvoiceStatus \<Rightarrow> world \<Rightarrow> audit_logs_Insert" where
  "statusAudit iid s w =
     \<lparr> action = ''status_update'', entity_type = ''invoice'', entity_id = iid,
       actor_phone = currentUserPhone (store w), actor_name = currentUserName (store w),
       changes = [(''status'', JStr (statusText s))] \<rparr>"

text \<open>The toast \<^verbatim>\<open>setCurrentUser\<close> shows when the lookup yields no account.\<close>

definition accountNotFound :: toast where
  "accountNotFound = Toast ''Account not found'' (Some ''Ask admin to create your account first.'') True"

text \<open>The header payloads and the item payloads among a list of statements.\<close>

fun headerInserts :: "stmt list \<Rightarrow> invoices_Insert list" where
  "headerInserts [] = []"
| "headerInserts (InsertInvoice p # cs) = p # headerInserts cs"
| "headerInserts (_ # cs) = headerInserts cs"

fun itemInserts :: "stmt list \<Rightarrow> invoice_items_Insert list" where
  "itemInserts [] = []"
| "itemInserts (InsertInvoiceItems ps # cs) = ps @ itemInserts cs"
| "itemInserts (_ # cs) = itemInserts cs"

text \<open>The statements a run added to the calls.\<close>

definition sentBy :: "world \<Rightarrow> world \<Rightarrow> stmt list" where
  "sentBy w w' = drop (length (calls w)) (calls w')"

text \<open>
  The sum of a list of numbers as JavaScript adds them: from \<open>0\<close>, left to right, each
  partial sum rounded.
\<close>

definition jsSum :: "number list \<Rightarrow> number" where
  "jsSum xs = foldl jsAdd 0 xs"

text \<open>\<^verbatim>\<open>Number.isSafeInteger\<close>: an integer of magnitude at most \<open>2^53 - 1\<close>.\<close>

definition isSafeInteger :: "number \<Rightarrow> bool" where
  "isSafeInteger x \<longleftrightarrow> of_int \<lfloor>x\<rfloor> = x \<and> \<bar>x\<bar> \<le> 2 ^ 53 - 1"

text \<open>A whole amount: an integer that is not negative (a count, or a price without cents).\<close>

definition wholeAmount :: "number \<Rightarrow> bool" where
  "wholeAmount x \<longleftrightarrow> of_int \<lfloor>x\<rfloor> = x \<and> 0 \<le> x"

text \<open>
  The item payloads sent for a list of form items: one row each, in order, with the line
  total the rounded product of quantity and unit price.
\<close>

definition formRows :: "string \<Rightarrow> FormItem list \<Rightarrow> invoice_items_Insert list" where
  "formRows iid its =
     map (\<lambda>item. \<lparr> invoice_id = iid, it_description = description item,
                   it_quantity = quantity item, unit_price = unitPrice item,
                   total_price = jsMul (quantity item) (unitPrice item) \<rparr>) its"

text \<open>
  The field mapping of the claim C1, from its words: each field of the client is the
  column of the row with the same name in the other case convention.
\<close>

definition fieldMapped :: "clients_Row \<Rightarrow> Client \<Rightarrow> bool" where
  "fieldMapped r c \<longleftrightarrow>
     cId c = c_id r \<and> cName c = c_name r \<and> cPhone c = c_phone r \<and>
     Some (cAddress c) = c_address r \<and> visitCount c = visit_count r \<and>
     rewardClaimed c = reward_claimed r \<and> Some (lastVisit c) = last_visit r \<and>
     cCreatedAt c = c_created_at r \<and> cUpdatedAt c = c_updated_at r"

text \<open>
  The same mapping with the two defaults: a \<^verbatim>\<open>null\<close> address reads as the empty string,
  and a \<^verbatim>\<open>null\<close> or empty last visit as the time \<open>now\<close>.
\<close>

definition fieldMappedOr :: "string \<Rightarrow> clients_Row \<Rightarrow> Client \<Rightarrow> bool" where
  "fieldMappedOr now r c \<longleftrightarrow>
     cId c = c_id r \<and> cName c = c_name r \<and> cPhone c = c_phone r \<and>
     cAddress c = (case c_address r of None \<Rightarrow> [] | Some a \<Rightarrow> a) \<and>
     visitCount c = visit_count r \<and>
     rewardClaimed c = reward_claimed r \<and>
     lastVisit c = (case last_visit r of None \<Rightarrow> now | Some t \<Rightarrow> if t = [] then now else t) \<and>
     cCreatedAt c = c_created_at r \<and> cUpdatedAt c = c_updated_at r"

text \<open>The client row a lookup by id resolves to: the last row fetched with that id.\<close>

definition rowOf :: "clients_Row list \<Rightarrow> string \<Rightarrow> clients_Row" where
  "rowOf cs k = last (filter (\<lambda>c. c_id c = k) cs)"

text \<open>
  How the invoices that two loads make of the same header differ: not at all when the
  client row has a last visit, else in the last visit of the embedded client only, which
  is the time of each load.
\<close>

definition sameButClock :: "string \<Rightarrow> string \<Rightarrow> clients_Row list \<Rightarrow> Invoice \<Rightarrow> Invoice \<Rightarrow> bool" where
  "sameButClock now1 now2 cs a b \<longleftrightarrow>
     withoutLastVisit a = withoutLastVisit b \<and>
     (hasLastVisit (rowOf cs (cId (client a))) \<longrightarrow> a = b) \<and>
     (\<not> hasLastVisit (rowOf cs (cId (client a))) \<longrightarrow>
        lastVisit (client a) = now1 \<and> lastVisit (client b) = now2)"

text \<open>
  Today's date for the user, \<open>YYYY-MM-DD\<close>: the local calendar date of the clock
  reading.
\<close>

definition localDate :: "JsDate \<Rightarrow> string" where
  "localDate d =
     padStart 4 CHR ''0'' (toString (getFullYear d)) @ ''-'' @
     padStart 2 CHR ''0'' (toString (getMonth d + 1)) @ ''-'' @
     padStart 2 CHR ''0'' (toString (getDate d))"

text \<open>The argument \<^verbatim>\<open>onSubmit\<close> hands to \<^verbatim>\<open>addInvoice\<close>, for the client it found or created.\<close>

definition submittedInvoice ::
  "string \<Rightarrow> (nat \<Rightarrow> string) \<Rightarrow> FormItem list \<Rightarrow> InvoiceFormData \<Rightarrow> Client \<Rightarrow> InvoiceData" where
  "submittedInvoice newInvoiceId randomUUID watched data c =
     \<lparr> invoiceId = newInvoiceId,
       client = c,
       items = invoiceItems randomUUID (f_items data),
       total = calculateTotal watched,
       paymentMethod = f_paymentMethod data,
       status = f_status data,
       pickupDate = js_or (f_pickupDate data) None,
       pickupTime = js_or (f_pickupTime data) None,
       invNotes = js_or (f_notes data) None,
       createdByName = None,
       createdByPhone = None \<rparr>"

text \<open>The client \<^verbatim>\<open>onSubmit\<close> asks \<^verbatim>\<open>addClient\<close> to create when the phone is not known.\<close>

definition submittedClient :: "string \<Rightarrow> InvoiceFormData \<Rightarrow> ClientData" where
  "submittedClient now data =
     \<lparr> cName = f_clientName data,
       cPhone = f_clientPhone data,
       cAddress = js_or_str (f_clientAddress data) [],
       visitCount = 0,
       rewardClaimed = False,
       lastVisit = now \<rparr>"

section \<open>Example data\<close>

text \<open>
  A small world used to run the operations on concrete input: one client, one invoice of
  that client with one item, and one invoice whose client row is missing.
\<close>

definition ex_client :: clients_Row where
  "ex_client =
     \<lparr> c_name = ''Jean'', c_phone = ''+250788000000'', c_address = None, visit_count = 0,
       reward_claimed = False, last_visit = None,
       c_id = ''c1'', c_created_at = ''2024-01-01T08:00:00.000Z'',
       c_updated_at = ''2024-01-01T08:00:00.000Z'' \<rparr>"

definition ex_header :: "string \<Rightarrow> string \<Rightarrow> string \<Rightarrow> invoices_Row" where
  "ex_header iid cid t =
     \<lparr> i_id = iid, client_id = cid, i_total = 2000, payment_method = ''cash'',
       i_status = Pending, pickup_date = Some ''2024-01-05'', pickup_time = Some ''10:30:00'',
       i_notes = None, created_by_name = None, created_by_phone = None,
       i_created_at = t, i_updated_at = t \<rparr>"

definition ex_item :: invoice_items_Row where
  "ex_item =
     \<lparr> invoice_id = ''INV-1'', it_description = ''Shirt wash'', it_quantity = 2,
       unit_price = 1000, total_price = 2000, it_id = ''i1'',
       it_created_at = ''2024-01-02T09:00:00.000Z'' \<rparr>"

definition ex_store :: SupabaseStore where
  "ex_store = \<lparr> invoices = [], clients = [], currentUserPhone = None, currentUserName = None,
                 loading = False, error = None \<rparr>"

definition ex_world :: world where
  "ex_world =
     \<lparr> store = ex_store,
       clients_tbl = [ex_client],
       invoices_tbl = [ex_header ''INV-1'' ''c1'' ''2024-01-02T09:00:00.000Z'',
                       ex_header ''INV-2'' ''gone'' ''2024-01-03T09:00:00.000Z''],
       invoice_items_tbl = [ex_item],
       audit_logs_tbl = [],
       users_tbl = [\<lparr> u_phone = ''0788'', u_name = Some ''Alice'' \<rparr>],
       calls = [],
       fault = (\<lambda>n. None),
       genId = (\<lambda>n. ''row-'' @ toString n),
       localStorage = Map.empty,
       toasts = [],
       console = [] \<rparr>"

definition ex_now :: string where
  "ex_now = ''2024-01-04T00:00:00.000Z''"

definition ex_invoiceData :: InvoiceData where
  "ex_invoiceData =
     \<lparr> invoiceId = ''INV-9'',
       client = \<lparr> cName = ''Jean'', cPhone = ''+250788000000'', cAddress = [], visitCount = 0,
                  rewardClaimed = False, lastVisit = ''2024-01-01T08:00:00.000Z'',
                  cId = ''c1'', cCreatedAt = ''2024-01-01T08:00:00.000Z'',
                  cUpdatedAt = ''2024-01-01T08:00:00.000Z'' \<rparr>,
       items = [\<lparr> description = ''Shirt wash'', quantity = 2, unitPrice = 1000,
                   itemId = ''u0'', totalPrice = 2000 \<rparr>],
       total = 2000, paymentMethod = ''cash'', status = Pending,
       pickupDate = None, pickupTime = None, invNotes = None,
       createdByName = None, createdByPhone = None \<rparr>"

text \<open>The example world with the backend failing from statement \<open>k\<close> on, or at statement \<open>k\<close> only.\<close>

definition ex_failing_from :: "nat \<Rightarrow> world" where
  "ex_failing_from k = ex_world\<lparr>fault := (\<lambda>n. if n < k then None else Some ''offline'')\<rparr>"

definition ex_failing_at :: "nat \<Rightarrow> world" where
  "ex_failing_at k = ex_world\<lparr>fault := (\<lambda>n. if n = k then Some ''offline'' else None)\<rparr>"

definition ex_later :: string where
  "ex_later = ''2024-01-04T00:00:01.000Z''"

text \<open>The example world with an address and a last visit recorded for its client.\<close>

definition ex_complete :: world where
  "ex_complete =
     ex_world\<lparr>clients_tbl := [ex_client\<lparr>c_address := Some ''KN 5 Rd'',
                                            last_visit := Some ''2024-01-01T08:00:00.000Z''\<rparr>]\<rparr>"

text \<open>
  A table that mixes both kinds of client: \<open>c1\<close> without a last visit, \<open>c2\<close> with
  one, and an invoice of each (and one without a client row).
\<close>

definition ex_mixed :: world where
  "ex_mixed =
     ex_world\<lparr>clients_tbl :=
                  [ex_client,
                   ex_client\<lparr>c_name := ''Aline'', c_phone := ''+250788000001'',
                             last_visit := Some ''2024-01-01T08:00:00.000Z'', c_id := ''c2''\<rparr>],
                invoices_tbl :=
                  [ex_header ''INV-1'' ''c1'' ''2024-01-02T09:00:00.000Z'',
                   ex_header ''INV-2'' ''gone'' ''2024-01-03T09:00:00.000Z'',
                   ex_header ''INV-3'' ''c2'' ''2024-01-03T10:00:00.000Z'']\<rparr>"

text \<open>The example world after a load (its snapshot holds the invoice \<open>INV-1\<close>, pending).\<close>

definition ex_loaded :: world where
  "ex_loaded = snd (loadInvoices ex_now ex_world)"

definition ex_loaded_offline :: world where
  "ex_loaded_offline = ex_loaded\<lparr>fault := (\<lambda>n. Some ''offline'')\<rparr>"

text \<open>A clock reading: 10:30 local time on 2024-01-05, two hours ahead of UTC.\<close>

definition ex_date :: JsDate where
  "ex_date = \<lparr> toISOString = ''2024-01-05T08:30:12.345Z'',
                getFullYear = 2024, getMonth = 0, getDate = 5, getHours = 10, getMinutes = 30 \<rparr>"

text \<open>
  Two clock readings in the same time zone (two hours ahead of UTC), a day apart: five
  past midnight on 2024-01-05, which is 22:05 UTC of the day before, and five past midnight
  on 2024-01-06.
\<close>

definition ex_midnight :: JsDate where
  "ex_midnight = \<lparr> toISOString = ''2024-01-04T22:05:00.000Z'',
                    getFullYear = 2024, getMonth = 0, getDate = 5, getHours = 0, getMinutes = 5 \<rparr>"

definition ex_next_midnight :: JsDate where
  "ex_next_midnight = \<lparr> toISOString = ''2024-01-05T22:05:00.000Z'',
                         getFullYear = 2024, getMonth = 0, getDate = 6, getHours = 0, getMinutes = 5 \<rparr>"

text \<open>
  A snapshot with one pending invoice, to be picked up on 2024-01-05 at five past
  midnight.
\<close>

definition ex_night :: world where
  "ex_night =
     snd (loadInvoices ex_now
       (ex_world\<lparr>invoices_tbl :=
          [(ex_header ''INV-1'' ''c1'' ''2024-01-02T09:00:00.000Z'')\<lparr>pickup_time := Some ''00:05:00''\<rparr>]\<rparr>))"

text \<open>
  The scenario of the spec: the client Jean is known with no visit yet, and the form
  holds one item, two shirts at 1000 each.
\<close>

definition ex_ready :: world where
  "ex_ready = snd (loadClients ex_now ex_world)"

definition ex_form :: InvoiceFormData where
  "ex_form =
     \<lparr> f_clientName = ''Jean'', f_clientPhone = ''+250788000000'', f_clientAddress = None,
       f_items = [\<lparr> description = ''Shirt wash'', quantity = 2, unitPrice = 1000 \<rparr>],
       f_paymentMethod = ''cash'', f_pickupDate = None, f_pickupTime = None, f_notes = None,
       f_status = Pending \<rparr>"

definition ex_uuid :: "nat \<Rightarrow> string" where
  "ex_uuid k = ''uuid-'' @ toString k"

text \<open>The same form with three pieces at a unit price of 0.1 (the double nearest to it).\<close>

definition ex_form_tenths :: InvoiceFormData where
  "ex_form_tenths =
     ex_form\<lparr>f_items := [\<lparr> description = ''Button'', quantity = 3, unitPrice = toDouble (1 / 10) \<rparr>]\<rparr>"

text \<open>A phone number typed with a no-break space (U+00A0) before it and a space after it.\<close>

definition ex_phone_typed :: string where
  "ex_phone_typed = [CHR 0xC2, CHR 0xA0] @ ''0788 ''"

section \<open>Properties of the number model\<close>

lemma roundHalfEven_of_int: "roundHalfEven (of_int k) = k"
  by (simp add: roundHalfEven_def)

lemma binaryExponent_lower:
  assumes "x \<noteq> 0"
  shows "2 powi (binaryExponent x) \<le> \<bar>x\<bar>"
proof -
  obtain a b where ab: "quotient_of \<bar>x\<bar> = (a, b)" by (cases "quotient_of \<bar>x\<bar>")
  have b: "0 < b" using quotient_of_denom_pos [OF ab] .
  have x: "\<bar>x\<bar> = of_int a / of_int b" using quotient_of_div [OF ab] .
  have "0 < \<bar>x\<bar>" using assms by simp
  hence a: "0 < a" using b x by (simp add: zero_less_divide_iff)
  have la: "1 \<le> bitlen a" and lb: "1 \<le> bitlen b"
    using a b by (simp_all add: bitlen_alt_def)
  have A: "(2::rat) powi (bitlen a - 1) \<le> of_int a"
  proof -
    have "2 ^ nat (bitlen a - 1) \<le> a" using bitlen_bounds [OF a] by simp
    hence "(of_int (2 ^ nat (bitlen a - 1)) :: rat) \<le> of_int a" by (simp only: of_int_le_iff)
    thus ?thesis using la by (simp add: power_int_def)
  qed
  have B: "of_int b \<le> (2::rat) powi (bitlen b)"
  proof -
    have "b < 2 ^ nat (bitlen b)" using bitlen_bounds [OF b] by simp
    hence "(of_int b :: rat) < of_int (2 ^ nat (bitlen b))" by (simp only: of_int_less_iff)
    thus ?thesis using lb by (simp add: power_int_def)
  qed
  have "(2::rat) powi (bitlen a - bitlen b - 1) = 2 powi (bitlen a - 1) / 2 powi (bitlen b)"
    by (simp add: power_int_diff)
  also have "\<dots> \<le> of_int a / 2 powi (bitlen b)"
    using A by (simp add: divide_right_mono)
  also have "\<dots> \<le> of_int a / of_int b"
    using B a b by (simp add: divide_left_mono)
  finally have low: "(2::rat) powi (bitlen a - bitlen b - 1) \<le> \<bar>x\<bar>" using x by simp
  show ?thesis
    using low by (simp add: binaryExponent_def ab Let_def)
qed

text \<open>Every integer of magnitude up to \<open>2^53\<close> is a double: rounding leaves it as it is.\<close>

lemma toDouble_of_int:
  assumes "\<bar>k\<bar> \<le> 2 ^ 53"
  shows "toDouble (of_int k) = of_int k"
proof (cases "k = 0")
  case True
  thus ?thesis by (simp add: toDouble_def)
next
  case False
  define x :: rat where "x = of_int k"
  define e where "e = max (binaryExponent x) (- 1022)"
  have x0: "x \<noteq> 0" using False by (simp add: x_def)
  have "2 powi (binaryExponent x) \<le> \<bar>x\<bar>" using binaryExponent_lower [OF x0] .
  also have "\<bar>x\<bar> \<le> 2 ^ 53"
  proof -
    have "(of_int \<bar>k\<bar> :: rat) \<le> of_int (2 ^ 53)" using assms by (simp only: of_int_le_iff)
    thus ?thesis by (simp add: x_def)
  qed
  also have "(2::rat) ^ 53 = 2 powi 53" by simp
  finally have "(2::rat) powi (binaryExponent x) \<le> 2 powi 53" .
  hence "binaryExponent x \<le> 53" by (rule power_int_le_imp_le_exp [rotated]) simp_all
  hence e: "e - 52 \<le> 1" by (simp add: e_def)
  have "\<exists>n. x / 2 powi (e - 52) = of_int n"
  proof (cases "e - 52 \<le> 0")
    case True
    hence "x / 2 powi (e - 52) = of_int (k * 2 ^ nat (52 - e))"
      by (simp add: x_def power_int_def field_simps)
    thus ?thesis ..
  next
    case False
    hence e53: "e - 52 = 1" using e by simp
    hence "binaryExponent x = 53" by (simp add: e_def max_def split: if_splits)
    hence "(2::rat) powi 53 \<le> \<bar>x\<bar>" using binaryExponent_lower [OF x0] by simp
    hence "(of_int (2 ^ 53) :: rat) \<le> of_int \<bar>k\<bar>" by (simp add: x_def)
    hence "2 ^ 53 \<le> \<bar>k\<bar>" by (simp only: of_int_le_iff)
    hence "k = 2 ^ 53 \<or> k = - (2 ^ 53)" using assms by linarith
    hence "x / 2 powi (e - 52) = of_int (k div 2)"
      using e53 by (auto simp: x_def)
    thus ?thesis ..
  qed
  then obtain n where n: "x / 2 powi (e - 52) = of_int n" ..
  have "toDouble x = of_int n * 2 powi (e - 52)"
    using x0 n by (simp add: toDouble_def e_def Let_def roundHalfEven_of_int)
  also have "\<dots> = x" using n by (simp add: field_simps)
  finally show ?thesis by (simp add: x_def)
qed

lemma toDouble_whole:
  assumes "of_int \<lfloor>x\<rfloor> = x" and "\<bar>x\<bar> \<le> 2 ^ 53"
  shows "toDouble x = x"
proof -
  have "\<bar>(of_int \<lfloor>x\<rfloor> :: rat)\<bar> \<le> 2 ^ 53" unfolding assms(1) by (rule assms(2))
  hence "(of_int \<bar>\<lfloor>x\<rfloor>\<bar> :: rat) \<le> of_int (2 ^ 53)" by simp
  hence "\<bar>\<lfloor>x\<rfloor>\<bar> \<le> 2 ^ 53" by (simp only: of_int_le_iff)
  from toDouble_of_int [OF this] assms(1) show ?thesis by simp
qed

lemma jsAdd_safe:
  assumes "isSafeInteger n"
  shows "jsAdd n 1 = n + 1"
proof -
  from assms have i: "of_int \<lfloor>n\<rfloor> = n" and b: "\<bar>n\<bar> \<le> 2 ^ 53 - 1"
    by (simp_all add: isSafeInteger_def)
  from i have "of_int \<lfloor>n + 1\<rfloor> = n + 1" by simp
  moreover from b have "\<bar>n + 1\<bar> \<le> 2 ^ 53" by linarith
  ultimately show ?thesis unfolding jsAdd_def by (rule toDouble_whole)
qed


text \<open>
  The rounding on known values: 0.1 is not a double, 0.1 + 0.2 and 3 times 0.1 are the
  double next above 0.3, and the integers from \<open>2^53\<close> on are spaced by two.
\<close>

lemma toDouble_examples:
  "toDouble (1 / 10) = 3602879701896397 / 36028797018963968"
  "toDouble (3 / 10) = 5404319552844595 / 18014398509481984"
  "jsAdd (toDouble (1 / 10)) (toDouble (2 / 10)) = 5404319552844596 / 18014398509481984"
  "jsMul 3 (toDouble (1 / 10)) = 5404319552844596 / 18014398509481984"
  "jsAdd 9007199254740992 1 = 9007199254740992"
  "jsAdd 9007199254740992 3 = 9007199254740996"
  "toDouble (- (1 / 3)) = - (6004799503160661 / 18014398509481984)"
  by code_simp+

section \<open>Properties of the aggregate loader\<close>

lemma clientsMap_snoc: "clientsMap (cs @ [r]) = (clientsMap cs)(c_id r \<mapsto> r)"
  by (simp add: clientsMap_def)

lemma clientsMap_Nil: "clientsMap [] = Map.empty"
  by (simp add: clientsMap_def)

lemma clientsMap_lookup:
  "clientsMap cs k =
     (if filter (\<lambda>c. c_id c = k) cs = [] then None else Some (last (filter (\<lambda>c. c_id c = k) cs)))"
  by (induction cs rule: rev_induct) (simp_all add: clientsMap_Nil clientsMap_snoc)

lemma clientsMap_None: "clientsMap cs k = None \<longleftrightarrow> k \<notin> c_id ` set cs"
  by (auto simp: clientsMap_lookup filter_empty_conv image_iff)

lemma clientsMap_Some: "clientsMap cs k = Some c \<Longrightarrow> c \<in> set cs \<and> c_id c = k"
proof -
  assume a: "clientsMap cs k = Some c"
  let ?fs = "filter (\<lambda>c. c_id c = k) cs"
  from a have ne: "?fs \<noteq> []" and c: "c = last ?fs"
    by (auto simp: clientsMap_lookup split: if_splits)
  from ne have "last ?fs \<in> set ?fs" by (rule last_in_set)
  with c show ?thesis by simp
qed

lemma clientsMap_distinct:
  "distinct (map c_id cs) \<Longrightarrow> c \<in> set cs \<Longrightarrow> clientsMap cs (c_id c) = Some c"
proof (induction cs rule: rev_induct)
  case Nil
  then show ?case by simp
next
  case (snoc r cs)
  then show ?case by (force simp: clientsMap_snoc image_iff)
qed

lemma itemsMap_snoc:
  "itemsMap (its @ [r]) =
     (itemsMap its)(invoice_id r \<mapsto> (case itemsMap its (invoice_id r) of None \<Rightarrow> [] | Some rs \<Rightarrow> rs) @ [r])"
  by (simp add: itemsMap_def)

lemma itemsMap_lookup:
  "(case itemsMap its k of None \<Rightarrow> [] | Some rs \<Rightarrow> rs) = filter (\<lambda>r. invoice_id r = k) its"
  by (induction its rule: rev_induct) (simp_all add: itemsMap_def)

lemma joinInvoices_Cons:
  "joinInvoices now (h # hs) cs its =
     (case invoiceOfRow now (clientsMap cs) (itemsMap its) h of
        None \<Rightarrow> joinInvoices now hs cs its
      | Some iv \<Rightarrow> iv # joinInvoices now hs cs its)"
  by (simp add: joinInvoices_def map_filter_simps split: option.split)

lemma joinInvoices_ids:
  "map invoiceId (joinInvoices now hs cs its) = map i_id (filter (\<lambda>h. client_id h \<in> c_id ` set cs) hs)"
proof (induction hs)
  case Nil
  then show ?case by (simp add: joinInvoices_def map_filter_simps)
next
  case (Cons h hs)
  show ?case
  proof (cases "clientsMap cs (client_id h)")
    case None
    then have "client_id h \<notin> c_id ` set cs" by (simp add: clientsMap_None)
    with None Cons show ?thesis by (simp add: joinInvoices_Cons invoiceOfRow_def)
  next
    case (Some c)
    then have "client_id h \<in> c_id ` set cs" using clientsMap_None [of cs "client_id h"] by auto
    with Some Cons show ?thesis by (simp add: joinInvoices_Cons invoiceOfRow_def)
  qed
qed

lemma joinInvoices_member:
  "iv \<in> set (joinInvoices now hs cs its) \<longleftrightarrow>
     (\<exists>h\<in>set hs. invoiceOfRow now (clientsMap cs) (itemsMap its) h = Some iv)"
  by (force simp: joinInvoices_def map_filter_def)


lemma invoiceOfRow_Some:
  "invoiceOfRow now cm im h = Some iv \<Longrightarrow>
     \<exists>c. cm (client_id h) = Some c \<and> invoiceId iv = i_id h \<and> client iv = clientOfRow now c"
  by (auto simp: invoiceOfRow_def Let_def split: option.splits)

lemma invoiceOfRow_found:
  "cm (client_id h) = Some c \<Longrightarrow>
     \<exists>iv. invoiceOfRow now cm im h = Some iv \<and> invoiceId iv = i_id h \<and> client iv = clientOfRow now c"
  by (simp add: invoiceOfRow_def Let_def)

lemma cId_clientOfRow: "cId (clientOfRow now c) = c_id c"
  by (simp add: clientOfRow_def)

lemma joinInvoices_matched:
  assumes "h \<in> set hs" and "client_id h \<in> c_id ` set cs"
  shows "\<exists>iv\<in>set (joinInvoices now hs cs its). invoiceId iv = i_id h \<and>
           client iv = clientOfRow now (last (filter (\<lambda>c. c_id c = client_id h) cs))"
proof -
  let ?c = "last (filter (\<lambda>c. c_id c = client_id h) cs)"
  from assms(2) have "filter (\<lambda>c. c_id c = client_id h) cs \<noteq> []"
    by (auto simp: filter_empty_conv)
  then have "clientsMap cs (client_id h) = Some ?c" by (simp add: clientsMap_lookup)
  from invoiceOfRow_found [of "clientsMap cs" h ?c now "itemsMap its", OF this] obtain iv where
    "invoiceOfRow now (clientsMap cs) (itemsMap its) h = Some iv"
    "invoiceId iv = i_id h" "client iv = clientOfRow now ?c" by blast
  moreover from this(1) assms(1) have "iv \<in> set (joinInvoices now hs cs its)"
    unfolding joinInvoices_member by blast
  ultimately show ?thesis by blast
qed

lemma joinInvoices_matched_row:
  assumes "distinct (map c_id cs)" and "h \<in> set hs" and "c \<in> set cs" and "c_id c = client_id h"
  shows "\<exists>iv\<in>set (joinInvoices now hs cs its). invoiceId iv = i_id h \<and> client iv = clientOfRow now c"
proof -
  from assms have "clientsMap cs (client_id h) = Some c"
    using clientsMap_distinct [of cs c] by simp
  from invoiceOfRow_found [of "clientsMap cs" h c now "itemsMap its", OF this] obtain iv where
    "invoiceOfRow now (clientsMap cs) (itemsMap its) h = Some iv"
    "invoiceId iv = i_id h" "client iv = clientOfRow now c" by blast
  moreover from this(1) assms(2) have "iv \<in> set (joinInvoices now hs cs its)"
    unfolding joinInvoices_member by blast
  ultimately show ?thesis by blast
qed

lemma joinInvoices_client_known:
  "iv \<in> set (joinInvoices now hs cs its) \<Longrightarrow> cId (client iv) \<in> c_id ` set cs"
proof -
  assume "iv \<in> set (joinInvoices now hs cs its)"
  then obtain h where "invoiceOfRow now (clientsMap cs) (itemsMap its) h = Some iv"
    by (auto simp: joinInvoices_member)
  from invoiceOfRow_Some [OF this] obtain c where
    "clientsMap cs (client_id h) = Some c" "client iv = clientOfRow now c" by blast
  then show ?thesis using clientsMap_Some [of cs "client_id h" c] by (force simp: cId_clientOfRow image_iff)
qed

lemma joinInvoices_orphan_absent:
  assumes "distinct (map i_id hs)" and "h \<in> set hs" and "client_id h \<notin> c_id ` set cs"
  shows "i_id h \<notin> invoiceId ` set (joinInvoices now hs cs its)"
proof
  assume "i_id h \<in> invoiceId ` set (joinInvoices now hs cs its)"
  then have "i_id h \<in> set (map invoiceId (joinInvoices now hs cs its))" by simp
  then have "i_id h \<in> i_id ` set (filter (\<lambda>h. client_id h \<in> c_id ` set cs) hs)"
    by (simp add: joinInvoices_ids)
  then obtain h' where h': "h' \<in> set hs" "client_id h' \<in> c_id ` set cs" "i_id h' = i_id h"
    by auto
  from assms(1) h'(1) assms(2) h'(3) have "h' = h"
    by (meson distinct_map inj_onD)
  with h'(2) assms(3) show False by simp
qed

lemma joinInvoices_count:
  "length (joinInvoices now hs cs its) + length (filter (\<lambda>h. client_id h \<notin> c_id ` set cs) hs)
     = length hs"
proof -
  have "length (joinInvoices now hs cs its) = length (map invoiceId (joinInvoices now hs cs its))"
    by simp
  also have "\<dots> = length (filter (\<lambda>h. client_id h \<in> c_id ` set cs) hs)"
    by (simp only: joinInvoices_ids length_map)
  finally show ?thesis
    using sum_length_filter_compl [of "\<lambda>h. client_id h \<in> c_id ` set cs" hs] by simp
qed

lemma joinWarnings_count:
  "length (joinWarnings hs cs) = length (filter (\<lambda>h. client_id h \<notin> c_id ` set cs) hs)"
  by (simp add: joinWarnings_def clientsMap_None)

lemma issue_fst: "fst (issue s w) = fault w (length (calls w))"
  by (simp add: issue_def)

lemma loadInvoices_success:
  assumes "loadInvoices now w = (Inr u, w')"
  shows "invoices (store w') =
           joinInvoices now (order_desc i_created_at (invoices_tbl w)) (clients_tbl w)
             (invoice_items_tbl w)"
    and "console w' = console w @ joinWarnings (order_desc i_created_at (invoices_tbl w)) (clients_tbl w)"
  using assms
  by (auto simp: loadInvoices_def issue_def Let_def console_msg_def joinInvoices_def
        joinWarnings_def map_filter_simps split: option.splits if_splits)

lemma loadInvoices_result:
  assumes "fst (loadInvoices now w) = Inr u"
  shows "invoices (store (snd (loadInvoices now w))) =
           joinInvoices now (order_desc i_created_at (invoices_tbl w)) (clients_tbl w)
             (invoice_items_tbl w)"
    and "console (snd (loadInvoices now w)) =
           console w @ joinWarnings (order_desc i_created_at (invoices_tbl w)) (clients_tbl w)"
  using assms loadInvoices_success [of now w u "snd (loadInvoices now w)"]
  by (simp_all add: prod_eq_iff)

lemma clientOfRow_fieldMappedOr: "fieldMappedOr now r (clientOfRow now r)"
  by (simp add: fieldMappedOr_def clientOfRow_def js_or_str_def js_or_num_def js_or_bool_def
        split: option.split)

lemma fieldMappedOr_exact:
  "fieldMappedOr now r c \<Longrightarrow> c_address r \<noteq> None \<Longrightarrow> hasLastVisit r \<Longrightarrow> fieldMapped r c"
  by (auto simp: fieldMappedOr_def fieldMapped_def hasLastVisit_def split: option.splits)

lemma clientsMap_rowOf: "clientsMap cs k = Some c \<Longrightarrow> c = rowOf cs k"
  by (simp add: clientsMap_lookup rowOf_def split: if_splits)

lemma rowOf_distinct:
  "distinct (map c_id cs) \<Longrightarrow> c \<in> set cs \<Longrightarrow> rowOf cs (c_id c) = c"
  using clientsMap_distinct [of cs c] clientsMap_rowOf [of cs "c_id c" c] by simp

lemma joinInvoices_origin:
  assumes "iv \<in> set (joinInvoices now hs cs its)"
  shows "\<exists>h\<in>set hs. i_id h = invoiceId iv \<and> client_id h = cId (client iv) \<and>
           client iv = clientOfRow now (rowOf cs (client_id h))"
proof -
  from assms obtain h where h: "h \<in> set hs"
    "invoiceOfRow now (clientsMap cs) (itemsMap its) h = Some iv"
    by (auto simp: joinInvoices_member)
  from invoiceOfRow_Some [OF h(2)] obtain c where
    c: "clientsMap cs (client_id h) = Some c" "invoiceId iv = i_id h" "client iv = clientOfRow now c"
    by blast
  from clientsMap_Some [OF c(1)] have "c_id c = client_id h" by simp
  with c clientsMap_rowOf [OF c(1)] h(1) show ?thesis
    by (auto simp: cId_clientOfRow)
qed

text \<open>
  Claim C1, as amended.  When \<^verbatim>\<open>loadInvoices\<close> succeeds, with \<open>hs\<close> the fetched header
  rows and \<open>cs\<close> the fetched client rows: every header whose \<open>client_id\<close> is the id of
  a fetched client row yields an invoice (same id) whose embedded client has, field by
  field, the id, name, phone, visit count, reward flag and the two timestamps of that row
  (the row the lookup holds for the id: the last one fetched, the only one when ids are
  distinct), the row's address or the empty string when it is \<^verbatim>\<open>null\<close>, and the row's
  last visit or, when that is \<^verbatim>\<open>null\<close> or empty, the time of the load; it is the row
  under the plain field mapping when the row has an address and a last visit.  Every
  invoice of the snapshot comes from such a header; the snapshot holds exactly the headers
  with a matching client, in the order fetched; a header without a matching client has no
  invoice in it; the number of invoices dropped is the number of such headers, each of
  them warned about once.
\<close>

theorem loadInvoices_join:
  assumes ok: "fst (loadInvoices now w) = Inr u"
    and hs: "hs = order_desc i_created_at (invoices_tbl w)"
    and cs: "cs = clients_tbl w"
    and res: "result = invoices (store (snd (loadInvoices now w)))"
  shows
    "(\<forall>h\<in>set hs. client_id h \<in> c_id ` set cs \<longrightarrow>
        (\<exists>iv\<in>set result. invoiceId iv = i_id h \<and>
           fieldMappedOr now (rowOf cs (client_id h)) (client iv) \<and>
           (c_address (rowOf cs (client_id h)) \<noteq> None \<and> hasLastVisit (rowOf cs (client_id h)) \<longrightarrow>
              fieldMapped (rowOf cs (client_id h)) (client iv)))) \<and>
     (distinct (map c_id cs) \<longrightarrow>
        (\<forall>h\<in>set hs. \<forall>c\<in>set cs. c_id c = client_id h \<longrightarrow> rowOf cs (client_id h) = c)) \<and>
     (\<forall>iv\<in>set result.
        \<exists>h\<in>set hs. i_id h = invoiceId iv \<and> client_id h = cId (client iv) \<and>
          cId (client iv) \<in> c_id ` set cs \<and>
          fieldMappedOr now (rowOf cs (client_id h)) (client iv)) \<and>
     map invoiceId result = map i_id (filter (\<lambda>h. client_id h \<in> c_id ` set cs) hs) \<and>
     (distinct (map i_id hs) \<longrightarrow>
        (\<forall>h\<in>set hs. client_id h \<notin> c_id ` set cs \<longrightarrow> i_id h \<notin> invoiceId ` set result)) \<and>
     length result + length (filter (\<lambda>h. client_id h \<notin> c_id ` set cs) hs) = length hs \<and>
     console (snd (loadInvoices now w)) = console w @ joinWarnings hs cs \<and>
     length (joinWarnings hs cs) = length (filter (\<lambda>h. client_id h \<notin> c_id ` set cs) hs)"
proof -
  have r: "result = joinInvoices now hs cs (invoice_items_tbl w)"
    using loadInvoices_result(1) [OF ok] hs cs res by simp
  have c1: "\<forall>h\<in>set hs. client_id h \<in> c_id ` set cs \<longrightarrow>
        (\<exists>iv\<in>set result. invoiceId iv = i_id h \<and>
           fieldMappedOr now (rowOf cs (client_id h)) (client iv) \<and>
           (c_address (rowOf cs (client_id h)) \<noteq> None \<and> hasLastVisit (rowOf cs (client_id h)) \<longrightarrow>
              fieldMapped (rowOf cs (client_id h)) (client iv)))"
  proof (intro ballI impI)
    fix h assume h: "h \<in> set hs" "client_id h \<in> c_id ` set cs"
    from joinInvoices_matched [OF h, of now "invoice_items_tbl w"] obtain iv where
      iv: "iv \<in> set result" "invoiceId iv = i_id h"
        "client iv = clientOfRow now (rowOf cs (client_id h))"
      unfolding r rowOf_def by blast
    have m: "fieldMappedOr now (rowOf cs (client_id h)) (client iv)"
      unfolding iv(3) by (rule clientOfRow_fieldMappedOr)
    with iv(1,2) fieldMappedOr_exact [OF m]
    show "\<exists>iv\<in>set result. invoiceId iv = i_id h \<and>
           fieldMappedOr now (rowOf cs (client_id h)) (client iv) \<and>
           (c_address (rowOf cs (client_id h)) \<noteq> None \<and> hasLastVisit (rowOf cs (client_id h)) \<longrightarrow>
              fieldMapped (rowOf cs (client_id h)) (client iv))"
      by blast
  qed
  have c2: "distinct (map c_id cs) \<longrightarrow>
        (\<forall>h\<in>set hs. \<forall>c\<in>set cs. c_id c = client_id h \<longrightarrow> rowOf cs (client_id h) = c)"
    using rowOf_distinct [of cs] by metis
  have c3: "\<forall>iv\<in>set result.
        \<exists>h\<in>set hs. i_id h = invoiceId iv \<and> client_id h = cId (client iv) \<and>
          cId (client iv) \<in> c_id ` set cs \<and>
          fieldMappedOr now (rowOf cs (client_id h)) (client iv)"
  proof
    fix iv assume iv: "iv \<in> set result"
    from joinInvoices_origin [of iv now hs cs "invoice_items_tbl w"] iv obtain h where
      h: "h \<in> set hs" "i_id h = invoiceId iv" "client_id h = cId (client iv)"
        "client iv = clientOfRow now (rowOf cs (client_id h))"
      unfolding r by blast
    have "fieldMappedOr now (rowOf cs (client_id h)) (client iv)"
      unfolding h(4) by (rule clientOfRow_fieldMappedOr)
    moreover have "cId (client iv) \<in> c_id ` set cs"
      using joinInvoices_client_known [of iv now hs cs "invoice_items_tbl w"] iv unfolding r .
    ultimately show "\<exists>h\<in>set hs. i_id h = invoiceId iv \<and> client_id h = cId (client iv) \<and>
          cId (client iv) \<in> c_id ` set cs \<and>
          fieldMappedOr now (rowOf cs (client_id h)) (client iv)"
      using h(1,2,3) by blast
  qed
  have c4: "map invoiceId result = map i_id (filter (\<lambda>h. client_id h \<in> c_id ` set cs) hs)"
    unfolding r by (rule joinInvoices_ids)
  have c5: "distinct (map i_id hs) \<longrightarrow>
        (\<forall>h\<in>set hs. client_id h \<notin> c_id ` set cs \<longrightarrow> i_id h \<notin> invoiceId ` set result)"
    unfolding r using joinInvoices_orphan_absent by blast
  have c6: "length result + length (filter (\<lambda>h. client_id h \<notin> c_id ` set cs) hs) = length hs"
    unfolding r by (rule joinInvoices_count)
  have c7: "console (snd (loadInvoices now w)) = console w @ joinWarnings hs cs"
    using loadInvoices_result(2) [OF ok] hs cs by simp
  have c8: "length (joinWarnings hs cs) = length (filter (\<lambda>h. client_id h \<notin> c_id ` set cs) hs)"
    by (rule joinWarnings_count)
  from c1 c2 c3 c4 c5 c6 c7 c8 show ?thesis by blast
qed

lemma ex_complete_load: "fst (loadInvoices ex_now ex_complete) = Inr ()"
  by code_simp

lemma ex_complete_fetched:
  "order_desc i_created_at (invoices_tbl ex_complete) =
     [ex_header ''INV-2'' ''gone'' ''2024-01-03T09:00:00.000Z'',
      ex_header ''INV-1'' ''c1'' ''2024-01-02T09:00:00.000Z'']"
  by (simp add: ex_complete_def ex_world_def order_desc_def ex_header_def)

theorem loadInvoices_join_witness:
  "fst (loadInvoices ex_now ex_complete) = Inr () \<and>
   distinct (map c_id (clients_tbl ex_complete)) \<and>
   distinct (map i_id (order_desc i_created_at (invoices_tbl ex_complete))) \<and>
   (\<exists>iv\<in>set (invoices (store (snd (loadInvoices ex_now ex_complete)))).
      invoiceId iv = ''INV-1'' \<and>
      cId (client iv) = ''c1'' \<and> cName (client iv) = ''Jean'' \<and>
      cPhone (client iv) = ''+250788000000'' \<and> cAddress (client iv) = ''KN 5 Rd'' \<and>
      visitCount (client iv) = 0 \<and> rewardClaimed (client iv) = False \<and>
      lastVisit (client iv) = ''2024-01-01T08:00:00.000Z'' \<and>
      cCreatedAt (client iv) = ''2024-01-01T08:00:00.000Z'' \<and>
      cUpdatedAt (client iv) = ''2024-01-01T08:00:00.000Z'') \<and>
   map invoiceId (invoices (store (snd (loadInvoices ex_now ex_complete)))) = [''INV-1''] \<and>
   ''INV-2'' \<notin> invoiceId ` set (invoices (store (snd (loadInvoices ex_now ex_complete)))) \<and>
   length (invoices (store (snd (loadInvoices ex_now ex_complete)))) + 1 = 2 \<and>
   console (snd (loadInvoices ex_now ex_complete)) = [''Client not found for invoice INV-2'']"
proof -
  let ?c = "ex_client\<lparr>c_address := Some ''KN 5 Rd'', last_visit := Some ''2024-01-01T08:00:00.000Z''\<rparr>"
  let ?hs = "[ex_header ''INV-2'' ''gone'' ''2024-01-03T09:00:00.000Z'',
              ex_header ''INV-1'' ''c1'' ''2024-01-02T09:00:00.000Z'']"
  let ?res = "invoices (store (snd (loadInvoices ex_now ex_complete)))"
  have cs: "[?c] = clients_tbl ex_complete" by (simp add: ex_complete_def)
  note T = loadInvoices_join [OF ex_complete_load ex_complete_fetched [symmetric] cs refl]
  have d1: "distinct (map c_id (clients_tbl ex_complete))" by (simp add: ex_complete_def)
  have d2: "distinct (map i_id (order_desc i_created_at (invoices_tbl ex_complete)))"
    by (simp add: ex_complete_fetched ex_header_def)
  have row: "rowOf [?c] ''c1'' = ?c" by (simp add: rowOf_def ex_client_def)
  let ?h = "ex_header ''INV-1'' ''c1'' ''2024-01-02T09:00:00.000Z''"
  have h: "?h \<in> set ?hs" "client_id ?h \<in> c_id ` set [?c]" "client_id ?h = ''c1''"
    "i_id ?h = ''INV-1''"
    by (simp_all add: ex_header_def ex_client_def)
  have full: "c_address ?c \<noteq> None \<and> hasLastVisit ?c" by (simp add: hasLastVisit_def)
  from T have "\<forall>h\<in>set ?hs. client_id h \<in> c_id ` set [?c] \<longrightarrow>
        (\<exists>iv\<in>set ?res. invoiceId iv = i_id h \<and>
           fieldMappedOr ex_now (rowOf [?c] (client_id h)) (client iv) \<and>
           (c_address (rowOf [?c] (client_id h)) \<noteq> None \<and> hasLastVisit (rowOf [?c] (client_id h)) \<longrightarrow>
              fieldMapped (rowOf [?c] (client_id h)) (client iv)))"
    by (rule conjunct1)
  from this [rule_format, OF h(1) h(2)] full
  have "\<exists>iv\<in>set ?res. invoiceId iv = ''INV-1'' \<and> fieldMapped ?c (client iv)"
    unfolding h(3) h(4) row by blast
  then have a: "\<exists>iv\<in>set ?res. invoiceId iv = ''INV-1'' \<and>
      cId (client iv) = ''c1'' \<and> cName (client iv) = ''Jean'' \<and>
      cPhone (client iv) = ''+250788000000'' \<and> cAddress (client iv) = ''KN 5 Rd'' \<and>
      visitCount (client iv) = 0 \<and> rewardClaimed (client iv) = False \<and>
      lastVisit (client iv) = ''2024-01-01T08:00:00.000Z'' \<and>
      cCreatedAt (client iv) = ''2024-01-01T08:00:00.000Z'' \<and>
      cUpdatedAt (client iv) = ''2024-01-01T08:00:00.000Z''"
    by (simp add: fieldMapped_def ex_client_def)
  have b: "map invoiceId ?res = [''INV-1'']"
    using T by (simp add: ex_header_def ex_client_def)
  have c: "''INV-2'' \<notin> invoiceId ` set ?res"
    using T by (simp add: ex_header_def ex_client_def)
  have d: "length ?res + 1 = 2"
    using T by (simp add: ex_header_def ex_client_def)
  have e: "console (snd (loadInvoices ex_now ex_complete)) = [''Client not found for invoice INV-2'']"
    using T by (simp add: ex_header_def ex_client_def ex_complete_def ex_world_def joinWarnings_def clientsMap_def)
  from ex_complete_load d1 d2 a b c d e show ?thesis by blast
qed

text \<open>
  The claim C1 as stated fails for a client row without a last visit: the invoice loaded
  for its header embeds a client whose last visit is the time of the load, which is not
  the row under the field mapping.
\<close>

theorem loadInvoices_join_counterexample:
  "fst (loadInvoices ex_now ex_world) = Inr () \<and>
   clients_tbl ex_world = [ex_client] \<and>
   last_visit ex_client = None \<and>
   map client_id (filter (\<lambda>h. i_id h = ''INV-1'') (invoices_tbl ex_world)) = [c_id ex_client] \<and>
   map invoiceId (invoices (store (snd (loadInvoices ex_now ex_world)))) = [''INV-1''] \<and>
   map (\<lambda>iv. lastVisit (client iv)) (invoices (store (snd (loadInvoices ex_now ex_world))))
     = [ex_now] \<and>
   map (\<lambda>iv. fieldMapped ex_client (client iv))
     (invoices (store (snd (loadInvoices ex_now ex_world)))) = [False]"
  by code_simp

section \<open>Frame properties of the loaders\<close>

lemma set_order_desc: "set (order_desc key rows) = set rows"
  by (simp add: order_desc_def)

lemma length_order_desc: "length (order_desc key rows) = length rows"
  by (simp add: order_desc_def)

lemma order_desc_eq_Nil: "order_desc key rows = [] \<longleftrightarrow> rows = []"
  using length_order_desc [of key rows] by (metis length_0_conv)

lemma js_or_str_same: "js_or_str (Some t) t = t"
  by (simp add: js_or_str_def)

lemma js_or_num_0: "js_or_num n 0 = n"
  by (simp add: js_or_num_def)

lemma js_or_str_Cons: "js_or_str (Some (c # s)) d = c # s"
  by (simp add: js_or_str_def)

text \<open>What \<open>loadInvoices\<close> leaves alone, whatever its outcome.\<close>

lemma loadInvoices_frame:
  "clients_tbl (snd (loadInvoices now w)) = clients_tbl w"
  "invoices_tbl (snd (loadInvoices now w)) = invoices_tbl w"
  "invoice_items_tbl (snd (loadInvoices now w)) = invoice_items_tbl w"
  "audit_logs_tbl (snd (loadInvoices now w)) = audit_logs_tbl w"
  "users_tbl (snd (loadInvoices now w)) = users_tbl w"
  "fault (snd (loadInvoices now w)) = fault w"
  "genId (snd (loadInvoices now w)) = genId w"
  "localStorage (snd (loadInvoices now w)) = localStorage w"
  "toasts (snd (loadInvoices now w)) = toasts w"
  "clients (store (snd (loadInvoices now w))) = clients (store w)"
  "currentUserPhone (store (snd (loadInvoices now w))) = currentUserPhone (store w)"
  "currentUserName (store (snd (loadInvoices now w))) = currentUserName (store w)"
  "loading (store (snd (loadInvoices now w))) = loading (store w)"
  "error (store (snd (loadInvoices now w))) = error (store w)"
  by (simp_all add: loadInvoices_def issue_def Let_def console_msg_def split: option.split)

lemma loadInvoices_calls:
  "calls (snd (loadInvoices now w)) =
     calls w @ SelectInvoices #
       (if fault w (length (calls w)) \<noteq> None \<or> invoices_tbl w = [] then []
        else if fault w (length (calls w) + 1) \<noteq> None then [SelectClients]
        else [SelectClients, SelectInvoiceItems])"
  by (simp add: loadInvoices_def issue_def Let_def console_msg_def order_desc_eq_Nil
        split: option.split)

lemma loadInvoices_ok_iff:
  "(fst (loadInvoices now w) = Inr u) \<longleftrightarrow>
     fault w (length (calls w)) = None \<and>
     (invoices_tbl w \<noteq> [] \<longrightarrow>
        fault w (length (calls w) + 1) = None \<and> fault w (length (calls w) + 2) = None)"
  by (simp add: loadInvoices_def issue_def Let_def console_msg_def order_desc_eq_Nil
        split: option.split)

lemma loadInvoices_error:
  "fst (loadInvoices now w) = Inl e \<Longrightarrow>
     e \<in> {''Failed to load invoices: '' @ m | m. True} \<union> {''Failed to load clients: '' @ m | m. True}
       \<union> {''Failed to load invoice items: '' @ m | m. True}"
  by (auto simp: loadInvoices_def issue_def Let_def console_msg_def split: option.splits if_splits)

lemma loadClients_frame:
  "clients_tbl (snd (loadClients now w)) = clients_tbl w"
  "invoices_tbl (snd (loadClients now w)) = invoices_tbl w"
  "invoice_items_tbl (snd (loadClients now w)) = invoice_items_tbl w"
  "audit_logs_tbl (snd (loadClients now w)) = audit_logs_tbl w"
  "users_tbl (snd (loadClients now w)) = users_tbl w"
  "fault (snd (loadClients now w)) = fault w"
  "genId (snd (loadClients now w)) = genId w"
  "localStorage (snd (loadClients now w)) = localStorage w"
  "toasts (snd (loadClients now w)) = toasts w"
  "invoices (store (snd (loadClients now w))) = invoices (store w)"
  "currentUserPhone (store (snd (loadClients now w))) = currentUserPhone (store w)"
  "currentUserName (store (snd (loadClients now w))) = currentUserName (store w)"
  "loading (store (snd (loadClients now w))) = loading (store w)"
  "error (store (snd (loadClients now w))) = error (store w)"
  "calls (snd (loadClients now w)) = calls w @ [SelectClientsOrdered]"
  by (simp_all add: loadClients_def issue_def Let_def console_msg_def split: option.split)

lemma loadClients_ok_iff:
  "(fst (loadClients now w) = Inr u) \<longleftrightarrow> fault w (length (calls w)) = None"
  by (simp add: loadClients_def issue_def Let_def console_msg_def split: option.split)

lemma loadClients_result:
  "fst (loadClients now w) = Inr u \<Longrightarrow>
     clients (store (snd (loadClients now w))) =
       map (clientOfRow now) (order_desc c_created_at (clients_tbl w))"
  by (simp add: loadClients_def issue_def Let_def console_msg_def split: option.splits)

lemma loadClients_failed:
  "fst (loadClients now w) = Inl e \<Longrightarrow>
     clients (store (snd (loadClients now w))) = clients (store w) \<and>
     (\<exists>m. e = ''Failed to load clients: '' @ m)"
  by (auto simp: loadClients_def issue_def Let_def console_msg_def split: option.splits)

section \<open>The statements, field by field\<close>

text \<open>Each statement, field by field: its error is the fault of its number, it is appended to
  the calls, and only a successful one changes its table.\<close>

lemma insert_invoice_fields:
  "fst (insert_invoice now p w) = fault w (length (calls w))"
  "calls (snd (insert_invoice now p w)) = calls w @ [InsertInvoice p]"
  "store (snd (insert_invoice now p w)) = store w"
  "clients_tbl (snd (insert_invoice now p w)) = clients_tbl w"
  "invoices_tbl (snd (insert_invoice now p w)) =
     (if fault w (length (calls w)) = None then invoices_tbl w @ [invoiceRow now p]
      else invoices_tbl w)"
  "invoice_items_tbl (snd (insert_invoice now p w)) = invoice_items_tbl w"
  "audit_logs_tbl (snd (insert_invoice now p w)) = audit_logs_tbl w"
  "users_tbl (snd (insert_invoice now p w)) = users_tbl w"
  "fault (snd (insert_invoice now p w)) = fault w"
  "genId (snd (insert_invoice now p w)) = genId w"
  "localStorage (snd (insert_invoice now p w)) = localStorage w"
  "toasts (snd (insert_invoice now p w)) = toasts w"
  "console (snd (insert_invoice now p w)) = console w"
  by (simp_all add: insert_invoice_def issue_def split_def Let_def)

lemma insert_invoice_items_fields:
  "fst (insert_invoice_items now ps w) = fault w (length (calls w))"
  "calls (snd (insert_invoice_items now ps w)) = calls w @ [InsertInvoiceItems ps]"
  "store (snd (insert_invoice_items now ps w)) = store w"
  "clients_tbl (snd (insert_invoice_items now ps w)) = clients_tbl w"
  "invoices_tbl (snd (insert_invoice_items now ps w)) = invoices_tbl w"
  "invoice_items_tbl (snd (insert_invoice_items now ps w)) =
     (if fault w (length (calls w)) = None then invoice_items_tbl w @ map (\<lambda>(k, p). itemRow now (genId w (length (invoice_items_tbl w) + k)) p) (List.enumerate 0 ps)
      else invoice_items_tbl w)"
  "audit_logs_tbl (snd (insert_invoice_items now ps w)) = audit_logs_tbl w"
  "users_tbl (snd (insert_invoice_items now ps w)) = users_tbl w"
  "fault (snd (insert_invoice_items now ps w)) = fault w"
  "genId (snd (insert_invoice_items now ps w)) = genId w"
  "localStorage (snd (insert_invoice_items now ps w)) = localStorage w"
  "toasts (snd (insert_invoice_items now ps w)) = toasts w"
  "console (snd (insert_invoice_items now ps w)) = console w"
  by (simp_all add: insert_invoice_items_def issue_def split_def Let_def)

lemma insert_audit_log_fields:
  "fst (insert_audit_log p w) = fault w (length (calls w))"
  "calls (snd (insert_audit_log p w)) = calls w @ [InsertAuditLog p]"
  "store (snd (insert_audit_log p w)) = store w"
  "clients_tbl (snd (insert_audit_log p w)) = clients_tbl w"
  "invoices_tbl (snd (insert_audit_log p w)) = invoices_tbl w"
  "invoice_items_tbl (snd (insert_audit_log p w)) = invoice_items_tbl w"
  "audit_logs_tbl (snd (insert_audit_log p w)) =
     (if fault w (length (calls w)) = None then audit_logs_tbl w @ [p]
      else audit_logs_tbl w)"
  "users_tbl (snd (insert_audit_log p w)) = users_tbl w"
  "fault (snd (insert_audit_log p w)) = fault w"
  "genId (snd (insert_audit_log p w)) = genId w"
  "localStorage (snd (insert_audit_log p w)) = localStorage w"
  "toasts (snd (insert_audit_log p w)) = toasts w"
  "console (snd (insert_audit_log p w)) = console w"
  by (simp_all add: insert_audit_log_def issue_def split_def Let_def)

lemma update_client_visit_fields:
  "fst (update_client_visit cid n t w) = fault w (length (calls w))"
  "calls (snd (update_client_visit cid n t w)) = calls w @ [UpdateClientVisit cid n t]"
  "store (snd (update_client_visit cid n t w)) = store w"
  "clients_tbl (snd (update_client_visit cid n t w)) =
     (if fault w (length (calls w)) = None then map (\<lambda>r. if c_id r = cid then r\<lparr>visit_count := n, last_visit := Some t\<rparr> else r) (clients_tbl w)
      else clients_tbl w)"
  "invoices_tbl (snd (update_client_visit cid n t w)) = invoices_tbl w"
  "invoice_items_tbl (snd (update_client_visit cid n t w)) = invoice_items_tbl w"
  "audit_logs_tbl (snd (update_client_visit cid n t w)) = audit_logs_tbl w"
  "users_tbl (snd (update_client_visit cid n t w)) = users_tbl w"
  "fault (snd (update_client_visit cid n t w)) = fault w"
  "genId (snd (update_client_visit cid n t w)) = genId w"
  "localStorage (snd (update_client_visit cid n t w)) = localStorage w"
  "toasts (snd (update_client_visit cid n t w)) = toasts w"
  "console (snd (update_client_visit cid n t w)) = console w"
  by (simp_all add: update_client_visit_def issue_def split_def Let_def)

lemma update_invoice_status_fields:
  "fst (update_invoice_status iid s t w) = fault w (length (calls w))"
  "calls (snd (update_invoice_status iid s t w)) = calls w @ [UpdateInvoiceStatus iid s t]"
  "store (snd (update_invoice_status iid s t w)) = store w"
  "clients_tbl (snd (update_invoice_status iid s t w)) = clients_tbl w"
  "invoices_tbl (snd (update_invoice_status iid s t w)) =
     (if fault w (length (calls w)) = None then map (\<lambda>r. if i_id r = iid then r\<lparr>i_status := s, i_updated_at := t\<rparr> else r) (invoices_tbl w)
      else invoices_tbl w)"
  "invoice_items_tbl (snd (update_invoice_status iid s t w)) = invoice_items_tbl w"
  "audit_logs_tbl (snd (update_invoice_status iid s t w)) = audit_logs_tbl w"
  "users_tbl (snd (update_invoice_status iid s t w)) = users_tbl w"
  "fault (snd (update_invoice_status iid s t w)) = fault w"
  "genId (snd (update_invoice_status iid s t w)) = genId w"
  "localStorage (snd (update_invoice_status iid s t w)) = localStorage w"
  "toasts (snd (update_invoice_status iid s t w)) = toasts w"
  "console (snd (update_invoice_status iid s t w)) = console w"
  by (simp_all add: update_invoice_status_def issue_def split_def Let_def)

lemma delete_invoice_fields:
  "fst (delete_invoice iid w) = fault w (length (calls w))"
  "calls (snd (delete_invoice iid w)) = calls w @ [DeleteInvoice iid]"
  "store (snd (delete_invoice iid w)) = store w"
  "clients_tbl (snd (delete_invoice iid w)) = clients_tbl w"
  "invoices_tbl (snd (delete_invoice iid w)) =
     (if fault w (length (calls w)) = None then filter (\<lambda>r. i_id r \<noteq> iid) (invoices_tbl w)
      else invoices_tbl w)"
  "invoice_items_tbl (snd (delete_invoice iid w)) =
     (if fault w (length (calls w)) = None then filter (\<lambda>r. invoice_id r \<noteq> iid) (invoice_items_tbl w)
      else invoice_items_tbl w)"
  "audit_logs_tbl (snd (delete_invoice iid w)) = audit_logs_tbl w"
  "users_tbl (snd (delete_invoice iid w)) = users_tbl w"
  "fault (snd (delete_invoice iid w)) = fault w"
  "genId (snd (delete_invoice iid w)) = genId w"
  "localStorage (snd (delete_invoice iid w)) = localStorage w"
  "toasts (snd (delete_invoice iid w)) = toasts w"
  "console (snd (delete_invoice iid w)) = console w"
  by (simp_all add: delete_invoice_def issue_def split_def Let_def)

lemma effect_fields:
  "calls (console_msg m w) = calls w" "fault (console_msg m w) = fault w"
  "store (console_msg m w) = store w" "clients_tbl (console_msg m w) = clients_tbl w"
  "invoices_tbl (console_msg m w) = invoices_tbl w"
  "invoice_items_tbl (console_msg m w) = invoice_items_tbl w"
  "audit_logs_tbl (console_msg m w) = audit_logs_tbl w" "users_tbl (console_msg m w) = users_tbl w"
  "genId (console_msg m w) = genId w" "localStorage (console_msg m w) = localStorage w"
  "toasts (console_msg m w) = toasts w" "console (console_msg m w) = console w @ [m]"
  "calls (show_toast t w) = calls w" "fault (show_toast t w) = fault w"
  "store (show_toast t w) = store w" "clients_tbl (show_toast t w) = clients_tbl w"
  "invoices_tbl (show_toast t w) = invoices_tbl w"
  "invoice_items_tbl (show_toast t w) = invoice_items_tbl w"
  "audit_logs_tbl (show_toast t w) = audit_logs_tbl w" "users_tbl (show_toast t w) = users_tbl w"
  "genId (show_toast t w) = genId w" "localStorage (show_toast t w) = localStorage w"
  "toasts (show_toast t w) = toasts w @ [t]" "console (show_toast t w) = console w"
  by (simp_all add: console_msg_def show_toast_def)

lemma invoiceInsert_store:
  "currentUserName (store w') = currentUserName (store w) \<Longrightarrow>
   currentUserPhone (store w') = currentUserPhone (store w) \<Longrightarrow>
   invoiceInsert d w' = invoiceInsert d w"
  by (simp add: invoiceInsert_def)

section \<open>Properties of \<^verbatim>\<open>addInvoice\<close>\<close>

lemmas prim_fields =
  insert_invoice_fields insert_invoice_items_fields insert_audit_log_fields
  update_client_visit_fields update_invoice_status_fields delete_invoice_fields effect_fields

lemma addInvoice_try_written:
  assumes valid: "invoiceId d \<noteq> []" "cId (client d) \<noteq> []" "items d \<noteq> []"
    and f0: "fault w (length (calls w)) = None"
    and f1: "fault w (length (calls w) + 1) = None"
  shows "addInvoice_try now d w = addInvoice_reload now d (written now d w)"
  using assms
  by (simp add: addInvoice_try_def Let_def split_def prim_fields written_def split: option.split)

lemma invoiceInsert_loading [simp]:
  "invoiceInsert d (w\<lparr>store := (store w)\<lparr>loading := b, error := e\<rparr>\<rparr>) = invoiceInsert d w"
  by (simp add: invoiceInsert_def)

lemma written_fields:
  assumes f0: "fault w (length (calls w)) = None"
    and f1: "fault w (length (calls w) + 1) = None"
  shows "calls (written now d w) =
           calls w @ [InsertInvoice (invoiceInsert d w), InsertInvoiceItems (itemsToInsert d),
                      UpdateClientVisit (cId (client d)) (jsAdd (visitCount (client d)) 1) now]"
    and "invoices_tbl (written now d w) = invoices_tbl w @ [invoiceRow now (invoiceInsert d w)]"
    and "invoice_items_tbl (written now d w) =
           invoice_items_tbl w @
             map (\<lambda>(k, p). itemRow now (genId w (length (invoice_items_tbl w) + k)) p)
               (List.enumerate 0 (itemsToInsert d))"
    and "clients_tbl (written now d w) =
           (if fault w (length (calls w) + 2) = None
            then map (\<lambda>r. if c_id r = cId (client d)
                           then r\<lparr>visit_count := jsAdd (visitCount (client d)) 1, last_visit := Some now\<rparr>
                           else r) (clients_tbl w)
            else clients_tbl w)"
    and "console (written now d w) =
           (if fault w (length (calls w) + 2) = None then console w
            else console w @ [''Failed to update client visit count:''])"
    and "fault (written now d w) = fault w"
    and "genId (written now d w) = genId w"
    and "audit_logs_tbl (written now d w) = audit_logs_tbl w"
    and "users_tbl (written now d w) = users_tbl w"
    and "toasts (written now d w) = toasts w"
    and "localStorage (written now d w) = localStorage w"
    and "store (written now d w) = (store w)\<lparr>loading := True, error := None\<rparr>"
  using assms
  by (simp_all add: written_def Let_def split_def prim_fields split: option.split)

lemma addInvoice_reload_ok_iff:
  "(fst (addInvoice_reload now d w) = Inr u) \<longleftrightarrow>
     fst (loadInvoices now w) = Inr () \<and> fst (loadClients now (snd (loadInvoices now w))) = Inr ()"
  by (simp add: addInvoice_reload_def Let_def split_def split: sum.split)

lemma addInvoice_reload_tables:
  "clients_tbl (snd (addInvoice_reload now d w)) = clients_tbl w"
  "invoices_tbl (snd (addInvoice_reload now d w)) = invoices_tbl w"
  "invoice_items_tbl (snd (addInvoice_reload now d w)) = invoice_items_tbl w"
  "users_tbl (snd (addInvoice_reload now d w)) = users_tbl w"
  "fault (snd (addInvoice_reload now d w)) = fault w"
  "localStorage (snd (addInvoice_reload now d w)) = localStorage w"
  "currentUserPhone (store (snd (addInvoice_reload now d w))) = currentUserPhone (store w)"
  "currentUserName (store (snd (addInvoice_reload now d w))) = currentUserName (store w)"
  "error (store (snd (addInvoice_reload now d w))) = error (store w)"
  by (simp_all add: addInvoice_reload_def Let_def split_def prim_fields loadInvoices_frame
        loadClients_frame split: sum.split)

lemma addInvoice_reload_calls:
  "calls (snd (addInvoice_reload now d w)) =
     calls (snd (loadInvoices now w)) @
       (if fst (loadInvoices now w) = Inr ()
        then SelectClientsOrdered #
          (if fst (loadClients now (snd (loadInvoices now w))) = Inr ()
           then [InsertAuditLog
                  \<lparr> action = ''create'', entity_type = ''invoice'', entity_id = invoiceId d,
                    actor_phone = currentUserPhone (store w),
                    actor_name = currentUserName (store w),
                    changes = [(''total'', JNum (total d)),
                               (''status'', JStr (statusText (status d)))] \<rparr>]
           else [])
        else [])"
  by (simp add: addInvoice_reload_def Let_def split_def prim_fields loadInvoices_frame
        loadClients_frame split: sum.split)

lemma addInvoice_reload_console:
  "set (console w) \<subseteq> set (console (snd (addInvoice_reload now d w)))"
  by (auto simp: addInvoice_reload_def Let_def split_def prim_fields loadInvoices_def
        loadClients_def issue_def console_msg_def split: sum.split option.split)

lemma addInvoice_reload_success:
  assumes "fst (addInvoice_reload now d w) = Inr u"
  shows "clients (store (snd (addInvoice_reload now d w))) =
           map (clientOfRow now) (order_desc c_created_at (clients_tbl w))"
    and "invoices (store (snd (addInvoice_reload now d w))) =
           joinInvoices now (order_desc i_created_at (invoices_tbl w)) (clients_tbl w)
             (invoice_items_tbl w)"
    and "loading (store (snd (addInvoice_reload now d w))) = False"
    and "toasts (snd (addInvoice_reload now d w)) =
           toasts w @ [Toast ''Invoice created successfully!''
                         (Some (''Invoice '' @ invoiceId d @ '' has been created.'')) False]"
proof -
  from assms have li: "fst (loadInvoices now w) = Inr ()"
    and lc: "fst (loadClients now (snd (loadInvoices now w))) = Inr ()"
    by (simp_all add: addInvoice_reload_ok_iff)
  show "clients (store (snd (addInvoice_reload now d w))) =
           map (clientOfRow now) (order_desc c_created_at (clients_tbl w))"
    using li lc loadClients_result [OF lc]
    by (simp add: addInvoice_reload_def Let_def split_def prim_fields loadInvoices_frame)
  show "invoices (store (snd (addInvoice_reload now d w))) =
           joinInvoices now (order_desc i_created_at (invoices_tbl w)) (clients_tbl w)
             (invoice_items_tbl w)"
    using li lc loadInvoices_result(1) [OF li]
    by (simp add: addInvoice_reload_def Let_def split_def prim_fields loadClients_frame)
  show "loading (store (snd (addInvoice_reload now d w))) = False"
    using li lc by (simp add: addInvoice_reload_def Let_def split_def prim_fields)
  show "toasts (snd (addInvoice_reload now d w)) =
           toasts w @ [Toast ''Invoice created successfully!''
                         (Some (''Invoice '' @ invoiceId d @ '' has been created.'')) False]"
    using li lc
    by (simp add: addInvoice_reload_def Let_def split_def prim_fields loadClients_frame
          loadInvoices_frame)
qed

text \<open>The \<open>catch\<close> wrapper keeps the outcome, the calls and the tables of the \<open>try\<close> block.\<close>

lemma addInvoice_catch:
  "fst (addInvoice now d w) = fst (addInvoice_try now d w)"
  "calls (snd (addInvoice now d w)) = calls (snd (addInvoice_try now d w))"
  "clients_tbl (snd (addInvoice now d w)) = clients_tbl (snd (addInvoice_try now d w))"
  "invoices_tbl (snd (addInvoice now d w)) = invoices_tbl (snd (addInvoice_try now d w))"
  "invoice_items_tbl (snd (addInvoice now d w)) = invoice_items_tbl (snd (addInvoice_try now d w))"
  "audit_logs_tbl (snd (addInvoice now d w)) = audit_logs_tbl (snd (addInvoice_try now d w))"
  "users_tbl (snd (addInvoice now d w)) = users_tbl (snd (addInvoice_try now d w))"
  "localStorage (snd (addInvoice now d w)) = localStorage (snd (addInvoice_try now d w))"
  "invoices (store (snd (addInvoice now d w))) = invoices (store (snd (addInvoice_try now d w)))"
  "clients (store (snd (addInvoice now d w))) = clients (store (snd (addInvoice_try now d w)))"
  "set (console (snd (addInvoice_try now d w))) \<subseteq> set (console (snd (addInvoice now d w)))"
  by (auto simp: addInvoice_def Let_def effect_fields show_toast_def console_msg_def
        split: prod.split sum.split)

lemma addInvoice_catch_error:
  "fst (addInvoice_try now d w) = Inl m \<Longrightarrow>
     error (store (snd (addInvoice now d w))) = Some (js_or_str (Some m) ''Failed to add invoice'') \<and>
     loading (store (snd (addInvoice now d w))) = False \<and>
     toasts (snd (addInvoice now d w)) =
       toasts (snd (addInvoice_try now d w)) @
         [Toast ''Error adding invoice'' (Some (js_or_str (Some m) ''Failed to add invoice'')) True]"
  by (auto simp: addInvoice_def Let_def show_toast_def console_msg_def split: prod.split sum.split)

lemma addInvoice_catch_success:
  "fst (addInvoice_try now d w) = Inr u \<Longrightarrow> snd (addInvoice now d w) = snd (addInvoice_try now d w)"
  by (auto simp: addInvoice_def split: prod.split sum.split)

lemma addInvoice_try_invalid:
  assumes "invoiceId d = [] \<or> cId (client d) = [] \<or> items d = []"
  shows "addInvoice_try now d w =
           (Inl (validationMessage d), w\<lparr>store := (store w)\<lparr>loading := True, error := None\<rparr>\<rparr>)"
  using assms by (auto simp: addInvoice_try_def Let_def validationMessage_def)

lemma validationMessage_nonempty: "js_or_str (Some (validationMessage d)) x = validationMessage d"
  by (simp add: validationMessage_def js_or_str_def)

text \<open>
  Claim C6.  When the argument of \<^verbatim>\<open>addInvoice\<close> has an empty invoice id, an empty
  client id or an empty item list, the call throws the validation error of the first
  failing check; no statement is sent to the backend and no table changes; the invoice
  and client snapshots, the session fields and the local storage are as before; only the
  error flag (set to the message) and the loading flag (cleared) differ.
\<close>

theorem addInvoice_validation:
  assumes "invoiceId d = [] \<or> cId (client d) = [] \<or> items d = []"
  shows "fst (addInvoice now d w) = Inl (validationMessage d) \<and>
         calls (snd (addInvoice now d w)) = calls w \<and>
         clients_tbl (snd (addInvoice now d w)) = clients_tbl w \<and>
         invoices_tbl (snd (addInvoice now d w)) = invoices_tbl w \<and>
         invoice_items_tbl (snd (addInvoice now d w)) = invoice_items_tbl w \<and>
         audit_logs_tbl (snd (addInvoice now d w)) = audit_logs_tbl w \<and>
         users_tbl (snd (addInvoice now d w)) = users_tbl w \<and>
         invoices (store (snd (addInvoice now d w))) = invoices (store w) \<and>
         clients (store (snd (addInvoice now d w))) = clients (store w) \<and>
         currentUserPhone (store (snd (addInvoice now d w))) = currentUserPhone (store w) \<and>
         currentUserName (store (snd (addInvoice now d w))) = currentUserName (store w) \<and>
         localStorage (snd (addInvoice now d w)) = localStorage w \<and>
         error (store (snd (addInvoice now d w))) = Some (validationMessage d) \<and>
         loading (store (snd (addInvoice now d w))) = False"
  by (simp add: addInvoice_def addInvoice_try_invalid [OF assms] Let_def validationMessage_nonempty
        show_toast_def console_msg_def)

lemma i_id_invoiceRow: "i_id (invoiceRow now (invoiceInsert d w)) = invoiceId d"
  by (simp add: invoiceRow_def invoiceInsert_def)

lemma addInvoice_try_items_failed:
  assumes valid: "invoiceId d \<noteq> []" "cId (client d) \<noteq> []" "items d \<noteq> []"
    and f0: "fault w (length (calls w)) = None"
    and f1: "fault w (length (calls w) + 1) = Some m"
  shows "fst (addInvoice_try now d w) = Inl (''Failed to create invoice items: '' @ m)"
    and "calls (snd (addInvoice_try now d w)) =
           calls w @ [InsertInvoice (invoiceInsert d w), InsertInvoiceItems (itemsToInsert d),
                      DeleteInvoice (invoiceId d)]"
    and "invoices_tbl (snd (addInvoice_try now d w)) =
           (if fault w (length (calls w) + 2) = None
            then filter (\<lambda>r. i_id r \<noteq> invoiceId d) (invoices_tbl w)
            else invoices_tbl w @ [invoiceRow now (invoiceInsert d w)])"
    and "invoice_items_tbl (snd (addInvoice_try now d w)) =
           (if fault w (length (calls w) + 2) = None
            then filter (\<lambda>r. invoice_id r \<noteq> invoiceId d) (invoice_items_tbl w)
            else invoice_items_tbl w)"
    and "clients_tbl (snd (addInvoice_try now d w)) = clients_tbl w"
    and "invoices (store (snd (addInvoice_try now d w))) = invoices (store w)"
    and "clients (store (snd (addInvoice_try now d w))) = clients (store w)"
  using assms
  by (simp_all add: addInvoice_try_def Let_def split_def prim_fields i_id_invoiceRow)

lemma joinInvoices_ids_subset:
  "invoiceId ` set (joinInvoices now hs cs its) \<subseteq> i_id ` set hs"
proof -
  have "invoiceId ` set (joinInvoices now hs cs its) = set (map invoiceId (joinInvoices now hs cs its))"
    by simp
  also have "\<dots> = i_id ` set (filter (\<lambda>h. client_id h \<in> c_id ` set cs) hs)"
    by (simp only: joinInvoices_ids set_map)
  finally show ?thesis by auto
qed

lemma loadInvoices_ids_subset:
  assumes "fst (loadInvoices now w) = Inr u"
  shows "invoiceId ` set (invoices (store (snd (loadInvoices now w)))) \<subseteq> i_id ` set (invoices_tbl w)"
  using joinInvoices_ids_subset [of now "order_desc i_created_at (invoices_tbl w)"
          "clients_tbl w" "invoice_items_tbl w"]
  by (simp add: loadInvoices_result(1) [OF assms] set_order_desc)

text \<open>
  Claim C2, as amended.  When the header insert succeeds and the item insert fails with
  message \<open>m\<close>, \<^verbatim>\<open>addInvoice\<close> sends exactly three statements: the header insert, the
  item insert and a delete of the header by its id; no counter update and no reload.  The
  error thrown and flagged is the item insert's.  If the delete succeeds, no header with
  that id is left in the table, nor in the snapshot of any later successful load; if the
  delete fails too, the header row stays.  Client rows and both snapshots are untouched.
\<close>

theorem addInvoice_rollback:
  assumes valid: "invoiceId d \<noteq> []" "cId (client d) \<noteq> []" "items d \<noteq> []"
    and f0: "fault w (length (calls w)) = None"
    and f1: "fault w (length (calls w) + 1) = Some m"
  shows "fst (addInvoice now d w) = Inl (''Failed to create invoice items: '' @ m) \<and>
         error (store (snd (addInvoice now d w))) = Some (''Failed to create invoice items: '' @ m) \<and>
         calls (snd (addInvoice now d w)) =
           calls w @ [InsertInvoice (invoiceInsert d w), InsertInvoiceItems (itemsToInsert d),
                      DeleteInvoice (invoiceId d)] \<and>
         (fault w (length (calls w) + 2) = None \<longrightarrow>
            invoiceId d \<notin> i_id ` set (invoices_tbl (snd (addInvoice now d w))) \<and>
            invoices_tbl (snd (addInvoice now d w)) =
              filter (\<lambda>r. i_id r \<noteq> invoiceId d) (invoices_tbl w) \<and>
            (\<forall>now' u. fst (loadInvoices now' (snd (addInvoice now d w))) = Inr u \<longrightarrow>
               invoiceId d \<notin> invoiceId `
                 set (invoices (store (snd (loadInvoices now' (snd (addInvoice now d w)))))))) \<and>
         (fault w (length (calls w) + 2) \<noteq> None \<longrightarrow>
            invoices_tbl (snd (addInvoice now d w)) =
              invoices_tbl w @ [invoiceRow now (invoiceInsert d w)]) \<and>
         clients_tbl (snd (addInvoice now d w)) = clients_tbl w \<and>
         invoices (store (snd (addInvoice now d w))) = invoices (store w) \<and>
         clients (store (snd (addInvoice now d w))) = clients (store w)"
proof -
  let ?w' = "snd (addInvoice now d w)"
  note F = addInvoice_try_items_failed [OF assms, of now]
  have a: "fst (addInvoice now d w) = Inl (''Failed to create invoice items: '' @ m)"
    by (simp add: addInvoice_catch F)
  have b: "error (store ?w') = Some (''Failed to create invoice items: '' @ m)"
    using addInvoice_catch_error [OF F(1)] by (simp add: js_or_str_def)
  have c: "calls ?w' =
           calls w @ [InsertInvoice (invoiceInsert d w), InsertInvoiceItems (itemsToInsert d),
                      DeleteInvoice (invoiceId d)]"
    by (simp add: addInvoice_catch F)
  have tbl: "invoices_tbl ?w' =
           (if fault w (length (calls w) + 2) = None
            then filter (\<lambda>r. i_id r \<noteq> invoiceId d) (invoices_tbl w)
            else invoices_tbl w @ [invoiceRow now (invoiceInsert d w)])"
    by (simp only: addInvoice_catch F)
  have e: "fault w (length (calls w) + 2) = None \<longrightarrow>
            invoiceId d \<notin> i_id ` set (invoices_tbl ?w') \<and>
            invoices_tbl ?w' = filter (\<lambda>r. i_id r \<noteq> invoiceId d) (invoices_tbl w) \<and>
            (\<forall>now' u. fst (loadInvoices now' ?w') = Inr u \<longrightarrow>
               invoiceId d \<notin> invoiceId ` set (invoices (store (snd (loadInvoices now' ?w')))))"
  proof
    assume ok: "fault w (length (calls w) + 2) = None"
    with tbl have t: "invoices_tbl ?w' = filter (\<lambda>r. i_id r \<noteq> invoiceId d) (invoices_tbl w)"
      by simp
    then have n: "invoiceId d \<notin> i_id ` set (invoices_tbl ?w')" by auto
    have "\<forall>now' u. fst (loadInvoices now' ?w') = Inr u \<longrightarrow>
               invoiceId d \<notin> invoiceId ` set (invoices (store (snd (loadInvoices now' ?w'))))"
      using n loadInvoices_ids_subset by blast
    with t n show "invoiceId d \<notin> i_id ` set (invoices_tbl ?w') \<and>
            invoices_tbl ?w' = filter (\<lambda>r. i_id r \<noteq> invoiceId d) (invoices_tbl w) \<and>
            (\<forall>now' u. fst (loadInvoices now' ?w') = Inr u \<longrightarrow>
               invoiceId d \<notin> invoiceId ` set (invoices (store (snd (loadInvoices now' ?w')))))"
      by blast
  qed
  have f: "fault w (length (calls w) + 2) \<noteq> None \<longrightarrow>
            invoices_tbl ?w' = invoices_tbl w @ [invoiceRow now (invoiceInsert d w)]"
    using tbl by simp
  have g: "clients_tbl ?w' = clients_tbl w" by (simp only: addInvoice_catch F)
  have h: "invoices (store ?w') = invoices (store w)" by (simp only: addInvoice_catch F)
  have i: "clients (store ?w') = clients (store w)" by (simp only: addInvoice_catch F)
  from a b c e f g h i show ?thesis by blast
qed

lemma nat_offsets:
  "n + 3 = Suc (Suc (Suc n))"
  "n + 4 = Suc (Suc (Suc (Suc n)))"
  "n + 5 = Suc (Suc (Suc (Suc (Suc n))))"
  "n + 6 = Suc (Suc (Suc (Suc (Suc (Suc n)))))"
  by simp_all

lemma addInvoice_try_ok_prefix:
  assumes "fst (addInvoice_try now d w) = Inr u"
  shows "invoiceId d \<noteq> [] \<and> cId (client d) \<noteq> [] \<and> items d \<noteq> [] \<and>
         fault w (length (calls w)) = None \<and> fault w (length (calls w) + 1) = None"
  using assms
  by (auto simp: addInvoice_try_def Let_def split_def prim_fields split: if_splits option.splits)

text \<open>The reload after the writes: the header table is not empty, so all four reads are sent.\<close>

lemma written_reload_ok_iff:
  assumes f0: "fault w (length (calls w)) = None"
    and f1: "fault w (length (calls w) + 1) = None"
  shows "(fst (addInvoice_reload now d (written now d w)) = Inr u) \<longleftrightarrow>
           fault w (length (calls w) + 3) = None \<and> fault w (length (calls w) + 4) = None \<and>
           fault w (length (calls w) + 5) = None \<and> fault w (length (calls w) + 6) = None"
proof -
  note W = written_fields [OF f0 f1, of now d]
  have li: "(fst (loadInvoices now (written now d w)) = Inr ()) \<longleftrightarrow>
              fault w (length (calls w) + 3) = None \<and> fault w (length (calls w) + 4) = None \<and>
              fault w (length (calls w) + 5) = None"
    by (simp add: loadInvoices_ok_iff W nat_offsets)
  have cl: "calls (snd (loadInvoices now (written now d w))) =
              calls (written now d w) @ SelectInvoices #
                (if fault w (length (calls w) + 3) \<noteq> None then []
                 else if fault w (length (calls w) + 4) \<noteq> None then [SelectClients]
                 else [SelectClients, SelectInvoiceItems])"
    by (simp add: loadInvoices_calls W nat_offsets)
  show ?thesis
    unfolding addInvoice_reload_ok_iff li
    by (auto simp: loadClients_ok_iff loadInvoices_frame cl W nat_offsets)
qed

lemma written_reload_calls:
  assumes f0: "fault w (length (calls w)) = None"
    and f1: "fault w (length (calls w) + 1) = None"
  shows "\<exists>rest. calls (snd (addInvoice_reload now d (written now d w))) =
           calls w @ [InsertInvoice (invoiceInsert d w), InsertInvoiceItems (itemsToInsert d),
                      UpdateClientVisit (cId (client d)) (jsAdd (visitCount (client d)) 1) now,
                      SelectInvoices] @ rest \<and>
           (\<forall>iid. DeleteInvoice iid \<notin> set rest)"
proof -
  note W = written_fields [OF f0 f1, of now d]
  have cl: "calls (snd (loadInvoices now (written now d w))) =
              calls (written now d w) @ SelectInvoices #
                (if fault w (length (calls w) + 3) \<noteq> None then []
                 else if fault w (length (calls w) + 4) \<noteq> None then [SelectClients]
                 else [SelectClients, SelectInvoiceItems])"
    by (simp add: loadInvoices_calls W nat_offsets)
  show ?thesis
    unfolding addInvoice_reload_calls cl W(1)
    by (rule exI [where x = "(if fault w (length (calls w) + 3) \<noteq> None then []
                 else if fault w (length (calls w) + 4) \<noteq> None then [SelectClients]
                 else [SelectClients, SelectInvoiceItems]) @
       (if fst (loadInvoices now (written now d w)) = Inr ()
        then SelectClientsOrdered #
          (if fst (loadClients now (snd (loadInvoices now (written now d w)))) = Inr ()
           then [InsertAuditLog
                  \<lparr> action = ''create'', entity_type = ''invoice'', entity_id = invoiceId d,
                    actor_phone = currentUserPhone (store (written now d w)),
                    actor_name = currentUserName (store (written now d w)),
                    changes = [(''total'', JNum (total d)),
                               (''status'', JStr (statusText (status d)))] \<rparr>]
           else [])
        else [])"]) auto
qed

lemma written_reload_calls_ok:
  assumes f0: "fault w (length (calls w)) = None"
    and f1: "fault w (length (calls w) + 1) = None"
    and ok: "fst (addInvoice_reload now d (written now d w)) = Inr u"
  shows "calls (snd (addInvoice_reload now d (written now d w))) =
           calls w @ [InsertInvoice (invoiceInsert d w), InsertInvoiceItems (itemsToInsert d),
                      UpdateClientVisit (cId (client d)) (jsAdd (visitCount (client d)) 1) now,
                      SelectInvoices, SelectClients, SelectInvoiceItems, SelectClientsOrdered,
                      InsertAuditLog
                        \<lparr> action = ''create'', entity_type = ''invoice'', entity_id = invoiceId d,
                          actor_phone = currentUserPhone (store w),
                          actor_name = currentUserName (store w),
                          changes = [(''total'', JNum (total d)),
                                     (''status'', JStr (statusText (status d)))] \<rparr>]"
proof -
  note W = written_fields [OF f0 f1, of now d]
  from ok have fs: "fault w (length (calls w) + 3) = None" "fault w (length (calls w) + 4) = None"
    by (simp_all add: written_reload_ok_iff [OF f0 f1])
  from ok have li: "fst (loadInvoices now (written now d w)) = Inr ()"
    and lc: "fst (loadClients now (snd (loadInvoices now (written now d w)))) = Inr ()"
    by (simp_all add: addInvoice_reload_ok_iff)
  have cl: "calls (snd (loadInvoices now (written now d w))) =
              calls (written now d w) @ [SelectInvoices, SelectClients, SelectInvoiceItems]"
    using fs by (simp add: loadInvoices_calls W nat_offsets)
  show ?thesis
    unfolding addInvoice_reload_calls cl W(1) using li lc by (simp add: W)
qed

theorem addInvoice_validation_witness:
  "items (ex_invoiceData\<lparr>items := []\<rparr>) = [] \<and>
   fst (addInvoice ex_now (ex_invoiceData\<lparr>items := []\<rparr>) ex_world) = Inl ''Invoice items are required'' \<and>
   calls (snd (addInvoice ex_now (ex_invoiceData\<lparr>items := []\<rparr>) ex_world)) = [] \<and>
   error (store (snd (addInvoice ex_now (ex_invoiceData\<lparr>items := []\<rparr>) ex_world)))
     = Some ''Invoice items are required''"
  using addInvoice_validation [of "ex_invoiceData\<lparr>items := []\<rparr>" ex_now ex_world]
  by (simp add: validationMessage_def ex_invoiceData_def ex_world_def)

theorem addInvoice_rollback_witness:
  "fault (ex_failing_at 1) (length (calls (ex_failing_at 1))) = None \<and>
   fault (ex_failing_at 1) (length (calls (ex_failing_at 1)) + 1) = Some ''offline'' \<and>
   fault (ex_failing_at 1) (length (calls (ex_failing_at 1)) + 2) = None \<and>
   fst (addInvoice ex_now ex_invoiceData (ex_failing_at 1))
     = Inl ''Failed to create invoice items: offline'' \<and>
   invoiceId ex_invoiceData \<notin> i_id ` set (invoices_tbl (snd (addInvoice ex_now ex_invoiceData (ex_failing_at 1)))) \<and>
   invoices_tbl (snd (addInvoice ex_now ex_invoiceData (ex_failing_at 1))) = invoices_tbl ex_world"
proof -
  have v: "invoiceId ex_invoiceData \<noteq> []" "cId (client ex_invoiceData) \<noteq> []" "items ex_invoiceData \<noteq> []"
    by (simp_all add: ex_invoiceData_def)
  have f0: "fault (ex_failing_at 1) (length (calls (ex_failing_at 1))) = None"
    by (simp add: ex_failing_at_def ex_world_def)
  have f1: "fault (ex_failing_at 1) (length (calls (ex_failing_at 1)) + 1) = Some ''offline''"
    by (simp add: ex_failing_at_def ex_world_def)
  have f2: "fault (ex_failing_at 1) (length (calls (ex_failing_at 1)) + 2) = None"
    by (simp add: ex_failing_at_def ex_world_def)
  have t: "filter (\<lambda>r. i_id r \<noteq> invoiceId ex_invoiceData) (invoices_tbl (ex_failing_at 1)) = invoices_tbl ex_world"
    by (simp add: ex_failing_at_def ex_world_def ex_invoiceData_def ex_header_def)
  have n: "invoiceId ex_invoiceData \<notin> i_id ` set (invoices_tbl ex_world)"
    by (simp add: ex_world_def ex_invoiceData_def ex_header_def)
  from addInvoice_rollback [OF v f0 f1, of ex_now] f0 f1 f2 t n show ?thesis by simp
qed

text \<open>
  The claim C2 as stated fails when the compensating delete fails as well (the backend is
  unreachable from the second statement on): the header row is still there afterwards.
\<close>

theorem addInvoice_rollback_counterexample:
  "fault (ex_failing_from 1) 0 = None \<and>
   fault (ex_failing_from 1) 1 = Some ''offline'' \<and>
   fst (addInvoice ex_now ex_invoiceData (ex_failing_from 1))
     = Inl ''Failed to create invoice items: offline'' \<and>
   calls (snd (addInvoice ex_now ex_invoiceData (ex_failing_from 1)))
     = [InsertInvoice (invoiceInsert ex_invoiceData ex_world),
        InsertInvoiceItems (itemsToInsert ex_invoiceData), DeleteInvoice ''INV-9''] \<and>
   map i_id (invoices_tbl (snd (addInvoice ex_now ex_invoiceData (ex_failing_from 1))))
     = [''INV-1'', ''INV-2'', ''INV-9'']"
  by code_simp

lemma written_header_present:
  assumes f0: "fault w (length (calls w)) = None"
    and f1: "fault w (length (calls w) + 1) = None"
  shows "invoiceRow now (invoiceInsert d w) \<in> set (invoices_tbl (written now d w))"
  by (simp add: written_fields [OF f0 f1])

text \<open>
  Claim C7, as amended.  When the header and item inserts succeed and the counter update
  fails, \<^verbatim>\<open>addInvoice\<close> only warns: it sends no delete, the header and item rows stay, the
  client rows are unchanged, and the reload is started.  The call succeeds exactly when
  the four reads of the reload succeed; it then clears the loading flag, leaves the error
  flag empty, sends the audit entry and toasts the success.  (When a read of the reload
  fails, the call throws that read's error although the invoice is stored.)
\<close>

theorem addInvoice_counter_failure:
  assumes valid: "invoiceId d \<noteq> []" "cId (client d) \<noteq> []" "items d \<noteq> []"
    and f0: "fault w (length (calls w)) = None"
    and f1: "fault w (length (calls w) + 1) = None"
    and f2: "fault w (length (calls w) + 2) = Some m"
  shows "((fst (addInvoice now d w) = Inr ()) \<longleftrightarrow>
            fault w (length (calls w) + 3) = None \<and> fault w (length (calls w) + 4) = None \<and>
            fault w (length (calls w) + 5) = None \<and> fault w (length (calls w) + 6) = None) \<and>
         (\<exists>rest. calls (snd (addInvoice now d w)) =
            calls w @ [InsertInvoice (invoiceInsert d w), InsertInvoiceItems (itemsToInsert d),
                       UpdateClientVisit (cId (client d)) (jsAdd (visitCount (client d)) 1) now,
                       SelectInvoices] @ rest \<and>
            (\<forall>iid. DeleteInvoice iid \<notin> set rest)) \<and>
         invoices_tbl (snd (addInvoice now d w)) =
           invoices_tbl w @ [invoiceRow now (invoiceInsert d w)] \<and>
         invoice_items_tbl (snd (addInvoice now d w)) =
           invoice_items_tbl w @
             map (\<lambda>(k, p). itemRow now (genId w (length (invoice_items_tbl w) + k)) p)
               (List.enumerate 0 (itemsToInsert d)) \<and>
         clients_tbl (snd (addInvoice now d w)) = clients_tbl w \<and>
         ''Failed to update client visit count:'' \<in> set (console (snd (addInvoice now d w))) \<and>
         (fst (addInvoice now d w) = Inr () \<longrightarrow>
            error (store (snd (addInvoice now d w))) = None \<and>
            loading (store (snd (addInvoice now d w))) = False \<and>
            calls (snd (addInvoice now d w)) =
              calls w @ [InsertInvoice (invoiceInsert d w), InsertInvoiceItems (itemsToInsert d),
                         UpdateClientVisit (cId (client d)) (jsAdd (visitCount (client d)) 1) now,
                         SelectInvoices, SelectClients, SelectInvoiceItems, SelectClientsOrdered,
                         InsertAuditLog
                           \<lparr> action = ''create'', entity_type = ''invoice'',
                             entity_id = invoiceId d,
                             actor_phone = currentUserPhone (store w),
                             actor_name = currentUserName (store w),
                             changes = [(''total'', JNum (total d)),
                                        (''status'', JStr (statusText (status d)))] \<rparr>] \<and>
            last (toasts (snd (addInvoice now d w))) =
              Toast ''Invoice created successfully!''
                (Some (''Invoice '' @ invoiceId d @ '' has been created.'')) False)"
proof -
  let ?w' = "snd (addInvoice now d w)"
  let ?r = "addInvoice_reload now d (written now d w)"
  note T = addInvoice_try_written [OF valid f0 f1, of now]
  note W = written_fields [OF f0 f1, of now d]
  have a: "(fst (addInvoice now d w) = Inr ()) \<longleftrightarrow>
            fault w (length (calls w) + 3) = None \<and> fault w (length (calls w) + 4) = None \<and>
            fault w (length (calls w) + 5) = None \<and> fault w (length (calls w) + 6) = None"
    by (simp only: addInvoice_catch T written_reload_ok_iff [OF f0 f1])
  have b: "\<exists>rest. calls ?w' =
            calls w @ [InsertInvoice (invoiceInsert d w), InsertInvoiceItems (itemsToInsert d),
                       UpdateClientVisit (cId (client d)) (jsAdd (visitCount (client d)) 1) now,
                       SelectInvoices] @ rest \<and>
            (\<forall>iid. DeleteInvoice iid \<notin> set rest)"
    using written_reload_calls [OF f0 f1, of now d] by (simp only: addInvoice_catch T)
  have c: "invoices_tbl ?w' = invoices_tbl w @ [invoiceRow now (invoiceInsert d w)]"
    by (simp only: addInvoice_catch T addInvoice_reload_tables W)
  have c2: "invoice_items_tbl ?w' =
           invoice_items_tbl w @
             map (\<lambda>(k, p). itemRow now (genId w (length (invoice_items_tbl w) + k)) p)
               (List.enumerate 0 (itemsToInsert d))"
    by (simp only: addInvoice_catch T addInvoice_reload_tables W)
  have c3: "clients_tbl ?w' = clients_tbl w"
    using f2 by (simp add: addInvoice_catch T addInvoice_reload_tables W)
  have "''Failed to update client visit count:'' \<in> set (console (written now d w))"
    using f2 by (simp add: W)
  then have "''Failed to update client visit count:'' \<in> set (console (snd ?r))"
    using addInvoice_reload_console by blast
  then have e: "''Failed to update client visit count:'' \<in> set (console ?w')"
    using addInvoice_catch(11) [of now d w] by (auto simp: T)
  have g: "fst (addInvoice now d w) = Inr () \<longrightarrow>
            error (store ?w') = None \<and> loading (store ?w') = False \<and>
            calls ?w' =
              calls w @ [InsertInvoice (invoiceInsert d w), InsertInvoiceItems (itemsToInsert d),
                         UpdateClientVisit (cId (client d)) (jsAdd (visitCount (client d)) 1) now,
                         SelectInvoices, SelectClients, SelectInvoiceItems, SelectClientsOrdered,
                         InsertAuditLog
                           \<lparr> action = ''create'', entity_type = ''invoice'',
                             entity_id = invoiceId d,
                             actor_phone = currentUserPhone (store w),
                             actor_name = currentUserName (store w),
                             changes = [(''total'', JNum (total d)),
                                        (''status'', JStr (statusText (status d)))] \<rparr>] \<and>
            last (toasts ?w') =
              Toast ''Invoice created successfully!''
                (Some (''Invoice '' @ invoiceId d @ '' has been created.'')) False"
  proof
    assume "fst (addInvoice now d w) = Inr ()"
    then have ok: "fst ?r = Inr ()" by (simp add: addInvoice_catch T)
    then have eq: "?w' = snd ?r"
      using addInvoice_catch_success [of now d w "()"] by (simp add: T)
    have "error (store (snd ?r)) = None" by (simp add: addInvoice_reload_tables W)
    moreover have "loading (store (snd ?r)) = False" by (rule addInvoice_reload_success(3) [OF ok])
    moreover note written_reload_calls_ok [OF f0 f1 ok]
    moreover have "last (toasts (snd ?r)) =
              Toast ''Invoice created successfully!''
                (Some (''Invoice '' @ invoiceId d @ '' has been created.'')) False"
      by (simp add: addInvoice_reload_success(4) [OF ok])
    ultimately show "error (store ?w') = None \<and> loading (store ?w') = False \<and>
            calls ?w' =
              calls w @ [InsertInvoice (invoiceInsert d w), InsertInvoiceItems (itemsToInsert d),
                         UpdateClientVisit (cId (client d)) (jsAdd (visitCount (client d)) 1) now,
                         SelectInvoices, SelectClients, SelectInvoiceItems, SelectClientsOrdered,
                         InsertAuditLog
                           \<lparr> action = ''create'', entity_type = ''invoice'',
                             entity_id = invoiceId d,
                             actor_phone = currentUserPhone (store w),
                             actor_name = currentUserName (store w),
                             changes = [(''total'', JNum (total d)),
                                        (''status'', JStr (statusText (status d)))] \<rparr>] \<and>
            last (toasts ?w') =
              Toast ''Invoice created successfully!''
                (Some (''Invoice '' @ invoiceId d @ '' has been created.'')) False"
      unfolding eq by blast
  qed
  from a b c c2 c3 e g show ?thesis by blast
qed

theorem addInvoice_counter_failure_witness:
  "fault (ex_failing_at 2) (length (calls (ex_failing_at 2))) = None \<and>
   fault (ex_failing_at 2) (length (calls (ex_failing_at 2)) + 1) = None \<and>
   fault (ex_failing_at 2) (length (calls (ex_failing_at 2)) + 2) = Some ''offline'' \<and>
   fst (addInvoice ex_now ex_invoiceData (ex_failing_at 2)) = Inr () \<and>
   clients_tbl (snd (addInvoice ex_now ex_invoiceData (ex_failing_at 2))) = [ex_client] \<and>
   ''Failed to update client visit count:''
     \<in> set (console (snd (addInvoice ex_now ex_invoiceData (ex_failing_at 2)))) \<and>
   error (store (snd (addInvoice ex_now ex_invoiceData (ex_failing_at 2)))) = None"
proof -
  have v: "invoiceId ex_invoiceData \<noteq> []" "cId (client ex_invoiceData) \<noteq> []" "items ex_invoiceData \<noteq> []"
    by (simp_all add: ex_invoiceData_def)
  have f0: "fault (ex_failing_at 2) (length (calls (ex_failing_at 2))) = None"
    and f1: "fault (ex_failing_at 2) (length (calls (ex_failing_at 2)) + 1) = None"
    and f2: "fault (ex_failing_at 2) (length (calls (ex_failing_at 2)) + 2) = Some ''offline''"
    and fs: "fault (ex_failing_at 2) (length (calls (ex_failing_at 2)) + 3) = None"
      "fault (ex_failing_at 2) (length (calls (ex_failing_at 2)) + 4) = None"
      "fault (ex_failing_at 2) (length (calls (ex_failing_at 2)) + 5) = None"
      "fault (ex_failing_at 2) (length (calls (ex_failing_at 2)) + 6) = None"
    by (simp_all add: ex_failing_at_def ex_world_def)
  have c: "clients_tbl (ex_failing_at 2) = [ex_client]"
    by (simp add: ex_failing_at_def ex_world_def)
  from addInvoice_counter_failure [OF v f0 f1 f2, of ex_now] f0 f1 f2 fs c show ?thesis
    by simp
qed

text \<open>
  The claim C7 as stated fails when the reload that follows fails (the backend is
  unreachable from the counter update on): the call then throws the reload's error.
\<close>

theorem addInvoice_counter_failure_counterexample:
  "fault (ex_failing_from 2) 0 = None \<and>
   fault (ex_failing_from 2) 1 = None \<and>
   fault (ex_failing_from 2) 2 = Some ''offline'' \<and>
   fst (addInvoice ex_now ex_invoiceData (ex_failing_from 2))
     = Inl ''Failed to load invoices: offline'' \<and>
   error (store (snd (addInvoice ex_now ex_invoiceData (ex_failing_from 2))))
     = Some ''Failed to load invoices: offline'' \<and>
   map i_id (invoices_tbl (snd (addInvoice ex_now ex_invoiceData (ex_failing_from 2))))
     = [''INV-1'', ''INV-2'', ''INV-9'']"
  by code_simp

lemma clientOfRow_updated:
  "c_id r = cid \<Longrightarrow>
     cId (clientOfRow now (if c_id r = cid then r\<lparr>visit_count := n, last_visit := Some now\<rparr> else r)) = cid \<and>
     visitCount (clientOfRow now (if c_id r = cid then r\<lparr>visit_count := n, last_visit := Some now\<rparr> else r)) = n \<and>
     lastVisit (clientOfRow now (if c_id r = cid then r\<lparr>visit_count := n, last_visit := Some now\<rparr> else r)) = now"
  by (simp add: clientOfRow_def js_or_num_def js_or_str_def)

lemma clientOfRow_other:
  "c_id r \<noteq> cid \<Longrightarrow>
     cId (clientOfRow now (if c_id r = cid then r\<lparr>visit_count := n, last_visit := Some now\<rparr> else r)) \<noteq> cid"
  by (simp add: clientOfRow_def)

text \<open>
  What a successful \<^verbatim>\<open>addInvoice\<close> whose counter update succeeded leaves in the client
  snapshot: the client is there, and every entry with its id carries the number the code
  computed, \<^verbatim>\<open>visitCount + 1\<close> in JavaScript's arithmetic, and the time of the run.
\<close>

lemma addInvoice_counter_sent:
  assumes ok: "fst (addInvoice now d w) = Inr u"
    and f2: "fault w (length (calls w) + 2) = None"
    and ex: "cId (client d) \<in> c_id ` set (clients_tbl w)"
  shows "(\<exists>c\<in>set (clients (store (snd (addInvoice now d w)))). cId c = cId (client d)) \<and>
         (\<forall>c\<in>set (clients (store (snd (addInvoice now d w)))).
            cId c = cId (client d) \<longrightarrow>
              visitCount c = jsAdd (visitCount (client d)) 1 \<and> lastVisit c = now)"
proof -
  let ?cid = "cId (client d)"
  let ?upd = "\<lambda>r. if c_id r = ?cid
                    then r\<lparr>visit_count := jsAdd (visitCount (client d)) 1, last_visit := Some now\<rparr>
                    else r"
  from ok have tr: "fst (addInvoice_try now d w) = Inr u" by (simp add: addInvoice_catch)
  from addInvoice_try_ok_prefix [OF tr]
  have valid: "invoiceId d \<noteq> []" "cId (client d) \<noteq> []" "items d \<noteq> []"
    and f0: "fault w (length (calls w)) = None"
    and f1: "fault w (length (calls w) + 1) = None" by simp_all
  note T = addInvoice_try_written [OF valid f0 f1, of now]
  note W = written_fields [OF f0 f1, of now d]
  from tr have okr: "fst (addInvoice_reload now d (written now d w)) = Inr u" by (simp add: T)
  have "clients (store (snd (addInvoice now d w))) =
          clients (store (snd (addInvoice_reload now d (written now d w))))"
    by (simp only: addInvoice_catch T)
  also have "\<dots> = map (clientOfRow now) (order_desc c_created_at (clients_tbl (written now d w)))"
    by (rule addInvoice_reload_success(1) [OF okr])
  also have "clients_tbl (written now d w) = map ?upd (clients_tbl w)"
    using f2 by (simp add: W)
  finally have cl: "set (clients (store (snd (addInvoice now d w)))) =
                  (\<lambda>r. clientOfRow now (?upd r)) ` set (clients_tbl w)"
    by (simp only: set_map set_order_desc image_image)
  from ex obtain r where r: "r \<in> set (clients_tbl w)" "c_id r = ?cid" by auto
  have a: "\<exists>c\<in>set (clients (store (snd (addInvoice now d w)))). cId c = ?cid"
    unfolding cl using r clientOfRow_updated [OF r(2), of now "jsAdd (visitCount (client d)) 1"]
    by blast
  have b: "\<forall>c\<in>set (clients (store (snd (addInvoice now d w)))).
            cId c = ?cid \<longrightarrow> visitCount c = jsAdd (visitCount (client d)) 1 \<and> lastVisit c = now"
  proof (intro ballI impI)
    fix c assume c: "c \<in> set (clients (store (snd (addInvoice now d w))))" and i: "cId c = ?cid"
    from c obtain r' where r': "r' \<in> set (clients_tbl w)" "c = clientOfRow now (?upd r')"
      unfolding cl by auto
    have "c_id r' = ?cid"
    proof (rule ccontr)
      assume "c_id r' \<noteq> ?cid"
      from clientOfRow_other [OF this, of now "jsAdd (visitCount (client d)) 1"] i r'(2)
      show False by simp
    qed
    from clientOfRow_updated [OF this, of now "jsAdd (visitCount (client d)) 1"] r'(2)
    show "visitCount c = jsAdd (visitCount (client d)) 1 \<and> lastVisit c = now" by simp
  qed
  from a b show ?thesis by blast
qed

text \<open>
  Claim C4, as amended.  When \<^verbatim>\<open>addInvoice\<close> succeeds for a client whose row exists,
  and its counter update succeeded, the client snapshot after the reload holds that
  client, and every entry of it with that id has \<open>visitCount = N + 1\<close> and the
  \<open>lastVisit\<close> of the run, where \<open>N\<close>, the \<open>visitCount\<close> of the client passed in
  (the caller's snapshot of it), is a safe integer: of magnitude below \<open>2^53\<close>, where
  the addition of JavaScript numbers is exact.
\<close>

theorem addInvoice_visit_counter:
  assumes ok: "fst (addInvoice now d w) = Inr u"
    and f2: "fault w (length (calls w) + 2) = None"
    and ex: "cId (client d) \<in> c_id ` set (clients_tbl w)"
    and safe: "isSafeInteger (visitCount (client d))"
  shows "(\<exists>c\<in>set (clients (store (snd (addInvoice now d w)))). cId c = cId (client d)) \<and>
         (\<forall>c\<in>set (clients (store (snd (addInvoice now d w)))).
            cId c = cId (client d) \<longrightarrow>
              visitCount c = visitCount (client d) + 1 \<and> lastVisit c = now)"
  using addInvoice_counter_sent [OF ok f2 ex] jsAdd_safe [OF safe] by simp

lemma ex_create_ok: "fst (addInvoice ex_now ex_invoiceData ex_world) = Inr ()"
  by code_simp

theorem addInvoice_visit_counter_witness:
  "fst (addInvoice ex_now ex_invoiceData ex_world) = Inr () \<and>
   fault ex_world (length (calls ex_world) + 2) = None \<and>
   cId (client ex_invoiceData) \<in> c_id ` set (clients_tbl ex_world) \<and>
   isSafeInteger (visitCount (client ex_invoiceData)) \<and>
   visitCount (client ex_invoiceData) = 0 \<and>
   (\<exists>c\<in>set (clients (store (snd (addInvoice ex_now ex_invoiceData ex_world)))).
      cId c = ''c1'' \<and> visitCount c = 1 \<and> lastVisit c = ex_now)"
proof -
  have f2: "fault ex_world (length (calls ex_world) + 2) = None" by (simp add: ex_world_def)
  have ex: "cId (client ex_invoiceData) \<in> c_id ` set (clients_tbl ex_world)"
    by (simp add: ex_world_def ex_invoiceData_def ex_client_def)
  have n: "visitCount (client ex_invoiceData) = 0" "cId (client ex_invoiceData) = ''c1''"
    by (simp_all add: ex_invoiceData_def)
  have s: "isSafeInteger (visitCount (client ex_invoiceData))"
    by (simp add: n isSafeInteger_def)
  from addInvoice_visit_counter [OF ex_create_ok f2 ex s] n
  have "\<exists>c\<in>set (clients (store (snd (addInvoice ex_now ex_invoiceData ex_world)))).
      cId c = ''c1'' \<and> visitCount c = 1 \<and> lastVisit c = ex_now"
    by auto
  with ex_create_ok f2 ex s n show ?thesis by blast
qed

text \<open>
  The claim C4 as stated fails beyond the safe integers, where the addition rounds: for
  a client shown with \<open>2^53\<close> visits the code sends \<open>2^53\<close> again, and that is
  the count after the reload.
\<close>

theorem addInvoice_visit_counter_counterexample:
  "fst (addInvoice ex_now
     (ex_invoiceData\<lparr>client := (client ex_invoiceData)\<lparr>visitCount := 2 ^ 53\<rparr>\<rparr>) ex_world) = Inr () \<and>
   fault ex_world (length (calls ex_world) + 2) = None \<and>
   map c_id (clients_tbl ex_world) = [''c1''] \<and>
   cId (client (ex_invoiceData\<lparr>client := (client ex_invoiceData)\<lparr>visitCount := 2 ^ 53\<rparr>\<rparr>)) = ''c1'' \<and>
   jsAdd (2 ^ 53) 1 = 2 ^ 53 \<and>
   map (\<lambda>c. (cId c, visitCount c))
     (clients (store (snd (addInvoice ex_now
        (ex_invoiceData\<lparr>client := (client ex_invoiceData)\<lparr>visitCount := 2 ^ 53\<rparr>\<rparr>) ex_world))))
     = [(''c1'', 2 ^ 53)] \<and>
   (2 ^ 53 :: number) \<noteq> 2 ^ 53 + 1"
  by code_simp

section \<open>Loading twice\<close>

lemma map_filter_cong_set:
  "(\<And>x. x \<in> set xs \<Longrightarrow> f x = g x) \<Longrightarrow> List.map_filter f xs = List.map_filter g xs"
  by (induction xs) (simp_all split: option.split)

lemma clientOfRow_clock:
  "hasLastVisit c \<Longrightarrow> clientOfRow now1 c = clientOfRow now2 c"
  by (simp add: clientOfRow_def hasLastVisit_def js_or_str_def split: option.splits)

lemma clientOfRow_blank:
  "(clientOfRow now1 c)\<lparr>lastVisit := []\<rparr> = (clientOfRow now2 c)\<lparr>lastVisit := []\<rparr>"
  by (simp add: clientOfRow_def)

lemma clientOfRow_unvisited:
  "\<not> hasLastVisit c \<Longrightarrow> lastVisit (clientOfRow now c) = now"
  by (simp add: clientOfRow_def hasLastVisit_def js_or_str_def split: option.splits)

lemma invoiceOfRow_clock:
  assumes "\<And>c. cm (client_id h) = Some c \<Longrightarrow> hasLastVisit c"
  shows "invoiceOfRow now1 cm im h = invoiceOfRow now2 cm im h"
proof (cases "cm (client_id h)")
  case None
  then show ?thesis by (simp add: invoiceOfRow_def)
next
  case (Some c)
  with assms have "clientOfRow now1 c = clientOfRow now2 c" by (simp add: clientOfRow_clock)
  with Some show ?thesis by (simp add: invoiceOfRow_def)
qed

lemma invoiceOfRow_blank:
  "map_option withoutLastVisit (invoiceOfRow now1 cm im h) =
   map_option withoutLastVisit (invoiceOfRow now2 cm im h)"
  using clientOfRow_blank [of now1 _ now2]
  by (simp add: invoiceOfRow_def withoutLastVisit_def Let_def split: option.split)

lemma joinInvoices_clock:
  assumes "\<forall>h\<in>set hs. \<forall>c\<in>set cs. c_id c = client_id h \<longrightarrow> hasLastVisit c"
  shows "joinInvoices now1 hs cs its = joinInvoices now2 hs cs its"
  unfolding joinInvoices_def
proof (rule map_filter_cong_set)
  fix h assume h: "h \<in> set hs"
  show "invoiceOfRow now1 (clientsMap cs) (itemsMap its) h =
        invoiceOfRow now2 (clientsMap cs) (itemsMap its) h"
  proof (rule invoiceOfRow_clock)
    fix c assume "clientsMap cs (client_id h) = Some c"
    from clientsMap_Some [OF this] h assms show "hasLastVisit c" by blast
  qed
qed

lemma invoiceOfRow_pair:
  "(invoiceOfRow now1 (clientsMap cs) im h = None \<and> invoiceOfRow now2 (clientsMap cs) im h = None) \<or>
   (\<exists>a b. invoiceOfRow now1 (clientsMap cs) im h = Some a \<and>
          invoiceOfRow now2 (clientsMap cs) im h = Some b \<and> sameButClock now1 now2 cs a b)"
proof (cases "clientsMap cs (client_id h)")
  case None
  then show ?thesis by (simp add: invoiceOfRow_def)
next
  case (Some c)
  from invoiceOfRow_found [of "clientsMap cs" h c now1 im, OF Some] obtain a where
    a: "invoiceOfRow now1 (clientsMap cs) im h = Some a" "client a = clientOfRow now1 c" by blast
  from invoiceOfRow_found [of "clientsMap cs" h c now2 im, OF Some] obtain b where
    b: "invoiceOfRow now2 (clientsMap cs) im h = Some b" "client b = clientOfRow now2 c" by blast
  from clientsMap_Some [OF Some] have "c_id c = client_id h" by simp
  with clientsMap_rowOf [OF Some] a(2) have row: "rowOf cs (cId (client a)) = c"
    by (simp add: cId_clientOfRow)
  have 1: "withoutLastVisit a = withoutLastVisit b"
    using invoiceOfRow_blank [of now1 "clientsMap cs" im h now2] a(1) b(1) by simp
  have 2: "hasLastVisit c \<longrightarrow> a = b"
  proof
    assume "hasLastVisit c"
    then have "invoiceOfRow now1 (clientsMap cs) im h = invoiceOfRow now2 (clientsMap cs) im h"
      using Some by (intro invoiceOfRow_clock) simp
    with a(1) b(1) show "a = b" by simp
  qed
  have 3: "\<not> hasLastVisit c \<longrightarrow> lastVisit (client a) = now1 \<and> lastVisit (client b) = now2"
    by (simp add: a(2) b(2) clientOfRow_unvisited)
  from 1 2 3 have "sameButClock now1 now2 cs a b" by (simp add: sameButClock_def row)
  with a(1) b(1) show ?thesis by blast
qed

lemma joinInvoices_pairs:
  "list_all2 (sameButClock now1 now2 cs) (joinInvoices now1 hs cs its) (joinInvoices now2 hs cs its)"
proof (induction hs)
  case Nil
  then show ?case by (simp add: joinInvoices_def map_filter_simps)
next
  case (Cons h hs)
  from invoiceOfRow_pair [of now1 cs "itemsMap its" h now2] Cons show ?case
    by (auto simp: joinInvoices_Cons)
qed

text \<open>
  Claim C5, as amended.  Two successful loads with nothing written in between give
  snapshots of the same length that hold the same invoice ids in the same order.  The two
  invoices at a position are equal when the client row of that invoice has a last visit;
  when it has none (or an empty one) they agree in every field but the last visit of the
  embedded client, which is the time of the first load in the first snapshot and the
  time of the second load in the second.  So the snapshots are equal when both loads read
  the same clock, or when every client row an invoice header refers to has a last visit.
\<close>

theorem loadInvoices_twice:
  assumes ok1: "fst (loadInvoices now1 w) = Inr u1"
    and ok2: "fst (loadInvoices now2 (snd (loadInvoices now1 w))) = Inr u2"
    and r1: "first = invoices (store (snd (loadInvoices now1 w)))"
    and r2: "second = invoices (store (snd (loadInvoices now2 (snd (loadInvoices now1 w)))))"
  shows "length first = length second \<and>
         map invoiceId first = map invoiceId second \<and>
         (\<forall>i<length first.
            withoutLastVisit (first ! i) = withoutLastVisit (second ! i) \<and>
            (hasLastVisit (rowOf (clients_tbl w) (cId (client (first ! i)))) \<longrightarrow>
               first ! i = second ! i) \<and>
            (\<not> hasLastVisit (rowOf (clients_tbl w) (cId (client (first ! i)))) \<longrightarrow>
               lastVisit (client (first ! i)) = now1 \<and> lastVisit (client (second ! i)) = now2)) \<and>
         (now1 = now2 \<longrightarrow> first = second) \<and>
         ((\<forall>h\<in>set (invoices_tbl w). \<forall>c\<in>set (clients_tbl w).
              c_id c = client_id h \<longrightarrow> hasLastVisit c) \<longrightarrow> first = second)"
proof -
  let ?hs = "order_desc i_created_at (invoices_tbl w)"
  have e1: "first = joinInvoices now1 ?hs (clients_tbl w) (invoice_items_tbl w)"
    using loadInvoices_result(1) [OF ok1] r1 by simp
  have e2: "second = joinInvoices now2 ?hs (clients_tbl w) (invoice_items_tbl w)"
    using loadInvoices_result(1) [OF ok2] r2 by (simp add: loadInvoices_frame)
  have p: "list_all2 (sameButClock now1 now2 (clients_tbl w)) first second"
    unfolding e1 e2 by (rule joinInvoices_pairs)
  then have a: "length first = length second" by (rule list_all2_lengthD)
  have b: "map invoiceId first = map invoiceId second"
    unfolding e1 e2 by (simp only: joinInvoices_ids)
  have c: "\<forall>i<length first.
            withoutLastVisit (first ! i) = withoutLastVisit (second ! i) \<and>
            (hasLastVisit (rowOf (clients_tbl w) (cId (client (first ! i)))) \<longrightarrow>
               first ! i = second ! i) \<and>
            (\<not> hasLastVisit (rowOf (clients_tbl w) (cId (client (first ! i)))) \<longrightarrow>
               lastVisit (client (first ! i)) = now1 \<and> lastVisit (client (second ! i)) = now2)"
  proof (intro allI impI)
    fix i assume "i < length first"
    from list_all2_nthD [OF p this]
    show "withoutLastVisit (first ! i) = withoutLastVisit (second ! i) \<and>
            (hasLastVisit (rowOf (clients_tbl w) (cId (client (first ! i)))) \<longrightarrow>
               first ! i = second ! i) \<and>
            (\<not> hasLastVisit (rowOf (clients_tbl w) (cId (client (first ! i)))) \<longrightarrow>
               lastVisit (client (first ! i)) = now1 \<and> lastVisit (client (second ! i)) = now2)"
      by (simp add: sameButClock_def)
  qed
  have d: "now1 = now2 \<longrightarrow> first = second" unfolding e1 e2 by simp
  have e: "(\<forall>h\<in>set (invoices_tbl w). \<forall>c\<in>set (clients_tbl w).
              c_id c = client_id h \<longrightarrow> hasLastVisit c) \<longrightarrow> first = second"
    unfolding e1 e2 using joinInvoices_clock [of ?hs "clients_tbl w" now1 "invoice_items_tbl w" now2]
    by (simp add: set_order_desc)
  from a b c d e show ?thesis by blast
qed

lemma ex_mixed_loads:
  "fst (loadInvoices ex_now ex_mixed) = Inr ()"
  "fst (loadInvoices ex_later (snd (loadInvoices ex_now ex_mixed))) = Inr ()"
  by code_simp+

lemma ex_mixed_first:
  "map (\<lambda>iv. (invoiceId iv, cId (client iv))) (invoices (store (snd (loadInvoices ex_now ex_mixed))))
     = [(''INV-3'', ''c2''), (''INV-1'', ''c1'')]"
  by code_simp

lemma ex_mixed_rows:
  "hasLastVisit (rowOf (clients_tbl ex_mixed) ''c2'')"
  "\<not> hasLastVisit (rowOf (clients_tbl ex_mixed) ''c1'')"
  by code_simp+

theorem loadInvoices_twice_witness:
  "fst (loadInvoices ex_now ex_mixed) = Inr () \<and>
   fst (loadInvoices ex_later (snd (loadInvoices ex_now ex_mixed))) = Inr () \<and>
   ex_now \<noteq> ex_later \<and>
   map (\<lambda>iv. (invoiceId iv, cId (client iv))) (invoices (store (snd (loadInvoices ex_now ex_mixed))))
     = [(''INV-3'', ''c2''), (''INV-1'', ''c1'')] \<and>
   hasLastVisit (rowOf (clients_tbl ex_mixed) ''c2'') \<and>
   \<not> hasLastVisit (rowOf (clients_tbl ex_mixed) ''c1'') \<and>
   invoices (store (snd (loadInvoices ex_now ex_mixed))) ! 0 =
     invoices (store (snd (loadInvoices ex_later (snd (loadInvoices ex_now ex_mixed))))) ! 0 \<and>
   withoutLastVisit (invoices (store (snd (loadInvoices ex_now ex_mixed))) ! 1) =
     withoutLastVisit
       (invoices (store (snd (loadInvoices ex_later (snd (loadInvoices ex_now ex_mixed))))) ! 1) \<and>
   lastVisit (client (invoices (store (snd (loadInvoices ex_now ex_mixed))) ! 1)) = ex_now \<and>
   lastVisit (client
     (invoices (store (snd (loadInvoices ex_later (snd (loadInvoices ex_now ex_mixed))))) ! 1))
     = ex_later"
proof -
  let ?first = "invoices (store (snd (loadInvoices ex_now ex_mixed)))"
  let ?second = "invoices (store (snd (loadInvoices ex_later (snd (loadInvoices ex_now ex_mixed)))))"
  note T = loadInvoices_twice [OF ex_mixed_loads refl refl]
  have n: "ex_now \<noteq> ex_later" by (simp add: ex_now_def ex_later_def)
  from ex_mixed_first have len: "0 < length ?first" "1 < length ?first"
    and c0: "cId (client (?first ! 0)) = ''c2''" and c1: "cId (client (?first ! 1)) = ''c1''"
    by (auto dest: arg_cong [where f = length] arg_cong [where f = "\<lambda>xs. xs ! 0"]
          arg_cong [where f = "\<lambda>xs. xs ! 1"])
  from T have P: "\<forall>i<length ?first.
            withoutLastVisit (?first ! i) = withoutLastVisit (?second ! i) \<and>
            (hasLastVisit (rowOf (clients_tbl ex_mixed) (cId (client (?first ! i)))) \<longrightarrow>
               ?first ! i = ?second ! i) \<and>
            (\<not> hasLastVisit (rowOf (clients_tbl ex_mixed) (cId (client (?first ! i)))) \<longrightarrow>
               lastVisit (client (?first ! i)) = ex_now \<and> lastVisit (client (?second ! i)) = ex_later)"
    by blast
  note p0 = P [rule_format, OF len(1), unfolded c0]
  note p1 = P [rule_format, OF len(2), unfolded c1]
  from p0 ex_mixed_rows(1) have a: "?first ! 0 = ?second ! 0" by blast
  from p1 ex_mixed_rows(2)
  have b: "withoutLastVisit (?first ! 1) = withoutLastVisit (?second ! 1)"
    "lastVisit (client (?first ! 1)) = ex_now" "lastVisit (client (?second ! 1)) = ex_later"
    by blast+
  from ex_mixed_loads n ex_mixed_first ex_mixed_rows a b show ?thesis by blast
qed

text \<open>
  The claim C5 as stated fails for a client row without a last visit: the two loads,
  one second apart and with nothing written in between, embed different clients.
\<close>

theorem loadInvoices_twice_counterexample:
  "fst (loadInvoices ex_now ex_world) = Inr () \<and>
   fst (loadInvoices ex_later (snd (loadInvoices ex_now ex_world))) = Inr () \<and>
   invoices_tbl (snd (loadInvoices ex_now ex_world)) = invoices_tbl ex_world \<and>
   clients_tbl (snd (loadInvoices ex_now ex_world)) = clients_tbl ex_world \<and>
   invoice_items_tbl (snd (loadInvoices ex_now ex_world)) = invoice_items_tbl ex_world \<and>
   map (\<lambda>iv. lastVisit (client iv)) (invoices (store (snd (loadInvoices ex_now ex_world))))
     = [ex_now] \<and>
   map (\<lambda>iv. lastVisit (client iv))
     (invoices (store (snd (loadInvoices ex_later (snd (loadInvoices ex_now ex_world))))))
     = [ex_later] \<and>
   invoices (store (snd (loadInvoices ex_now ex_world))) \<noteq>
     invoices (store (snd (loadInvoices ex_later (snd (loadInvoices ex_now ex_world)))))"
  by code_simp

section \<open>Properties of \<^verbatim>\<open>updateInvoiceStatus\<close>\<close>

text \<open>
  Claim C8, as amended.  \<^verbatim>\<open>updateInvoiceStatus\<close> sends one patch, of \<open>status\<close> and
  \<open>updated_at\<close>, and awaits it.  If the backend accepts it, the snapshot is then updated
  in place, changing the status and \<open>updatedAt\<close> of the invoices with that id and nothing
  else, without any read of the backend; then one audit entry with action
  \<open>status_update\<close> is sent (stored if that insert succeeds).  If the backend rejects the
  patch, the invoices of the snapshot are unchanged, no audit entry is sent and the error
  is flagged.
\<close>

theorem updateInvoiceStatus_effect:
  shows "(fault w (length (calls w)) = None \<longrightarrow>
            calls (updateInvoiceStatus now iid s w) =
              calls w @ [UpdateInvoiceStatus iid s now, InsertAuditLog (statusAudit iid s w)] \<and>
            invoices (store (updateInvoiceStatus now iid s w)) =
              map (\<lambda>iv. if invoiceId iv = iid then iv\<lparr>status := s, updatedAt := now\<rparr> else iv)
                (invoices (store w)) \<and>
            clients (store (updateInvoiceStatus now iid s w)) = clients (store w) \<and>
            loading (store (updateInvoiceStatus now iid s w)) = False \<and>
            error (store (updateInvoiceStatus now iid s w)) = None \<and>
            audit_logs_tbl (updateInvoiceStatus now iid s w) =
              (if fault w (length (calls w) + 1) = None
               then audit_logs_tbl w @ [statusAudit iid s w] else audit_logs_tbl w) \<and>
            invoices_tbl (updateInvoiceStatus now iid s w) =
              map (\<lambda>r. if i_id r = iid then r\<lparr>i_status := s, i_updated_at := now\<rparr> else r)
                (invoices_tbl w)) \<and>
         (\<forall>m. fault w (length (calls w)) = Some m \<longrightarrow>
            calls (updateInvoiceStatus now iid s w) = calls w @ [UpdateInvoiceStatus iid s now] \<and>
            invoices (store (updateInvoiceStatus now iid s w)) = invoices (store w) \<and>
            clients (store (updateInvoiceStatus now iid s w)) = clients (store w) \<and>
            loading (store (updateInvoiceStatus now iid s w)) = False \<and>
            error (store (updateInvoiceStatus now iid s w)) =
              Some (''Failed to update invoice status: '' @ m) \<and>
            audit_logs_tbl (updateInvoiceStatus now iid s w) = audit_logs_tbl w \<and>
            invoices_tbl (updateInvoiceStatus now iid s w) = invoices_tbl w)"
  by (simp add: updateInvoiceStatus_def Let_def split_def prim_fields statusAudit_def
        js_or_str_def)

lemma ex_loaded_clean: "fault ex_loaded (length (calls ex_loaded)) = None"
  by code_simp

lemma ex_loaded_patched:
  "map status (map (\<lambda>iv. if invoiceId iv = ''INV-1'' then iv\<lparr>status := Completed, updatedAt := ex_later\<rparr> else iv)
     (invoices (store ex_loaded))) = [Completed]"
  "map updatedAt (map (\<lambda>iv. if invoiceId iv = ''INV-1'' then iv\<lparr>status := Completed, updatedAt := ex_later\<rparr> else iv)
     (invoices (store ex_loaded))) = [ex_later]"
  "map status (invoices (store ex_loaded)) = [Pending]"
  by code_simp+

theorem updateInvoiceStatus_effect_witness:
  "fault ex_loaded (length (calls ex_loaded)) = None \<and>
   map status (invoices (store ex_loaded)) = [Pending] \<and>
   map status (invoices (store (updateInvoiceStatus ex_later ''INV-1'' Completed ex_loaded)))
     = [Completed] \<and>
   map updatedAt (invoices (store (updateInvoiceStatus ex_later ''INV-1'' Completed ex_loaded)))
     = [ex_later] \<and>
   calls (updateInvoiceStatus ex_later ''INV-1'' Completed ex_loaded) =
     calls ex_loaded @ [UpdateInvoiceStatus ''INV-1'' Completed ex_later,
                        InsertAuditLog (statusAudit ''INV-1'' Completed ex_loaded)]"
  using updateInvoiceStatus_effect [of ex_loaded ex_later "''INV-1''" Completed]
    ex_loaded_clean ex_loaded_patched
  by simp

text \<open>
  The claim C8 as stated fails when the backend rejects the patch: the snapshot keeps
  the old status and no audit entry is sent.  The patch carries two fields.
\<close>

theorem updateInvoiceStatus_effect_counterexample:
  "fault ex_loaded_offline (length (calls ex_loaded_offline)) = Some ''offline'' \<and>
   map status (invoices (store ex_loaded_offline)) = [Pending] \<and>
   map status (invoices (store (updateInvoiceStatus ex_later ''INV-1'' Completed ex_loaded_offline)))
     = [Pending] \<and>
   calls (updateInvoiceStatus ex_later ''INV-1'' Completed ex_loaded_offline) =
     calls ex_loaded_offline @ [UpdateInvoiceStatus ''INV-1'' Completed ex_later] \<and>
   audit_logs_tbl (updateInvoiceStatus ex_later ''INV-1'' Completed ex_loaded_offline) = [] \<and>
   error (store (updateInvoiceStatus ex_later ''INV-1'' Completed ex_loaded_offline))
     = Some ''Failed to update invoice status: offline''"
  by code_simp

section \<open>Properties of \<^verbatim>\<open>setCurrentUser\<close>\<close>

lemma select_user_fields:
  "calls (snd (select_user p w)) = calls w @ [SelectUser p]"
  "store (snd (select_user p w)) = store w"
  "clients_tbl (snd (select_user p w)) = clients_tbl w"
  "invoices_tbl (snd (select_user p w)) = invoices_tbl w"
  "invoice_items_tbl (snd (select_user p w)) = invoice_items_tbl w"
  "audit_logs_tbl (snd (select_user p w)) = audit_logs_tbl w"
  "users_tbl (snd (select_user p w)) = users_tbl w"
  "localStorage (snd (select_user p w)) = localStorage w"
  "toasts (snd (select_user p w)) = toasts w"
  by (simp_all add: select_user_def issue_def Let_def split_def split: option.split list.split)

lemma select_user_found:
  "fault w (length (calls w)) = None \<Longrightarrow> filter (\<lambda>u. u_phone u = p) (users_tbl w) = [u] \<Longrightarrow>
     fst (select_user p w) = (None, Some u)"
  by (simp add: select_user_def issue_def Let_def)

lemma select_user_missing:
  "fault w (length (calls w)) \<noteq> None \<or> (\<forall>u. filter (\<lambda>u. u_phone u = p) (users_tbl w) \<noteq> [u]) \<Longrightarrow>
     snd (fst (select_user p w)) = None"
  by (auto simp: select_user_def issue_def Let_def split: option.split list.split)

text \<open>
  Claim C9, as amended.  \<^verbatim>\<open>setCurrentUser\<close> looks up the phone trimmed of the white
  space around it.  If the lookup yields no account (it fails, or the table has no row,
  or several, for the trimmed phone), the call shows the ``Account not found'' toast and
  leaves the in-memory and the persisted session as they were.  If it yields a row, the
  resolved name is the stored name if non-empty, else the caller's if non-empty, else
  none; the trimmed phone and the resolved name are set in memory, the trimmed phone is
  written to local storage, and so is the resolved name when there is one.
\<close>

theorem setCurrentUser_effect:
  "calls (setCurrentUser phone name w) = calls w @ [SelectUser (trim phone)] \<and>
   (fault w (length (calls w)) \<noteq> None \<or>
    (\<forall>u. filter (\<lambda>u. u_phone u = trim phone) (users_tbl w) \<noteq> [u]) \<longrightarrow>
      store (setCurrentUser phone name w) = store w \<and>
      localStorage (setCurrentUser phone name w) = localStorage w \<and>
      toasts (setCurrentUser phone name w) = toasts w @ [accountNotFound]) \<and>
   (\<forall>u. fault w (length (calls w)) = None \<and>
        filter (\<lambda>u. u_phone u = trim phone) (users_tbl w) = [u] \<longrightarrow>
      currentUserPhone (store (setCurrentUser phone name w)) = Some (trim phone) \<and>
      (\<forall>n. u_name u = Some n \<and> n \<noteq> [] \<longrightarrow>
         currentUserName (store (setCurrentUser phone name w)) = Some n) \<and>
      (\<forall>m. (u_name u = None \<or> u_name u = Some []) \<and> name = Some m \<and> m \<noteq> [] \<longrightarrow>
         currentUserName (store (setCurrentUser phone name w)) = Some m) \<and>
      ((u_name u = None \<or> u_name u = Some []) \<and> (name = None \<or> name = Some []) \<longrightarrow>
         currentUserName (store (setCurrentUser phone name w)) = None) \<and>
      localStorage (setCurrentUser phone name w) ''ims_user_phone'' = Some (trim phone) \<and>
      (\<forall>n. currentUserName (store (setCurrentUser phone name w)) = Some n \<longrightarrow>
         localStorage (setCurrentUser phone name w) ''ims_user_name'' = Some n) \<and>
      (\<forall>k. k \<noteq> ''ims_user_phone'' \<and> k \<noteq> ''ims_user_name'' \<longrightarrow>
         localStorage (setCurrentUser phone name w) k = localStorage w k) \<and>
      invoices (store (setCurrentUser phone name w)) = invoices (store w) \<and>
      clients (store (setCurrentUser phone name w)) = clients (store w) \<and>
      toasts (setCurrentUser phone name w) = toasts w)"
proof -
  let ?p = "trim phone"
  let ?w' = "setCurrentUser phone name w"
  have a: "calls ?w' = calls w @ [SelectUser ?p]"
    by (simp add: setCurrentUser_def Let_def split_def select_user_fields effect_fields
          split: option.split)
  have b: "fault w (length (calls w)) \<noteq> None \<or>
    (\<forall>u. filter (\<lambda>u. u_phone u = ?p) (users_tbl w) \<noteq> [u]) \<longrightarrow>
      store ?w' = store w \<and> localStorage ?w' = localStorage w \<and>
      toasts ?w' = toasts w @ [accountNotFound]"
  proof
    assume "fault w (length (calls w)) \<noteq> None \<or>
      (\<forall>u. filter (\<lambda>u. u_phone u = ?p) (users_tbl w) \<noteq> [u])"
    from select_user_missing [OF this]
    show "store ?w' = store w \<and> localStorage ?w' = localStorage w \<and>
      toasts ?w' = toasts w @ [accountNotFound]"
      by (simp add: setCurrentUser_def Let_def split_def select_user_fields effect_fields
            accountNotFound_def split: option.split)
  qed
  have c: "\<forall>u. fault w (length (calls w)) = None \<and>
        filter (\<lambda>u. u_phone u = ?p) (users_tbl w) = [u] \<longrightarrow>
      currentUserPhone (store ?w') = Some ?p \<and>
      (\<forall>n. u_name u = Some n \<and> n \<noteq> [] \<longrightarrow> currentUserName (store ?w') = Some n) \<and>
      (\<forall>m. (u_name u = None \<or> u_name u = Some []) \<and> name = Some m \<and> m \<noteq> [] \<longrightarrow>
         currentUserName (store ?w') = Some m) \<and>
      ((u_name u = None \<or> u_name u = Some []) \<and> (name = None \<or> name = Some []) \<longrightarrow>
         currentUserName (store ?w') = None) \<and>
      localStorage ?w' ''ims_user_phone'' = Some ?p \<and>
      (\<forall>n. currentUserName (store ?w') = Some n \<longrightarrow>
         localStorage ?w' ''ims_user_name'' = Some n) \<and>
      (\<forall>k. k \<noteq> ''ims_user_phone'' \<and> k \<noteq> ''ims_user_name'' \<longrightarrow>
         localStorage ?w' k = localStorage w k) \<and>
      invoices (store ?w') = invoices (store w) \<and>
      clients (store ?w') = clients (store w) \<and>
      toasts ?w' = toasts w"
  proof (intro allI impI)
    fix u assume "fault w (length (calls w)) = None \<and>
        filter (\<lambda>u. u_phone u = ?p) (users_tbl w) = [u]"
    then have f: "fst (select_user ?p w) = (None, Some u)" by (simp add: select_user_found)
    have s: "currentUserPhone (store ?w') = Some ?p"
      "currentUserName (store ?w') = js_or (js_or (u_name u) name) None"
      "localStorage ?w' ''ims_user_phone'' = Some ?p"
      "localStorage ?w' ''ims_user_name'' =
        (case js_or (js_or (u_name u) name) None of
           Some n \<Rightarrow> Some n
         | None \<Rightarrow> localStorage w ''ims_user_name'')"
      "\<forall>k. k \<noteq> ''ims_user_phone'' \<and> k \<noteq> ''ims_user_name'' \<longrightarrow>
         localStorage ?w' k = localStorage w k"
      "invoices (store ?w') = invoices (store w)"
      "clients (store ?w') = clients (store w)"
      "toasts ?w' = toasts w"
      using f
      by (simp_all add: setCurrentUser_def Let_def split_def select_user_fields effect_fields
            split: option.split)
    have n1: "\<forall>n. u_name u = Some n \<and> n \<noteq> [] \<longrightarrow> js_or (js_or (u_name u) name) None = Some n"
      by (simp add: js_or_def)
    have n2: "\<forall>m. (u_name u = None \<or> u_name u = Some []) \<and> name = Some m \<and> m \<noteq> [] \<longrightarrow>
         js_or (js_or (u_name u) name) None = Some m"
      by (auto simp: js_or_def)
    have n3: "(u_name u = None \<or> u_name u = Some []) \<and> (name = None \<or> name = Some []) \<longrightarrow>
         js_or (js_or (u_name u) name) None = None"
      by (auto simp: js_or_def)
    have n4: "\<forall>n. currentUserName (store ?w') = Some n \<longrightarrow>
         localStorage ?w' ''ims_user_name'' = Some n"
      by (simp add: s(2) s(4))
    from s(1,3,5-8) n1 n2 n3 n4
    show "currentUserPhone (store ?w') = Some ?p \<and>
      (\<forall>n. u_name u = Some n \<and> n \<noteq> [] \<longrightarrow> currentUserName (store ?w') = Some n) \<and>
      (\<forall>m. (u_name u = None \<or> u_name u = Some []) \<and> name = Some m \<and> m \<noteq> [] \<longrightarrow>
         currentUserName (store ?w') = Some m) \<and>
      ((u_name u = None \<or> u_name u = Some []) \<and> (name = None \<or> name = Some []) \<longrightarrow>
         currentUserName (store ?w') = None) \<and>
      localStorage ?w' ''ims_user_phone'' = Some ?p \<and>
      (\<forall>n. currentUserName (store ?w') = Some n \<longrightarrow>
         localStorage ?w' ''ims_user_name'' = Some n) \<and>
      (\<forall>k. k \<noteq> ''ims_user_phone'' \<and> k \<noteq> ''ims_user_name'' \<longrightarrow>
         localStorage ?w' k = localStorage w k) \<and>
      invoices (store ?w') = invoices (store w) \<and>
      clients (store ?w') = clients (store w) \<and>
      toasts ?w' = toasts w"
      by (simp only: s(2))
  qed
  from a b c show ?thesis by blast
qed

lemma ex_phone_trimmed: "trim ex_phone_typed = ''0788''"
  by code_simp

theorem setCurrentUser_effect_witness:
  "fault ex_world (length (calls ex_world)) = None \<and>
   trim ex_phone_typed = ''0788'' \<and>
   filter (\<lambda>u. u_phone u = trim ex_phone_typed) (users_tbl ex_world)
     = [\<lparr> u_phone = ''0788'', u_name = Some ''Alice'' \<rparr>] \<and>
   calls (setCurrentUser ex_phone_typed (Some ''Bob'') ex_world) = [SelectUser ''0788''] \<and>
   currentUserPhone (store (setCurrentUser ex_phone_typed (Some ''Bob'') ex_world)) = Some ''0788'' \<and>
   currentUserName (store (setCurrentUser ex_phone_typed (Some ''Bob'') ex_world)) = Some ''Alice'' \<and>
   localStorage (setCurrentUser ex_phone_typed (Some ''Bob'') ex_world) ''ims_user_phone'' = Some ''0788'' \<and>
   localStorage (setCurrentUser ex_phone_typed (Some ''Bob'') ex_world) ''ims_user_name'' = Some ''Alice''"
proof -
  have f: "fault ex_world (length (calls ex_world)) = None" by (simp add: ex_world_def)
  have c: "calls ex_world = []" by (simp add: ex_world_def)
  have u: "filter (\<lambda>u. u_phone u = trim ex_phone_typed) (users_tbl ex_world)
     = [\<lparr> u_phone = ''0788'', u_name = Some ''Alice'' \<rparr>]"
    by (simp add: ex_phone_trimmed ex_world_def)
  from setCurrentUser_effect [of ex_phone_typed "Some ''Bob''" ex_world] f u ex_phone_trimmed c
  show ?thesis by simp
qed

text \<open>
  The claim C9 as stated fails in two ways: a row exists but the lookup fails, and the
  session stays unset; the phone is given with spaces around it, no row has that phone,
  and the call still signs in, for the trimmed phone.
\<close>

theorem setCurrentUser_effect_counterexample:
  "filter (\<lambda>u. u_phone u = ''0788'') (users_tbl (ex_failing_from 0))
     = [\<lparr> u_phone = ''0788'', u_name = Some ''Alice'' \<rparr>] \<and>
   currentUserPhone (store (setCurrentUser ''0788'' None (ex_failing_from 0))) = None \<and>
   localStorage (setCurrentUser ''0788'' None (ex_failing_from 0)) ''ims_user_phone'' = None \<and>
   toasts (setCurrentUser ''0788'' None (ex_failing_from 0)) = [accountNotFound] \<and>
   filter (\<lambda>u. u_phone u = '' 0788 '') (users_tbl ex_world) = [] \<and>
   currentUserPhone (store (setCurrentUser '' 0788 '' None ex_world)) = Some ''0788'' \<and>
   localStorage (setCurrentUser '' 0788 '' None ex_world) ''ims_user_phone'' = Some ''0788'' \<and>
   toasts (setCurrentUser '' 0788 '' None ex_world) = []"
  by code_simp

section \<open>Properties of \<^verbatim>\<open>getPickupNotifications\<close>\<close>

lemma digitChar_0: "digitChar 0 = CHR ''0''"
  by (simp add: digitChar_def)

lemma toString_digit: "n < 10 \<Longrightarrow> toString n = [digitChar n]"
  by (simp add: toString.simps)

lemma pad2_digits:
  assumes "n < 100"
  shows "padStart 2 CHR ''0'' (toString n) = [digitChar (n div 10), digitChar (n mod 10)]"
proof (cases "n < 10")
  case True
  then show ?thesis by (simp add: toString_digit padStart_def digitChar_0)
next
  case False
  with assms have "n div 10 < 10" by simp
  then have "toString (n div 10) = [digitChar (n div 10)]" by (rule toString_digit)
  with False have "toString n = [digitChar (n div 10), digitChar (n mod 10)]"
    by (subst toString.simps) simp
  then show ?thesis by (simp add: padStart_def)
qed

lemma currentTimeString_nonempty: "currentTimeString d \<noteq> []"
  by (simp add: currentTimeString_def)

lemma pickupDue_iff:
  assumes "currentDate d \<noteq> []"
  shows "pickupDue d iv \<longleftrightarrow>
           pickupDate iv = Some (currentDate d) \<and>
           (\<exists>t. pickupTime iv = Some t \<and> take 5 t = currentTimeString d) \<and>
           status iv \<noteq> Completed"
  using assms currentTimeString_nonempty [of d]
  by (cases "pickupDate iv"; cases "pickupTime iv")
     (auto simp: pickupDue_def js_or_def Let_def)

text \<open>The clock time the filter compares with: two digits, a colon, two digits.\<close>

lemma currentTimeString_format:
  assumes "getHours d < 24" and "getMinutes d < 60"
  shows "currentTimeString d =
           [digitChar (getHours d div 10), digitChar (getHours d mod 10), CHR '':'',
            digitChar (getMinutes d div 10), digitChar (getMinutes d mod 10)]"
  using assms by (simp add: currentTimeString_def pad2_digits)

text \<open>
  What the filter keeps, in snapshot order: the invoices whose \<open>pickupDate\<close> is the date
  part of the ISO string of the clock reading (the date in UTC), whose \<open>pickupTime\<close>
  starts with the local hours and minutes, and whose status is not completed; a cancelled
  invoice is kept.
\<close>

lemma getPickupNotifications_filter:
  assumes "currentDate d \<noteq> []"
  shows "getPickupNotifications d w =
           filter (\<lambda>iv. pickupDate iv = Some (currentDate d) \<and>
                        (\<exists>t. pickupTime iv = Some t \<and> take 5 t = currentTimeString d) \<and>
                        status iv \<noteq> Completed) (invoices (store w))"
  unfolding getPickupNotifications_def
  by (rule filter_cong [OF refl]) (simp add: pickupDue_iff [OF assms])

text \<open>
  Claim C10.  The filter takes today's date from \<^verbatim>\<open>toISOString\<close>, which gives the date
  in UTC, and the time from the local clock.  Two hours ahead of UTC, a pending invoice to
  be picked up on 2024-01-05 at 00:05 is not returned when the user's clock shows 00:05
  on 2024-01-05 (the ISO date is then still 2024-01-04), and it is returned a day later,
  at 00:05 on 2024-01-06.
\<close>

theorem getPickupNotifications_utc_date:
  "map (\<lambda>iv. (invoiceId iv, pickupDate iv, pickupTime iv, status iv)) (invoices (store ex_night))
     = [(''INV-1'', Some ''2024-01-05'', Some ''00:05:00'', Pending)] \<and>
   localDate ex_midnight = ''2024-01-05'' \<and>
   currentTimeString ex_midnight = ''00:05'' \<and>
   currentDate ex_midnight = ''2024-01-04'' \<and>
   getPickupNotifications ex_midnight ex_night = [] \<and>
   localDate ex_next_midnight = ''2024-01-06'' \<and>
   currentTimeString ex_next_midnight = ''00:05'' \<and>
   currentDate ex_next_midnight = ''2024-01-05'' \<and>
   map invoiceId (getPickupNotifications ex_next_midnight ex_night) = [''INV-1'']"
  by code_simp

text \<open>
  Away from midnight the two dates agree: at 10:30 local time on 2024-01-05 the invoice
  due then is returned, and it is not a minute earlier or later.
\<close>

lemma ex_date_due:
  "localDate ex_date = ''2024-01-05''"
  "currentDate ex_date = ''2024-01-05''"
  "currentTimeString ex_date = ''10:30''"
  "map invoiceId (getPickupNotifications ex_date ex_loaded) = [''INV-1'']"
  "getPickupNotifications (ex_date\<lparr>getMinutes := 31\<rparr>) ex_loaded = []"
  "getPickupNotifications (ex_date\<lparr>getMinutes := 29\<rparr>) ex_loaded = []"
  by code_simp+

section \<open>Statements sent by the create pipeline\<close>

lemma headerInserts_append: "headerInserts (xs @ ys) = headerInserts xs @ headerInserts ys"
  by (induction xs rule: headerInserts.induct) simp_all

lemma itemInserts_append: "itemInserts (xs @ ys) = itemInserts xs @ itemInserts ys"
  by (induction xs rule: itemInserts.induct) simp_all

lemma sentBy_append: "calls w' = calls w @ ev \<Longrightarrow> sentBy w w' = ev"
  by (simp add: sentBy_def)

text \<open>Whole amounts are closed under sum and product, and are doubles up to \<open>2^53\<close>.\<close>

lemma wholeAmount_of_int: "wholeAmount x \<longleftrightarrow> (\<exists>k\<ge>0. x = of_int k)"
proof
  assume "wholeAmount x"
  then have a: "of_int \<lfloor>x\<rfloor> = x" and b: "0 \<le> x" unfolding wholeAmount_def by blast+
  from b have "0 \<le> \<lfloor>x\<rfloor>" by simp
  with a [symmetric] show "\<exists>k\<ge>0. x = of_int k" by blast
next
  assume "\<exists>k\<ge>0. x = of_int k"
  then show "wholeAmount x" by (auto simp: wholeAmount_def)
qed

lemma wholeAmount_add: "wholeAmount a \<Longrightarrow> wholeAmount b \<Longrightarrow> wholeAmount (a + b)"
  unfolding wholeAmount_of_int
  by (metis add_nonneg_nonneg of_int_add)

lemma wholeAmount_mult: "wholeAmount a \<Longrightarrow> wholeAmount b \<Longrightarrow> wholeAmount (a * b)"
  unfolding wholeAmount_of_int
  by (metis mult_nonneg_nonneg of_int_mult)

lemma wholeAmount_0: "wholeAmount 0"
  by (simp add: wholeAmount_def)

lemma wholeAmount_sum_list: "(\<forall>x\<in>set xs. wholeAmount x) \<Longrightarrow> wholeAmount (sum_list xs)"
  by (induction xs) (simp_all add: wholeAmount_0 wholeAmount_add)

lemma toDouble_wholeAmount: "wholeAmount x \<Longrightarrow> x \<le> 2 ^ 53 \<Longrightarrow> toDouble x = x"
  by (rule toDouble_whole) (simp_all add: wholeAmount_def)

lemma jsMul_whole:
  "wholeAmount a \<Longrightarrow> wholeAmount b \<Longrightarrow> a * b \<le> 2 ^ 53 \<Longrightarrow> jsMul a b = a * b"
  unfolding jsMul_def by (rule toDouble_wholeAmount) (simp_all add: wholeAmount_mult)

lemma jsSum_snoc: "jsSum (xs @ [x]) = jsAdd (jsSum xs) x"
  by (simp add: jsSum_def)

lemma jsSum_whole:
  "(\<forall>x\<in>set xs. wholeAmount x) \<Longrightarrow> sum_list xs \<le> 2 ^ 53 \<Longrightarrow> jsSum xs = sum_list xs"
proof (induction xs rule: rev_induct)
  case Nil
  then show ?case by (simp add: jsSum_def)
next
  case (snoc x xs)
  from snoc.prems have w: "\<forall>y\<in>set xs. wholeAmount y" "wholeAmount x" by simp_all
  then have "0 \<le> x" by (simp add: wholeAmount_def)
  with snoc.prems(2) have "sum_list xs \<le> 2 ^ 53" by simp
  with snoc.IH w have s: "jsSum xs = sum_list xs" by simp
  have "wholeAmount (sum_list xs + x)"
    using w by (simp add: wholeAmount_add wholeAmount_sum_list)
  then have "toDouble (sum_list xs + x) = sum_list xs + x"
    using snoc.prems(2) by (intro toDouble_wholeAmount) simp_all
  then show ?case by (simp add: jsSum_snoc s jsAdd_def)
qed

text \<open>The \<^verbatim>\<open>reduce\<close> is the sum, as JavaScript adds, of the rounded products.\<close>

lemma calculateTotal_jsSum:
  "calculateTotal its = jsSum (map (\<lambda>item. jsMul (quantity item) (unitPrice item)) its)"
  by (simp add: calculateTotal_def jsSum_def foldl_map)

lemma formRows_fields:
  "map it_quantity (formRows iid its) = map quantity its"
  "map unit_price (formRows iid its) = map unitPrice its"
  "map total_price (formRows iid its) = map (\<lambda>item. jsMul (quantity item) (unitPrice item)) its"
  "map invoice_id (formRows iid its) = map (\<lambda>item. iid) its"
  "map it_description (formRows iid its) = map description its"
  by (simp_all add: formRows_def comp_def)

lemma products_whole:
  assumes w: "\<forall>item\<in>set its. wholeAmount (quantity item) \<and> wholeAmount (unitPrice item)"
    and b: "(\<Sum>item\<leftarrow>its. quantity item * unitPrice item) \<le> 2 ^ 53"
  shows "map (\<lambda>item. jsMul (quantity item) (unitPrice item)) its =
           map (\<lambda>item. quantity item * unitPrice item) its"
proof (rule map_cong [OF refl])
  fix item assume i: "item \<in> set its"
  have nn: "\<forall>x\<in>set (map (\<lambda>item. quantity item * unitPrice item) its). 0 \<le> x"
    using w by (auto simp: wholeAmount_def)
  have "quantity item * unitPrice item \<le> (\<Sum>item\<leftarrow>its. quantity item * unitPrice item)"
    using i nn by (intro member_le_sum_list) auto
  with b have "quantity item * unitPrice item \<le> 2 ^ 53" by simp
  with w i show "jsMul (quantity item) (unitPrice item) = quantity item * unitPrice item"
    by (simp add: jsMul_whole)
qed

lemma calculateTotal_whole:
  assumes w: "\<forall>item\<in>set its. wholeAmount (quantity item) \<and> wholeAmount (unitPrice item)"
    and b: "(\<Sum>item\<leftarrow>its. quantity item * unitPrice item) \<le> 2 ^ 53"
  shows "calculateTotal its = (\<Sum>item\<leftarrow>its. quantity item * unitPrice item)"
proof -
  have "\<forall>x\<in>set (map (\<lambda>item. quantity item * unitPrice item) its). wholeAmount x"
    using w by (auto simp: wholeAmount_mult)
  from jsSum_whole [OF this b] show ?thesis
    by (simp add: calculateTotal_jsSum products_whole [OF w b])
qed

lemma map_enumerate_forget:
  "(\<And>k item. g (F k item) = h item) \<Longrightarrow>
     map g (map (\<lambda>(k, item). F k item) (List.enumerate n its)) = map h its"
  by (induction its arbitrary: n) simp_all

lemma itemsToInsert_form:
  assumes "items d = invoiceItems randomUUID its"
  shows "itemsToInsert d = formRows (invoiceId d) its"
  unfolding itemsToInsert_def formRows_def assms invoiceItems_def
  by (rule map_enumerate_forget) simp

lemma insert_client_calls:
  "calls (snd (insert_client now p w)) = calls w @ [InsertClient p]"
  by (simp add: insert_client_def issue_def Let_def split: option.split)

lemma addClient_sent:
  "\<exists>ev. calls (snd (addClient now cd w)) = calls w @ ev \<and>
        headerInserts ev = [] \<and> itemInserts ev = []"
proof (cases "fst (insert_client now
            \<lparr> c_name = cName cd, c_phone = cPhone cd,
              c_address = js_or (Some (cAddress cd)) None,
              visit_count = js_or_num (visitCount cd) 0,
              reward_claimed = js_or_bool (rewardClaimed cd) False,
              last_visit = Some (js_or_str (Some (lastVisit cd)) now) \<rparr>
            (w\<lparr>store := (store w)\<lparr>loading := True, error := None\<rparr>\<rparr>))")
  case (Inl m)
  then have "calls (snd (addClient now cd w)) = calls w @
     [InsertClient \<lparr> c_name = cName cd, c_phone = cPhone cd,
              c_address = js_or (Some (cAddress cd)) None,
              visit_count = js_or_num (visitCount cd) 0,
              reward_claimed = js_or_bool (rewardClaimed cd) False,
              last_visit = Some (js_or_str (Some (lastVisit cd)) now) \<rparr>]"
    by (simp add: addClient_def Let_def split_def effect_fields insert_client_calls)
  then show ?thesis by simp
next
  case (Inr r)
  then have "\<exists>a. calls (snd (addClient now cd w)) = calls w @
     [InsertClient \<lparr> c_name = cName cd, c_phone = cPhone cd,
              c_address = js_or (Some (cAddress cd)) None,
              visit_count = js_or_num (visitCount cd) 0,
              reward_claimed = js_or_bool (rewardClaimed cd) False,
              last_visit = Some (js_or_str (Some (lastVisit cd)) now) \<rparr>, InsertAuditLog a]"
    by (simp add: addClient_def Let_def split_def effect_fields insert_client_calls prim_fields)
  then show ?thesis by auto
qed

lemma addInvoice_try_header_failed:
  assumes valid: "invoiceId d \<noteq> []" "cId (client d) \<noteq> []" "items d \<noteq> []"
    and f0: "fault w (length (calls w)) = Some m"
  shows "calls (snd (addInvoice_try now d w)) = calls w @ [InsertInvoice (invoiceInsert d w)]"
  using assms by (simp add: addInvoice_try_def Let_def split_def prim_fields)

lemma loadInvoices_sent:
  "\<exists>ev. calls (snd (loadInvoices now w)) = calls w @ ev \<and>
        headerInserts ev = [] \<and> itemInserts ev = []"
  by (simp add: loadInvoices_calls)

lemma addInvoice_reload_sent:
  "\<exists>ev. calls (snd (addInvoice_reload now d w)) = calls w @ ev \<and>
        headerInserts ev = [] \<and> itemInserts ev = []"
proof -
  from loadInvoices_sent [of now w] obtain ev where
    ev: "calls (snd (loadInvoices now w)) = calls w @ ev" "headerInserts ev = []"
      "itemInserts ev = []" by blast
  show ?thesis
    unfolding addInvoice_reload_calls ev(1)
    by (rule exI [where x = "ev @ (if fst (loadInvoices now w) = Inr ()
        then SelectClientsOrdered #
          (if fst (loadClients now (snd (loadInvoices now w))) = Inr ()
           then [InsertAuditLog
                  \<lparr> action = ''create'', entity_type = ''invoice'', entity_id = invoiceId d,
                    actor_phone = currentUserPhone (store w),
                    actor_name = currentUserName (store w),
                    changes = [(''total'', JNum (total d)),
                               (''status'', JStr (statusText (status d)))] \<rparr>]
           else [])
        else [])"])
       (simp add: headerInserts_append itemInserts_append ev)
qed

text \<open>
  Whatever its outcome, \<^verbatim>\<open>addInvoice\<close> sends at most one header payload and one batch of
  item payloads, and they are the ones built from its argument.
\<close>

lemma addInvoice_sent:
  "\<exists>ev. calls (snd (addInvoice now d w)) = calls w @ ev \<and>
        (headerInserts ev = [] \<or> headerInserts ev = [invoiceInsert d w]) \<and>
        (itemInserts ev = [] \<or> itemInserts ev = itemsToInsert d)"
proof (cases "invoiceId d = [] \<or> cId (client d) = [] \<or> items d = []")
  case True
  then have "calls (snd (addInvoice now d w)) = calls w"
    by (simp add: addInvoice_catch addInvoice_try_invalid)
  then show ?thesis by simp
next
  case False
  then have valid: "invoiceId d \<noteq> []" "cId (client d) \<noteq> []" "items d \<noteq> []" by simp_all
  show ?thesis
  proof (cases "fault w (length (calls w))")
    case (Some m)
    from addInvoice_try_header_failed [OF valid Some, of now]
    have "calls (snd (addInvoice now d w)) = calls w @ [InsertInvoice (invoiceInsert d w)]"
      by (simp add: addInvoice_catch)
    then show ?thesis by simp
  next
    case None
    show ?thesis
    proof (cases "fault w (length (calls w) + 1)")
      case (Some m)
      from addInvoice_try_items_failed(2) [OF valid None Some, of now]
      have "calls (snd (addInvoice now d w)) =
              calls w @ [InsertInvoice (invoiceInsert d w), InsertInvoiceItems (itemsToInsert d),
                         DeleteInvoice (invoiceId d)]"
        by (simp add: addInvoice_catch)
      then show ?thesis by simp
    next
      case f1: None
      note T = addInvoice_try_written [OF valid None f1, of now]
      note W = written_fields(1) [OF None f1, of now d]
      from addInvoice_reload_sent [of now d "written now d w"] obtain ev where
        ev: "calls (snd (addInvoice_reload now d (written now d w))) = calls (written now d w) @ ev"
          "headerInserts ev = []" "itemInserts ev = []" by blast
      have "calls (snd (addInvoice now d w)) =
              calls w @ ([InsertInvoice (invoiceInsert d w), InsertInvoiceItems (itemsToInsert d),
                         UpdateClientVisit (cId (client d)) (jsAdd (visitCount (client d)) 1) now] @ ev)"
        by (simp add: addInvoice_catch T ev(1) W)
      moreover have "headerInserts ([InsertInvoice (invoiceInsert d w),
                         InsertInvoiceItems (itemsToInsert d),
                         UpdateClientVisit (cId (client d)) (jsAdd (visitCount (client d)) 1) now] @ ev)
                     = [invoiceInsert d w]"
        by (simp add: ev)
      moreover have "itemInserts ([InsertInvoice (invoiceInsert d w),
                         InsertInvoiceItems (itemsToInsert d),
                         UpdateClientVisit (cId (client d)) (jsAdd (visitCount (client d)) 1) now] @ ev)
                     = itemsToInsert d"
        by (simp add: ev)
      ultimately show ?thesis by blast
    qed
  qed
qed

lemma onSubmit_paths:
  "calls (onSubmit now nid uuid watched data w) = calls w \<or>
   (\<exists>c. calls (onSubmit now nid uuid watched data w) =
          calls (snd (addInvoice now (submittedInvoice nid uuid watched data c) w))) \<or>
   calls (onSubmit now nid uuid watched data w) =
     calls (snd (addClient now (submittedClient now data) w)) \<or>
   (\<exists>c. calls (onSubmit now nid uuid watched data w) =
          calls (snd (addInvoice now (submittedInvoice nid uuid watched data c)
                       (snd (addClient now (submittedClient now data) w)))))"
  by (auto simp: onSubmit_def Let_def split_def effect_fields submittedInvoice_def
        submittedClient_def split: option.split prod.split sum.split)

lemma submitted_sent:
  assumes w1: "calls w1 = calls w @ ev0" "headerInserts ev0 = []" "itemInserts ev0 = []"
  shows "\<exists>ev. calls (snd (addInvoice now (submittedInvoice nid uuid watched data c) w1)) = calls w @ ev \<and>
          (\<forall>p\<in>set (headerInserts ev). i_total p = calculateTotal watched) \<and>
          length (headerInserts ev) \<le> 1 \<and>
          (itemInserts ev = [] \<or> itemInserts ev = formRows nid (f_items data))"
proof -
  let ?d = "submittedInvoice nid uuid watched data c"
  from addInvoice_sent [of now ?d w1] obtain ev where
    ev: "calls (snd (addInvoice now ?d w1)) = calls w1 @ ev"
      "headerInserts ev = [] \<or> headerInserts ev = [invoiceInsert ?d w1]"
      "itemInserts ev = [] \<or> itemInserts ev = itemsToInsert ?d" by blast
  have t: "i_total (invoiceInsert ?d w1) = calculateTotal watched"
    by (simp add: invoiceInsert_def submittedInvoice_def)
  have r: "itemsToInsert ?d = formRows nid (f_items data)"
    using itemsToInsert_form [of ?d uuid "f_items data"] by (simp add: submittedInvoice_def)
  have "calls (snd (addInvoice now ?d w1)) = calls w @ (ev0 @ ev)" by (simp add: ev(1) w1(1))
  moreover have "\<forall>p\<in>set (headerInserts (ev0 @ ev)). i_total p = calculateTotal watched"
    using ev(2) t by (auto simp: headerInserts_append w1)
  moreover have "length (headerInserts (ev0 @ ev)) \<le> 1"
    using ev(2) by (auto simp: headerInserts_append w1)
  moreover have "itemInserts (ev0 @ ev) = [] \<or> itemInserts (ev0 @ ev) = formRows nid (f_items data)"
    using ev(3) r by (simp add: itemInserts_append w1)
  ultimately show ?thesis by blast
qed

lemma onSubmit_sent:
  "\<exists>ev. calls (onSubmit now nid uuid watched data w) = calls w @ ev \<and>
        (\<forall>p\<in>set (headerInserts ev). i_total p = calculateTotal watched) \<and>
        length (headerInserts ev) \<le> 1 \<and>
        (itemInserts ev = [] \<or> itemInserts ev = formRows nid (f_items data))"
proof -
  let ?w' = "onSubmit now nid uuid watched data w"
  let ?wc = "snd (addClient now (submittedClient now data) w)"
  from addClient_sent [of now "submittedClient now data" w] obtain ev0 where
    ev0: "calls ?wc = calls w @ ev0" "headerInserts ev0 = []" "itemInserts ev0 = []" by blast
  consider
    (same) "calls ?w' = calls w"
  | (found) c where "calls ?w' = calls (snd (addInvoice now (submittedInvoice nid uuid watched data c) w))"
  | (noclient) "calls ?w' = calls ?wc"
  | (created) c where "calls ?w' =
       calls (snd (addInvoice now (submittedInvoice nid uuid watched data c) ?wc))"
    using onSubmit_paths [of now nid uuid watched data w] by blast
  then show ?thesis
  proof cases
    case same
    then have "calls ?w' = calls w @ []" by simp
    moreover have "\<forall>p\<in>set (headerInserts []). i_total p = calculateTotal watched"
      "length (headerInserts []) \<le> 1" "itemInserts [] = []" by simp_all
    ultimately show ?thesis by blast
  next
    case found
    from submitted_sent [of w w "[]" now nid uuid watched data c] found
    show ?thesis by simp
  next
    case noclient
    with ev0 have "calls ?w' = calls w @ ev0" by simp
    moreover from ev0(2,3) have "\<forall>p\<in>set (headerInserts ev0). i_total p = calculateTotal watched"
      "length (headerInserts ev0) \<le> 1" "itemInserts ev0 = []" by simp_all
    ultimately show ?thesis by blast
  next
    case created
    from submitted_sent [OF ev0, of now nid uuid watched data c] created
    show ?thesis by simp
  qed
qed


text \<open>
  Claim C3, as amended.  Whatever the form holds, the create pipeline sends at most one
  invoice header, and the item rows it sends, if any, are the submitted items, one row
  each in order, each with \<open>total_price\<close> the product of its quantity and unit price
  as JavaScript multiplies (the exact product rounded to a double).  When the items the
  form holds as the total is calculated are the submitted ones, the header carries as
  \<open>total\<close> the sum of these line totals as JavaScript adds them (from 0, in order,
  each partial sum rounded).  For whole quantities and unit prices whose products sum to
  at most \<open>2^53\<close> nothing is rounded: each line total is the exact product and the
  total their exact sum.  The store forwards the total and the line totals of its
  argument as they are: the invariant comes from the form.
\<close>

theorem onSubmit_total:
  "take (length (calls w)) (calls (onSubmit now nid uuid watched data w)) = calls w \<and>
   length (headerInserts (sentBy w (onSubmit now nid uuid watched data w))) \<le> 1 \<and>
   (itemInserts (sentBy w (onSubmit now nid uuid watched data w)) = [] \<or>
    itemInserts (sentBy w (onSubmit now nid uuid watched data w)) = formRows nid (f_items data)) \<and>
   map it_quantity (formRows nid (f_items data)) = map quantity (f_items data) \<and>
   map unit_price (formRows nid (f_items data)) = map unitPrice (f_items data) \<and>
   map total_price (formRows nid (f_items data)) =
     map (\<lambda>item. jsMul (quantity item) (unitPrice item)) (f_items data) \<and>
   (watched = f_items data \<longrightarrow>
      (\<forall>p\<in>set (headerInserts (sentBy w (onSubmit now nid uuid watched data w))).
         i_total p = jsSum (map total_price (formRows nid (f_items data))))) \<and>
   ((\<forall>item\<in>set (f_items data). wholeAmount (quantity item) \<and> wholeAmount (unitPrice item)) \<and>
    (\<Sum>item\<leftarrow>f_items data. quantity item * unitPrice item) \<le> 2 ^ 53 \<longrightarrow>
      map total_price (formRows nid (f_items data)) =
        map (\<lambda>item. quantity item * unitPrice item) (f_items data) \<and>
      (watched = f_items data \<longrightarrow>
         (\<forall>p\<in>set (headerInserts (sentBy w (onSubmit now nid uuid watched data w))).
            i_total p = (\<Sum>item\<leftarrow>f_items data. quantity item * unitPrice item)))) \<and>
   (\<forall>d w0. i_total (invoiceInsert d w0) = total (d :: InvoiceData) \<and>
           map total_price (itemsToInsert d) = map totalPrice (items d))"
proof -
  let ?w' = "onSubmit now nid uuid watched data w"
  let ?its = "f_items data"
  from onSubmit_sent [of now nid uuid watched data w] obtain ev where
    ev: "calls ?w' = calls w @ ev"
      "\<forall>p\<in>set (headerInserts ev). i_total p = calculateTotal watched"
      "length (headerInserts ev) \<le> 1"
      "itemInserts ev = [] \<or> itemInserts ev = formRows nid ?its"
    by blast
  have s: "sentBy w ?w' = ev" by (rule sentBy_append [OF ev(1)])
  have a: "take (length (calls w)) (calls ?w') = calls w" by (simp add: ev(1))
  have b: "length (headerInserts (sentBy w ?w')) \<le> 1" unfolding s by (rule ev(3))
  have c: "itemInserts (sentBy w ?w') = [] \<or> itemInserts (sentBy w ?w') = formRows nid ?its"
    unfolding s by (rule ev(4))
  note d = formRows_fields(1-3) [of nid ?its]
  have e: "watched = ?its \<longrightarrow>
      (\<forall>p\<in>set (headerInserts (sentBy w ?w')). i_total p = jsSum (map total_price (formRows nid ?its)))"
    using ev(2) unfolding s by (simp add: calculateTotal_jsSum d(3))
  have f: "(\<forall>item\<in>set ?its. wholeAmount (quantity item) \<and> wholeAmount (unitPrice item)) \<and>
    (\<Sum>item\<leftarrow>?its. quantity item * unitPrice item) \<le> 2 ^ 53 \<longrightarrow>
      map total_price (formRows nid ?its) = map (\<lambda>item. quantity item * unitPrice item) ?its \<and>
      (watched = ?its \<longrightarrow>
         (\<forall>p\<in>set (headerInserts (sentBy w ?w')).
            i_total p = (\<Sum>item\<leftarrow>?its. quantity item * unitPrice item)))"
  proof
    assume h: "(\<forall>item\<in>set ?its. wholeAmount (quantity item) \<and> wholeAmount (unitPrice item)) \<and>
      (\<Sum>item\<leftarrow>?its. quantity item * unitPrice item) \<le> 2 ^ 53"
    then have w: "\<forall>item\<in>set ?its. wholeAmount (quantity item) \<and> wholeAmount (unitPrice item)"
      and bd: "(\<Sum>item\<leftarrow>?its. quantity item * unitPrice item) \<le> 2 ^ 53" by blast+
    have 1: "map total_price (formRows nid ?its) = map (\<lambda>item. quantity item * unitPrice item) ?its"
      by (simp only: d(3) products_whole [OF w bd])
    have 2: "watched = ?its \<longrightarrow>
         (\<forall>p\<in>set (headerInserts (sentBy w ?w')).
            i_total p = (\<Sum>item\<leftarrow>?its. quantity item * unitPrice item))"
      using ev(2) unfolding s by (simp add: calculateTotal_whole [OF w bd])
    from 1 2 show "map total_price (formRows nid ?its) = map (\<lambda>item. quantity item * unitPrice item) ?its \<and>
      (watched = ?its \<longrightarrow>
         (\<forall>p\<in>set (headerInserts (sentBy w ?w')).
            i_total p = (\<Sum>item\<leftarrow>?its. quantity item * unitPrice item)))" by blast
  qed
  have g: "\<forall>d w0. i_total (invoiceInsert d w0) = total (d :: InvoiceData) \<and>
           map total_price (itemsToInsert d) = map totalPrice (items d)"
    by (simp add: invoiceInsert_def itemsToInsert_def comp_def)
  from a b c d e f g show ?thesis by blast
qed

lemma ex_submit:
  "map i_total (headerInserts (sentBy ex_ready
     (onSubmit ex_now ''INV-9'' ex_uuid (f_items ex_form) ex_form ex_ready))) = [2000]"
  "map total_price (itemInserts (sentBy ex_ready
     (onSubmit ex_now ''INV-9'' ex_uuid (f_items ex_form) ex_form ex_ready))) = [2000]"
  "map total (invoices (store
     (onSubmit ex_now ''INV-9'' ex_uuid (f_items ex_form) ex_form ex_ready))) = [2000, 2000]"
  "last (toasts (onSubmit ex_now ''INV-9'' ex_uuid (f_items ex_form) ex_form ex_ready))
     = Toast ''Invoice created successfully!'' None False"
  by code_simp+

lemma ex_form_whole:
  "\<forall>item\<in>set (f_items ex_form). wholeAmount (quantity item) \<and> wholeAmount (unitPrice item)"
  "(\<Sum>item\<leftarrow>f_items ex_form. quantity item * unitPrice item) = 2000"
  by (simp_all add: ex_form_def wholeAmount_def)

theorem onSubmit_total_witness:
  "map (\<lambda>item. wholeAmount (quantity item) \<and> wholeAmount (unitPrice item)) (f_items ex_form)
     = [True] \<and>
   (\<Sum>item\<leftarrow>f_items ex_form. quantity item * unitPrice item) = 2000 \<and>
   map (\<lambda>item. (quantity item, unitPrice item)) (f_items ex_form) = [(2, 1000)] \<and>
   itemInserts (sentBy ex_ready (onSubmit ex_now ''INV-9'' ex_uuid (f_items ex_form) ex_form ex_ready))
     = formRows ''INV-9'' (f_items ex_form) \<and>
   map total_price (formRows ''INV-9'' (f_items ex_form)) = [2000] \<and>
   map i_total (headerInserts (sentBy ex_ready
     (onSubmit ex_now ''INV-9'' ex_uuid (f_items ex_form) ex_form ex_ready))) = [2000] \<and>
   last (toasts (onSubmit ex_now ''INV-9'' ex_uuid (f_items ex_form) ex_form ex_ready))
     = Toast ''Invoice created successfully!'' None False"
proof -
  let ?w' = "onSubmit ex_now ''INV-9'' ex_uuid (f_items ex_form) ex_form ex_ready"
  note T = onSubmit_total [of ex_ready ex_now "''INV-9''" ex_uuid "f_items ex_form" ex_form]
  have b: "(\<Sum>item\<leftarrow>f_items ex_form. quantity item * unitPrice item) \<le> 2 ^ 53"
    by (simp add: ex_form_whole(2))
  have q: "map (\<lambda>item. (quantity item, unitPrice item)) (f_items ex_form) = [(2, 1000)]"
    by (simp add: ex_form_def)
  have n: "itemInserts (sentBy ex_ready ?w') \<noteq> []"
    using ex_submit(2) by auto
  from T n have r: "itemInserts (sentBy ex_ready ?w') = formRows ''INV-9'' (f_items ex_form)"
    by blast
  from T ex_form_whole(1) b
  have "map total_price (formRows ''INV-9'' (f_items ex_form)) =
          map (\<lambda>item. quantity item * unitPrice item) (f_items ex_form)"
    by blast
  then have t: "map total_price (formRows ''INV-9'' (f_items ex_form)) = [2000]"
    by (simp add: ex_form_def)
  have w: "map (\<lambda>item. wholeAmount (quantity item) \<and> wholeAmount (unitPrice item)) (f_items ex_form)
     = [True]"
    by (simp add: ex_form_def wholeAmount_def)
  from w ex_form_whole(2) q r t ex_submit(1,4) show ?thesis by blast
qed

text \<open>
  The claim C3 as stated fails where the arithmetic rounds: for three pieces at a unit
  price of 0.1 the line total sent, and the total, is 0.30000000000000004 (the double
  next above), not three times the unit price.
\<close>

theorem onSubmit_total_counterexample:
  "map (\<lambda>item. (quantity item, unitPrice item)) (f_items ex_form_tenths)
     = [(3, 3602879701896397 / 36028797018963968)] \<and>
   map (\<lambda>item. quantity item * unitPrice item) (f_items ex_form_tenths)
     = [10808639105689191 / 36028797018963968] \<and>
   map total_price (itemInserts (sentBy ex_ready
     (onSubmit ex_now ''INV-9'' ex_uuid (f_items ex_form_tenths) ex_form_tenths ex_ready)))
     = [1351079888211149 / 4503599627370496] \<and>
   map i_total (headerInserts (sentBy ex_ready
     (onSubmit ex_now ''INV-9'' ex_uuid (f_items ex_form_tenths) ex_form_tenths ex_ready)))
     = [1351079888211149 / 4503599627370496] \<and>
   (1351079888211149 / 4503599627370496 :: number) \<noteq> 10808639105689191 / 36028797018963968"
  by code_simp

text \<open>
  The total is calculated from the items the form holds after \<^verbatim>\<open>addClient\<close> has been
  awaited, the rows from the submitted items.  When the form was edited in between (here
  the client is new, and the quantity was raised from 2 to 5 meanwhile), the header's
  total is that of the edited items while the rows are the submitted ones.
\<close>

lemma onSubmit_live_items:
  "clients (store ex_world) = [] \<and>
   map (\<lambda>item. (quantity item, unitPrice item)) (f_items ex_form) = [(2, 1000)] \<and>
   map i_total (headerInserts (sentBy ex_world
     (onSubmit ex_now ''INV-9'' ex_uuid
        [\<lparr> description = ''Shirt wash'', quantity = 5, unitPrice = 1000 \<rparr>] ex_form ex_world)))
     = [5000] \<and>
   map total_price (itemInserts (sentBy ex_world
     (onSubmit ex_now ''INV-9'' ex_uuid
        [\<lparr> description = ''Shirt wash'', quantity = 5, unitPrice = 1000 \<rparr>] ex_form ex_world)))
     = [2000]"
  by code_simp

end
